(* ===== verification/Prelude.thy ===== *)
theory Prelude
  imports Complex_Main "HOL-Library.Word" "HOL-Library.Sublist"
begin

text \<open>
  Vocabulary shared by the components: the machine words of OpenCL (\<open>uint\<close> is
  \<open>u32\<close>, \<open>ulong\<close> is \<open>u64\<close>), the OpenCL built-in \<open>mul_hi\<close> (the high half of the
  double-width product), slices of two and four lanes read from and written to a buffer,
  and a substring test on source texts. The collection \<open>philox_eval\<close> gathers the
  equations that evaluate the generators on concrete words with \<open>simp\<close>.
\<close>

unbundle bit_operations_syntax

named_theorems philox_eval "equations that evaluate the Philox rounds on concrete words"
named_theorems catalog_defs "the descriptors of the kernel catalog, unfolded to evaluate checks on it"

type_synonym u32 = "32 word"
type_synonym u64 = "64 word"
type_synonym 'a lanes4 = "'a \<times> 'a \<times> 'a \<times> 'a"

definition mul_hi :: "'a::len word \<Rightarrow> 'a word \<Rightarrow> 'a word" where
  "mul_hi a b = word_of_nat (unat a * unat b div 2 ^ LENGTH('a))"

definition get2 :: "nat \<Rightarrow> 'a list \<Rightarrow> 'a \<times> 'a" where
  "get2 i xs = (xs ! i, xs ! Suc i)"

definition put2 :: "nat \<Rightarrow> 'a \<times> 'a \<Rightarrow> 'a list \<Rightarrow> 'a list" where
  "put2 i v xs = xs[i := fst v, Suc i := snd v]"

definition get4 :: "nat \<Rightarrow> 'a list \<Rightarrow> 'a lanes4" where
  "get4 i xs = (xs ! i, xs ! (i + 1), xs ! (i + 2), xs ! (i + 3))"

definition put4 :: "nat \<Rightarrow> 'a lanes4 \<Rightarrow> 'a list \<Rightarrow> 'a list" where
  "put4 i v xs = (case v of (a, b, c, d) \<Rightarrow> xs[i := a, i + 1 := b, i + 2 := c, i + 3 := d])"

fun occurs :: "'a list \<Rightarrow> 'a list \<Rightarrow> bool" where
  "occurs p [] = (p = [])"
| "occurs p (c # s) = (if prefix p (c # s) then True else occurs p s)"

subsection \<open>Loop counts\<close>

text \<open>
  Unfolds a literal loop count such as \<open>10\<close> into \<open>Suc\<close> steps, and nothing else:
  used with \<open>simp only\<close> before the rounds are evaluated on numerals.
\<close>

lemmas count_to_Suc = numeral_eq_Suc pred_numeral_simps BitM.simps

subsection \<open>The wide multiply\<close>

lemma unat_mul_hi: "unat (mul_hi (a :: 'a::len word) b) = unat a * unat b div 2 ^ LENGTH('a)"
proof -
  have "unat a * unat b < 2 ^ LENGTH('a) * 2 ^ LENGTH('a)"
    by (simp add: mult_strict_mono)
  then have "unat a * unat b div 2 ^ LENGTH('a) < 2 ^ LENGTH('a)"
    by (simp add: less_mult_imp_div_less)
  then show ?thesis by (simp add: mul_hi_def unat_of_nat)
qed

lemma mul_hi_lo_split:
  "unat (a :: 'a::len word) * unat b = unat (mul_hi a b) * 2 ^ LENGTH('a) + unat (a * b)"
  by (simp add: unat_mul_hi unat_word_ariths div_mult_mod_eq)

lemma mul_inverse_cancel: "c * a = 1 \<Longrightarrow> c * (a * s) = (s :: 'a::len word)"
  by (simp add: mult.assoc [symmetric])

lemma mul_inverse_cancel': "c * a = 1 \<Longrightarrow> a * (c * s) = (s :: 'a::len word)"
  by (simp add: mult.assoc [symmetric] mult.commute [of a c])

lemma xor3_cancel: "(a XOR b XOR c) XOR a XOR b = (c :: 'a::len word)"
  by (rule bit_eqI) (auto simp: bit_xor_iff)

lemma xor3_cancel': "a XOR b XOR (c XOR a XOR b) = (c :: 'a::len word)"
  by (rule bit_eqI) (auto simp: bit_xor_iff)

lemma unat_drop_bit_div: "unat (drop_bit n (w :: 'a::len word)) = unat w div 2 ^ n"
  by (simp add: unat_drop_bit_eq drop_bit_eq_div [where ?'a = nat])

lemma unat_push_bit_mult:
  "unat (w :: 'a::len word) * 2 ^ n < 2 ^ LENGTH('a) \<Longrightarrow> unat (push_bit n w) = unat w * 2 ^ n"
  by (simp add: unsigned_push_bit_eq push_bit_eq_mult [where ?'a = nat] take_bit_eq_mod [where ?'a = nat])

lemma unat_ucast_u32_u64: "unat (ucast (w :: u32) :: u64) = unat w"
  using unsigned_less [of w, where ?'a = nat] by (simp add: unsigned_ucast_eq take_bit_eq_mod)

subsection \<open>Slices\<close>

lemma length_put2 [simp]: "length (put2 i v xs) = length xs"
  by (simp add: put2_def)

lemma get2_put2 [simp]: "Suc i < length xs \<Longrightarrow> get2 i (put2 i v xs) = v"
  by (simp add: get2_def put2_def)

lemma put2_put2 [simp]: "put2 i v (put2 i w xs) = put2 i v xs"
  by (simp add: put2_def list_update_swap)

lemma nth_put2_other:
  "j \<noteq> i \<Longrightarrow> j \<noteq> Suc i \<Longrightarrow> put2 i v xs ! j = xs ! j"
  by (simp add: put2_def)

lemma length_put4 [simp]: "length (put4 i v xs) = length xs"
  by (simp add: put4_def split: prod.splits)

lemma get4_put4 [simp]: "i + 3 < length xs \<Longrightarrow> get4 i (put4 i v xs) = v"
  by (simp add: get4_def put4_def nth_list_update split: prod.splits)

lemma put4_put4 [simp]: "put4 i v (put4 i w xs) = put4 i v xs"
  by (simp add: put4_def list_update_swap split: prod.splits)

lemma nth_put4_other:
  "j < i \<or> i + 3 < j \<Longrightarrow> put4 i v xs ! j = xs ! j"
  by (auto simp add: put4_def split: prod.splits)

text \<open>Slices of different threads are disjoint: writing one leaves the others unchanged.\<close>

lemma get2_put2_disj: "i + 1 < j \<or> j + 1 < i \<Longrightarrow> get2 i (put2 j v xs) = get2 i xs"
  by (auto simp: get2_def put2_def)

lemma put2_swap_disj: "i + 1 < j \<or> j + 1 < i \<Longrightarrow> put2 i v (put2 j w xs) = put2 j w (put2 i v xs)"
  by (auto simp: put2_def list_update_swap)

lemma get4_put4_disj: "i + 3 < j \<or> j + 3 < i \<Longrightarrow> get4 i (put4 j v xs) = get4 i xs"
  by (auto simp: get4_def put4_def split: prod.splits)

lemma put4_swap_disj: "i + 3 < j \<or> j + 3 < i \<Longrightarrow> put4 i v (put4 j w xs) = put4 j w (put4 i v xs)"
  by (auto simp: put4_def list_update_swap split: prod.splits)

lemma stride2_disj: "x \<noteq> y \<Longrightarrow> x * 2 + 1 < y * 2 \<or> y * 2 + 1 < (x :: nat) * 2"
  by arith

lemma stride4_disj: "x \<noteq> y \<Longrightarrow> x * 4 + 3 < y * 4 \<or> y * 4 + 3 < (x :: nat) * 4"
  by arith

lemma get2_eq_nth: "(\<forall>i. j \<le> i \<longrightarrow> ys ! i = xs ! i) \<Longrightarrow> get2 j ys = get2 j xs"
  by (simp add: get2_def)

lemma zip_map_self: "zip (map f xs) xs = map (\<lambda>x. (f x, x)) xs"
  by (induction xs) simp_all

subsection \<open>Substrings\<close>

lemma occurs_sublist: "occurs p s = sublist p s"
  by (induction s) (auto simp: sublist_Cons_right)

lemma occurs_append_left: "occurs p a \<Longrightarrow> occurs p (a @ b)"
  unfolding occurs_sublist by (erule sublist_order.order_trans) simp

lemma occurs_append_right: "occurs p b \<Longrightarrow> occurs p (a @ b)"
  unfolding occurs_sublist by (erule sublist_order.order_trans) simp

lemma occurs_trans: "occurs q p \<Longrightarrow> occurs p s \<Longrightarrow> occurs q s"
  unfolding occurs_sublist by (rule sublist_order.order_trans)

text \<open>A two-symbol pattern found in \<open>a @ b\<close> lies in \<open>a\<close>, in \<open>b\<close>, or across the seam.\<close>

lemma occurs_pair_append:
  "occurs [x, y] (a @ b) \<Longrightarrow> occurs [x, y] a \<or> occurs [x, y] b \<or> (a \<noteq> [] \<and> last a = x \<and> b \<noteq> [] \<and> hd b = y)"
proof (induction a)
  case Nil
  then show ?case by simp
next
  case (Cons c a)
  show ?case
  proof (cases "a = []")
    case True
    with Cons.prems show ?thesis by (cases b) (auto split: if_splits)
  next
    case False
    then obtain d a' where a: "a = d # a'" by (cases a) auto
    from Cons.prems Cons.IH show ?thesis by (auto simp: a split: if_splits)
  qed
qed

subsection \<open>Strided ranges\<close>

text \<open>The number of steps of width \<open>s\<close> that stay below \<open>a\<close>, \<open>(a + s - 1) div s\<close>.\<close>

lemma ceil_div_Suc: "0 < a \<Longrightarrow> 0 < s \<Longrightarrow> (a + s - 1) div s = Suc ((a - s + s - 1) div s)"
proof (cases "s \<le> a")
  case True
  assume s: "0 < s"
  have e: "a + s - 1 = (a - 1) + s" and e': "a - s + s - 1 = a - 1" using True s by simp_all
  show ?thesis unfolding e e' using s by simp
next
  case False
  assume "0 < a" "0 < s"
  then have "(a + s - 1) div s = 1" by (intro div_nat_eqI) (use False in auto)
  moreover have "(a - s + s - 1) div s = 0" using False by simp
  ultimately show ?thesis by simp
qed

lemma ceil_div_less: "(k :: nat) < (a + s - 1) div s \<Longrightarrow> 0 < s \<Longrightarrow> s * k < a"
proof -
  assume k: "k < (a + s - 1) div s" and s: "0 < s"
  then have "Suc k \<le> (a + s - 1) div s" by simp
  then have "Suc k * s \<le> a + s - 1" by (simp only: less_eq_div_iff_mult_less_eq [OF s])
  then show ?thesis using s by (simp add: algebra_simps)
qed

end
