(* ===== verification/Philox.thy ===== *)
theory Philox
  imports Prelude
begin

text \<open>
  The three Philox round cores of the \<open>random!\<close> macro (src/src/kernels.rs, lines 34--90)
  read as OpenCL code: each variant keeps its counter in \<open>l\<close> consecutive elements
  of the buffer \<open>src\<close>, at \<open>src[x*l] .. src[x*l+l-1]\<close>, and runs ten rounds on
  them, bumping its key after each round. Each variant is modelled twice: on a tuple
  of lanes (the algorithm) and on the buffer, statement by statement (the code); the
  two are proved equal, and the ten rounds are proved a bijection of the counter space
  by an explicit inverse.
\<close>

section \<open>Philox-2x64-10\<close>

definition philox2x64_M :: u64 where
  "philox2x64_M = 0xD2B74407B1CE6E93"

definition philox2x64_W :: u64 where
  "philox2x64_W = 0x9E3779B97F4A7C15"

text \<open>One iteration of the loop body, lines 60--64, on the lanes \<open>(s0, s1)\<close>.\<close>

definition philox2x64_round :: "u64 \<Rightarrow> u64 \<times> u64 \<Rightarrow> u64 \<times> u64" where
  "philox2x64_round key s =
     (let (s0, s1) = s;
          hi = mul_hi philox2x64_M s0;
          lo = philox2x64_M * s0
      in (hi XOR key XOR s1, lo))"

text \<open>The loop \<open>for(int i = 0;i<10;i++)\<close>: \<open>n\<close> iterations left, the key bumped after each.\<close>

fun philox2x64_rounds :: "nat \<Rightarrow> u64 \<Rightarrow> u64 \<times> u64 \<Rightarrow> u64 \<times> u64" where
  "philox2x64_rounds 0 key s = s"
| "philox2x64_rounds (Suc n) key s =
     philox2x64_rounds n (key + philox2x64_W) (philox2x64_round key s)"

text \<open>\<open>ulong key = x;\<close> then ten rounds.\<close>

definition philox2x64_10 :: "nat \<Rightarrow> u64 \<times> u64 \<Rightarrow> u64 \<times> u64" where
  "philox2x64_10 x s = philox2x64_rounds 10 (word_of_nat x) s"

text \<open>The same loop body on the buffer, one assignment after the other as written.\<close>

definition philox2x64_body :: "nat \<Rightarrow> u64 \<Rightarrow> u64 list \<Rightarrow> u64 list" where
  "philox2x64_body x key src =
     (let l = 2 :: nat;
          hi = mul_hi philox2x64_M (src ! (x * l + 0));
          lo = philox2x64_M * src ! (x * l + 0);
          src = src[x * l + 0 := hi XOR key XOR src ! (x * l + 1)];
          src = src[x * l + 1 := lo]
      in src)"

fun philox2x64_loop :: "nat \<Rightarrow> nat \<Rightarrow> u64 \<Rightarrow> u64 list \<Rightarrow> u64 list" where
  "philox2x64_loop 0 x key src = src"
| "philox2x64_loop (Suc n) x key src =
     philox2x64_loop n x (key + philox2x64_W) (philox2x64_body x key src)"

text \<open>
  The kernel \<open>philox2x64_10\<close> for one thread \<open>x\<close>: \<open>None\<close> stands for an access
  outside the buffer, which OpenCL leaves undefined.
\<close>

definition philox2x64_kernel :: "nat \<Rightarrow> u64 list \<Rightarrow> u64 list option" where
  "philox2x64_kernel x src =
     (if x * 2 + 2 \<le> length src then Some (philox2x64_loop 10 x (word_of_nat x) src) else None)"

subsection \<open>The inverse of the rounds\<close>

definition philox2x64_Minv :: u64 where
  "philox2x64_Minv = 0xF5F365BD212BDF9B"

definition philox2x64_unround :: "u64 \<Rightarrow> u64 \<times> u64 \<Rightarrow> u64 \<times> u64" where
  "philox2x64_unround key t =
     (let (t0, t1) = t; s0 = philox2x64_Minv * t1
      in (s0, t0 XOR mul_hi philox2x64_M s0 XOR key))"

fun philox2x64_unrounds :: "nat \<Rightarrow> u64 \<Rightarrow> u64 \<times> u64 \<Rightarrow> u64 \<times> u64" where
  "philox2x64_unrounds 0 key t = t"
| "philox2x64_unrounds (Suc n) key t =
     philox2x64_unround key (philox2x64_unrounds n (key + philox2x64_W) t)"

definition philox2x64_10_inv :: "nat \<Rightarrow> u64 \<times> u64 \<Rightarrow> u64 \<times> u64" where
  "philox2x64_10_inv x t = philox2x64_unrounds 10 (word_of_nat x) t"

section \<open>The four-lane rounds, shared by Philox-4x64-10 and Philox-4x32-10\<close>

text \<open>
  Lines 41--50 and 74--83 are the same loop body at two widths. \<open>hi1\<close> is computed
  with the multiplier \<open>M\<close>, as the code writes it, while \<open>lo1\<close> uses \<open>M2\<close>.
\<close>

definition philox4_round ::
  "'a::len word \<Rightarrow> 'a word \<Rightarrow> 'a word \<times> 'a word \<Rightarrow> 'a word lanes4 \<Rightarrow> 'a word lanes4" where
  "philox4_round M M2 key s =
     (let (s0, s1, s2, s3) = s; (k0, k1) = key;
          hi0 = mul_hi M s0;
          lo0 = M * s0;
          hi1 = mul_hi M s2;
          lo1 = M2 * s2
      in (hi1 XOR k1 XOR s3, lo0, hi0 XOR k0 XOR s1, lo1))"

fun philox4_rounds ::
  "'a::len word \<Rightarrow> 'a word \<Rightarrow> 'a word \<times> 'a word \<Rightarrow> nat \<Rightarrow> 'a word \<times> 'a word \<Rightarrow>
   'a word lanes4 \<Rightarrow> 'a word lanes4" where
  "philox4_rounds M M2 W 0 key s = s"
| "philox4_rounds M M2 W (Suc n) key s =
     philox4_rounds M M2 W n (fst key + fst W, snd key + snd W) (philox4_round M M2 key s)"

definition philox4_body ::
  "'a::len word \<Rightarrow> 'a word \<Rightarrow> nat \<Rightarrow> 'a word \<times> 'a word \<Rightarrow> 'a word list \<Rightarrow> 'a word list" where
  "philox4_body M M2 x key src =
     (let l = 4 :: nat; (k0, k1) = key;
          hi0 = mul_hi M (src ! (x * l + 0));
          lo0 = M * src ! (x * l + 0);
          hi1 = mul_hi M (src ! (x * l + 2));
          lo1 = M2 * src ! (x * l + 2);
          src = src[x * l + 0 := hi1 XOR k1 XOR src ! (x * l + 3)];
          src = src[x * l + 2 := hi0 XOR k0 XOR src ! (x * l + 1)];
          src = src[x * l + 1 := lo0];
          src = src[x * l + 3 := lo1]
      in src)"

fun philox4_loop ::
  "'a::len word \<Rightarrow> 'a word \<Rightarrow> 'a word \<times> 'a word \<Rightarrow> nat \<Rightarrow> nat \<Rightarrow> 'a word \<times> 'a word \<Rightarrow>
   'a word list \<Rightarrow> 'a word list" where
  "philox4_loop M M2 W 0 x key src = src"
| "philox4_loop M M2 W (Suc n) x key src =
     philox4_loop M M2 W n x (fst key + fst W, snd key + snd W) (philox4_body M M2 x key src)"

subsection \<open>Generic inverse\<close>

definition philox4_unround ::
  "'a::len word \<Rightarrow> 'a word \<Rightarrow> 'a word \<Rightarrow> 'a word \<times> 'a word \<Rightarrow> 'a word lanes4 \<Rightarrow> 'a word lanes4" where
  "philox4_unround M Minv M2inv key t =
     (let (t0, t1, t2, t3) = t; (k0, k1) = key;
          s0 = Minv * t1; s2 = M2inv * t3
      in (s0, t2 XOR mul_hi M s0 XOR k0, s2, t0 XOR mul_hi M s2 XOR k1))"

fun philox4_unrounds ::
  "'a::len word \<Rightarrow> 'a word \<Rightarrow> 'a word \<Rightarrow> 'a word \<times> 'a word \<Rightarrow> nat \<Rightarrow> 'a word \<times> 'a word \<Rightarrow>
   'a word lanes4 \<Rightarrow> 'a word lanes4" where
  "philox4_unrounds M Minv M2inv W 0 key t = t"
| "philox4_unrounds M Minv M2inv W (Suc n) key t =
     philox4_unround M Minv M2inv key
       (philox4_unrounds M Minv M2inv W n (fst key + fst W, snd key + snd W) t)"

section \<open>Philox-4x64-10\<close>

definition philox4x64_M :: u64 where
  "philox4x64_M = 0xD2B74407B1CE6E93"

definition philox4x64_M2 :: u64 where
  "philox4x64_M2 = 0xCA5A826395121157"

definition philox4x64_W :: "u64 \<times> u64" where
  "philox4x64_W = (0x9E3779B97F4A7C15, 0xBB67AE8584CAA73B)"

text \<open>\<open>ulong key[2] = {0,x};\<close> then ten rounds.\<close>

definition philox4x64_10 :: "nat \<Rightarrow> u64 lanes4 \<Rightarrow> u64 lanes4" where
  "philox4x64_10 x s = philox4_rounds philox4x64_M philox4x64_M2 philox4x64_W 10 (0, word_of_nat x) s"

definition philox4x64_kernel :: "nat \<Rightarrow> u64 list \<Rightarrow> u64 list option" where
  "philox4x64_kernel x src =
     (if x * 4 + 4 \<le> length src
      then Some (philox4_loop philox4x64_M philox4x64_M2 philox4x64_W 10 x (0, word_of_nat x) src)
      else None)"

section \<open>Philox-4x32-10\<close>

definition philox4x32_M :: u32 where
  "philox4x32_M = 0xD2511F53"

definition philox4x32_M2 :: u32 where
  "philox4x32_M2 = 0xCD9E8D57"

definition philox4x32_W :: "u32 \<times> u32" where
  "philox4x32_W = (0x9E3779B9, 0xBB67AE85)"

text \<open>\<open>uint key[2] = {x>>32,x};\<close>: the two halves of the 64-bit thread index.\<close>

definition philox4x32_key :: "nat \<Rightarrow> u32 \<times> u32" where
  "philox4x32_key x = (ucast (drop_bit 32 (word_of_nat x :: u64)), ucast (word_of_nat x :: u64))"

definition philox4x32_10 :: "nat \<Rightarrow> u32 lanes4 \<Rightarrow> u32 lanes4" where
  "philox4x32_10 x s = philox4_rounds philox4x32_M philox4x32_M2 philox4x32_W 10 (philox4x32_key x) s"

definition philox4x32_kernel :: "nat \<Rightarrow> u32 list \<Rightarrow> u32 list option" where
  "philox4x32_kernel x src =
     (if x * 4 + 4 \<le> length src
      then Some (philox4_loop philox4x32_M philox4x32_M2 philox4x32_W 10 x (philox4x32_key x) src)
      else None)"

subsection \<open>Inverses of the four-lane variants\<close>

definition philox4x64_Minv :: u64 where
  "philox4x64_Minv = 0xF5F365BD212BDF9B"

definition philox4x64_M2inv :: u64 where
  "philox4x64_M2inv = 0x17DF77E820BB6A67"

definition philox4x32_Minv :: u32 where
  "philox4x32_Minv = 0x991A7CDB"

definition philox4x32_M2inv :: u32 where
  "philox4x32_M2inv = 0x6D7CAE67"

definition philox4x64_10_inv :: "nat \<Rightarrow> u64 lanes4 \<Rightarrow> u64 lanes4" where
  "philox4x64_10_inv x t =
     philox4_unrounds philox4x64_M philox4x64_Minv philox4x64_M2inv philox4x64_W 10 (0, word_of_nat x) t"

definition philox4x32_10_inv :: "nat \<Rightarrow> u32 lanes4 \<Rightarrow> u32 lanes4" where
  "philox4x32_10_inv x t =
     philox4_unrounds philox4x32_M philox4x32_Minv philox4x32_M2inv philox4x32_W 10 (philox4x32_key x) t"

subsection \<open>Reference rounds\<close>

text \<open>
  The published Philox-4xW round (Salmon et al., the Random123 library), where \<open>M1\<close>
  multiplies lane 2 for both halves of the wide product, and whose lane arrangement
  differs from the code's:
  \<open>(hi1 XOR s1 XOR k0, lo1, hi0 XOR s3 XOR k1, lo0)\<close>.
\<close>

definition philox4_round_r123 ::
  "'a::len word \<Rightarrow> 'a word \<Rightarrow> 'a word \<times> 'a word \<Rightarrow> 'a word lanes4 \<Rightarrow> 'a word lanes4" where
  "philox4_round_r123 M0 M1 key c =
     (let (c0, c1, c2, c3) = c; (k0, k1) = key
      in (mul_hi M1 c2 XOR c1 XOR k0, M1 * c2, mul_hi M0 c0 XOR c3 XOR k1, M0 * c0))"

fun philox4_rounds_r123 ::
  "'a::len word \<Rightarrow> 'a word \<Rightarrow> 'a word \<times> 'a word \<Rightarrow> nat \<Rightarrow> 'a word \<times> 'a word \<Rightarrow>
   'a word lanes4 \<Rightarrow> 'a word lanes4" where
  "philox4_rounds_r123 M0 M1 W 0 key c = c"
| "philox4_rounds_r123 M0 M1 W (Suc n) key c =
     philox4_rounds_r123 M0 M1 W n (fst key + fst W, snd key + snd W) (philox4_round_r123 M0 M1 key c)"

declare mul_hi_def [philox_eval]
  philox2x64_M_def [philox_eval] philox2x64_W_def [philox_eval]
  philox2x64_round_def [philox_eval]
  philox4_round_def [philox_eval] philox4x64_M_def [philox_eval] philox4x64_M2_def [philox_eval]
  philox4x64_W_def [philox_eval]
  philox4x32_M_def [philox_eval] philox4x32_M2_def [philox_eval] philox4x32_W_def [philox_eval]
  philox4x32_key_def [philox_eval]
  philox4_round_r123_def [philox_eval]

section \<open>Lemmas\<close>

lemma philox2x64_Minv_M: "philox2x64_Minv * philox2x64_M = 1"
  by (simp add: philox2x64_Minv_def philox2x64_M_def)

lemma philox2x64_unround_round: "philox2x64_unround key (philox2x64_round key s) = s"
  by (cases s) (simp add: philox2x64_unround_def philox2x64_round_def Let_def
                          mul_inverse_cancel [OF philox2x64_Minv_M] xor3_cancel)

lemma philox2x64_round_unround: "philox2x64_round key (philox2x64_unround key t) = t"
  by (cases t) (simp add: philox2x64_unround_def philox2x64_round_def Let_def
                          mul_inverse_cancel' [OF philox2x64_Minv_M] xor3_cancel')

lemma philox2x64_unrounds_rounds:
  "philox2x64_unrounds n key (philox2x64_rounds n key s) = s"
  by (induction n arbitrary: key s) (simp_all add: philox2x64_unround_round)

lemma philox2x64_rounds_unrounds:
  "philox2x64_rounds n key (philox2x64_unrounds n key t) = t"
  by (induction n arbitrary: key t) (simp_all add: philox2x64_round_unround)

lemma philox2x64_body_put2:
  "x * 2 + 1 < length src \<Longrightarrow>
   philox2x64_body x key src = put2 (x * 2) (philox2x64_round key (get2 (x * 2) src)) src"
  by (simp add: philox2x64_body_def philox2x64_round_def put2_def get2_def Let_def)

lemma philox2x64_loop_put2:
  "x * 2 + 1 < length src \<Longrightarrow>
   philox2x64_loop n x key src = put2 (x * 2) (philox2x64_rounds n key (get2 (x * 2) src)) src"
proof (induction n arbitrary: key src)
  case 0
  then show ?case by (simp add: get2_def put2_def)
next
  case (Suc n)
  then show ?case by (simp add: philox2x64_body_put2)
qed

lemma philox2x64_rounds_fold:
  "philox2x64_rounds n key s =
   fold (\<lambda>i. philox2x64_round (key + of_nat i * philox2x64_W)) [0..<n] s"
proof (induction n arbitrary: key s)
  case 0
  then show ?case by simp
next
  case (Suc n)
  have "[0..<Suc n] = 0 # map Suc [0..<n]"
    by (simp add: upt_conv_Cons map_Suc_upt)
  then show ?case
    by (simp add: Suc.IH fold_map o_def algebra_simps)
qed

lemma philox4_unround_round:
  "Minv * M = 1 \<Longrightarrow> M2inv * M2 = 1 \<Longrightarrow>
   philox4_unround M Minv M2inv key (philox4_round M M2 key s) = s"
  by (cases s; cases key)
     (simp add: philox4_unround_def philox4_round_def Let_def mul_inverse_cancel xor3_cancel)

lemma philox4_round_unround:
  "Minv * M = 1 \<Longrightarrow> M2inv * M2 = 1 \<Longrightarrow>
   philox4_round M M2 key (philox4_unround M Minv M2inv key t) = t"
  by (cases t; cases key)
     (simp add: philox4_unround_def philox4_round_def Let_def mul_inverse_cancel' xor3_cancel')

lemma philox4_unrounds_rounds:
  "Minv * M = 1 \<Longrightarrow> M2inv * M2 = 1 \<Longrightarrow>
   philox4_unrounds M Minv M2inv W n key (philox4_rounds M M2 W n key s) = s"
  by (induction n arbitrary: key s) (simp_all add: philox4_unround_round)

lemma philox4_rounds_unrounds:
  "Minv * M = 1 \<Longrightarrow> M2inv * M2 = 1 \<Longrightarrow>
   philox4_rounds M M2 W n key (philox4_unrounds M Minv M2inv W n key t) = t"
  by (induction n arbitrary: key t) (simp_all add: philox4_round_unround)

lemma philox4_body_put4:
  "x * 4 + 3 < length src \<Longrightarrow>
   philox4_body M M2 x key src = put4 (x * 4) (philox4_round M M2 key (get4 (x * 4) src)) src"
  by (cases key)
     (simp add: philox4_body_def philox4_round_def put4_def get4_def Let_def
                nth_list_update list_update_swap)

lemma philox4_loop_put4:
  "x * 4 + 3 < length src \<Longrightarrow>
   philox4_loop M M2 W n x key src = put4 (x * 4) (philox4_rounds M M2 W n key (get4 (x * 4) src)) src"
proof (induction n arbitrary: key src)
  case 0
  then show ?case by (simp add: get4_def put4_def)
next
  case (Suc n)
  then show ?case by (simp add: philox4_body_put4)
qed

lemma philox4x64_inverses:
  "philox4x64_Minv * philox4x64_M = 1" "philox4x64_M2inv * philox4x64_M2 = 1"
  by (simp_all add: philox4x64_Minv_def philox4x64_M_def philox4x64_M2inv_def philox4x64_M2_def)

lemma philox4x32_inverses:
  "philox4x32_Minv * philox4x32_M = 1" "philox4x32_M2inv * philox4x32_M2 = 1"
  by (simp_all add: philox4x32_Minv_def philox4x32_M_def philox4x32_M2inv_def philox4x32_M2_def)

lemma philox4x64_10_inv_left: "philox4x64_10_inv x (philox4x64_10 x s) = s"
  by (simp add: philox4x64_10_inv_def philox4x64_10_def philox4_unrounds_rounds philox4x64_inverses)

lemma philox4x64_10_inv_right: "philox4x64_10 x (philox4x64_10_inv x t) = t"
  by (simp add: philox4x64_10_inv_def philox4x64_10_def philox4_rounds_unrounds philox4x64_inverses)

lemma philox4x32_10_inv_left: "philox4x32_10_inv x (philox4x32_10 x s) = s"
  by (simp add: philox4x32_10_inv_def philox4x32_10_def philox4_unrounds_rounds philox4x32_inverses)

lemma philox4x32_10_inv_right: "philox4x32_10 x (philox4x32_10_inv x t) = t"
  by (simp add: philox4x32_10_inv_def philox4x32_10_def philox4_rounds_unrounds philox4x32_inverses)

lemma philox2x64_10_inv_left: "philox2x64_10_inv x (philox2x64_10 x s) = s"
  by (simp add: philox2x64_10_inv_def philox2x64_10_def philox2x64_unrounds_rounds)

lemma philox2x64_10_inv_right: "philox2x64_10 x (philox2x64_10_inv x t) = t"
  by (simp add: philox2x64_10_inv_def philox2x64_10_def philox2x64_rounds_unrounds)

lemma philox2x64_kernel_eq:
  "philox2x64_kernel x src =
     (if x * 2 + 2 \<le> length src
      then Some (put2 (x * 2) (philox2x64_10 x (get2 (x * 2) src)) src) else None)"
  by (simp add: philox2x64_kernel_def philox2x64_10_def philox2x64_loop_put2)

lemma philox4x64_kernel_eq:
  "philox4x64_kernel x src =
     (if x * 4 + 4 \<le> length src
      then Some (put4 (x * 4) (philox4x64_10 x (get4 (x * 4) src)) src) else None)"
  by (simp add: philox4x64_kernel_def philox4x64_10_def philox4_loop_put4)

lemma philox4x32_kernel_eq:
  "philox4x32_kernel x src =
     (if x * 4 + 4 \<le> length src
      then Some (put4 (x * 4) (philox4x32_10 x (get4 (x * 4) src)) src) else None)"
  by (simp add: philox4x32_kernel_def philox4x32_10_def philox4_loop_put4)

subsection \<open>Properties of the generators\<close>

text \<open>
  C1. Philox-2x64-10 as the code computes it is the published generator: on the zero
  counter and thread index 0 (key 0) it yields the known-answer vector of the
  Random123 distribution, \<open>ca00a0459843d731 66c24222c9a845b5\<close>.
\<close>

theorem philox2x64_known_answer:
  "philox2x64_10 0 (0, 0) = (0xCA00A0459843D731, 0x66C24222C9A845B5)"
  unfolding philox2x64_10_def
  by (simp only: count_to_Suc philox2x64_rounds.simps) (simp add: philox_eval)

text \<open>
  C2. For every thread index \<open>x\<close>, the ten rounds of Philox-2x64-10 permute the
  counter space: distinct counters give distinct outputs and every output is reached.
\<close>

theorem philox2x64_bijective: "bij (philox2x64_10 x)"
  by (rule o_bij [of "philox2x64_10_inv x"])
     (simp_all add: fun_eq_iff philox2x64_10_inv_left philox2x64_10_inv_right)

text \<open>
  C3. The ten rounds of Philox-4x64-10 and those of Philox-4x32-10 permute the
  four-lane counter space, for every thread index, although the code takes \<open>hi1\<close>
  from \<open>M\<close> and \<open>lo1\<close> from \<open>M2\<close> (lines 43--44 and 76--77).
\<close>

theorem four_lane_bijective: "bij (philox4x64_10 x) \<and> bij (philox4x32_10 y)"
proof
  show "bij (philox4x64_10 x)"
    by (rule o_bij [of "philox4x64_10_inv x"])
       (simp_all add: fun_eq_iff philox4x64_10_inv_left philox4x64_10_inv_right)
  show "bij (philox4x32_10 y)"
    by (rule o_bij [of "philox4x32_10_inv y"])
       (simp_all add: fun_eq_iff philox4x32_10_inv_left philox4x32_10_inv_right)
qed

text \<open>
  C4. The kernel body of Philox-2x64-10, run statement by statement on the buffer,
  replaces the thread's two elements \<open>src[2x], src[2x+1]\<close> by the ten-round image
  of their old values and changes nothing else; a thread whose slice is not inside the
  buffer reads outside it.
\<close>

theorem philox2x64_kernel_slice:
  "philox2x64_kernel x src =
     (if x * 2 + 2 \<le> length src
      then Some (let (a, b) = philox2x64_10 x (src ! (x * 2), src ! (x * 2 + 1))
                 in src[x * 2 := a, x * 2 + 1 := b])
      else None)"
  by (simp add: philox2x64_kernel_eq put2_def get2_def split: prod.splits)

text \<open>
  C5. The kernel body of Philox-4x32-10 on the buffer replaces the thread's four
  elements \<open>src[4x] .. src[4x+3]\<close> by the ten-round image of their old values, in
  spite of the order of its four assignments, and changes nothing else.
\<close>

theorem philox4x32_kernel_slice:
  "philox4x32_kernel x src =
     (if x * 4 + 4 \<le> length src
      then Some (let (a, b, c, d) = philox4x32_10 x (src ! (x * 4), src ! (x * 4 + 1),
                                                    src ! (x * 4 + 2), src ! (x * 4 + 3))
                 in src[x * 4 := a, x * 4 + 1 := b, x * 4 + 2 := c, x * 4 + 3 := d])
      else None)"
  by (simp add: philox4x32_kernel_eq put4_def get4_def split: prod.splits)

text \<open>
  C6. With the same multipliers and key increments, the code's Philox-4x32-10 and the
  published one (whose zero-input answer is \<open>6627e8d5 e169c58d bc57ac4c 9b00dbd8\<close>)
  disagree on the zero counter with the zero key.
\<close>

theorem philox4x32_not_published:
  "philox4x32_10 0 (0, 0, 0, 0) = (0x54FC51A9, 0xE362A468, 0x755FEB22, 0xFBD43542) \<and>
   philox4_rounds_r123 philox4x32_M philox4x32_M2 philox4x32_W 10 (0, 0) (0, 0, 0, 0) =
     (0x6627E8D5, 0xE169C58D, 0xBC57AC4C, 0x9B00DBD8)"
  unfolding philox4x32_10_def
  by (simp only: count_to_Suc philox4_rounds.simps philox4_rounds_r123.simps)
     (simp add: philox_eval)

text \<open>
  C7. The key schedule: round \<open>i\<close> of Philox-2x64 (from 0) uses the key
  \<open>x + i * 0x9E3779B97F4A7C15\<close>, modulo \<open>2^64\<close>.
\<close>

theorem philox2x64_key_schedule:
  "philox2x64_10 x s =
   fold (\<lambda>i. philox2x64_round (word_of_nat x + of_nat i * philox2x64_W)) [0..<10] s"
  unfolding philox2x64_10_def by (rule philox2x64_rounds_fold)

end
