(* ===== verification/Transforms.thy ===== *)
theory Transforms
  imports Philox
begin

text \<open>
  The output suffixes that \<open>random!($name, $more)\<close> glues after a round core
  (src/src/kernels.rs, lines 104--105, 112--117, 156--158 and 165--171): the unit-interval
  transform \<open>(double)(w>>11)/(1l << 53)\<close>, the reconstruction of a 64-bit word from
  two 32-bit lanes, and the Box--Muller transform, each as the loop the code runs over
  the thread's slice of \<open>dst\<close>.

  Doubles: a 53-bit integer converts to \<open>double\<close> exactly and division by \<open>2^53\<close>
  is exact, so the unit transform is modelled on \<open>real\<close> without loss. \<open>log\<close>,
  \<open>sqrt\<close>, \<open>cos\<close> and \<open>sin\<close> are modelled as the exact real functions (their
  rounding is not modelled); what is kept is whether the result is finite: \<open>log(0)\<close>
  is \<open>-inf\<close> in OpenCL, and every product or root of an infinity is infinite or NaN.
\<close>

datatype f64 = Fin real | NonFinite

definition to_unit :: "u64 \<Rightarrow> real" where
  "to_unit w = real (unat (drop_bit 11 w)) / 2 ^ 53"

definition join32 :: "u32 \<Rightarrow> u32 \<Rightarrow> u64" where
  "join32 hi lo = push_bit 32 (ucast hi) + ucast lo"

definition f64_log :: "real \<Rightarrow> f64" where
  "f64_log u = (if u \<le> 0 then NonFinite else Fin (ln u))"

fun f64_mul :: "f64 \<Rightarrow> f64 \<Rightarrow> f64" where
  "f64_mul (Fin a) (Fin b) = Fin (a * b)"
| "f64_mul _ _ = NonFinite"

fun f64_sqrt :: "f64 \<Rightarrow> f64" where
  "f64_sqrt (Fin a) = (if a < 0 then NonFinite else Fin (sqrt a))"
| "f64_sqrt NonFinite = NonFinite"

text \<open>
  \<open>sqrt(-2*log(u1))*cos(2*M_PI*u2)\<close> and \<open>sqrt(-2*log(u1))*sin(2*M_PI*u2)\<close>.
\<close>

definition box_muller :: "real \<Rightarrow> real \<Rightarrow> f64 \<times> f64" where
  "box_muller u1 u2 =
     (f64_mul (f64_sqrt (f64_mul (Fin (-2)) (f64_log u1))) (Fin (cos (2 * pi * u2))),
      f64_mul (f64_sqrt (f64_mul (Fin (-2)) (f64_log u1))) (Fin (sin (2 * pi * u2))))"

text \<open>
  \<open>for(uint i = 0;i<l;i++) dst[x*l+i] = (double)(src[x*l+i]>>11)/(1l << 53);\<close>
\<close>

function unit64_loop :: "nat \<Rightarrow> nat \<Rightarrow> nat \<Rightarrow> u64 list \<Rightarrow> f64 list \<Rightarrow> f64 list" where
  "unit64_loop l x i src dst =
     (if i < l then unit64_loop l x (Suc i) src (dst[x * l + i := Fin (to_unit (src ! (x * l + i)))])
      else dst)"
  by pat_completeness auto
termination
  by (relation "measure (\<lambda>(l, x, i, src, dst). l - i)") auto

text \<open>
  \<open>for(uint i = 0;i<l;i+=2) { u1 = ..src[x*l+i]..; u2 = ..src[x*l+i+1]..;
   dst[x*l+i] = ..cos..; dst[x*l+i+1] = ..sin..; }\<close>
\<close>

function normal64_loop :: "nat \<Rightarrow> nat \<Rightarrow> nat \<Rightarrow> u64 list \<Rightarrow> f64 list \<Rightarrow> f64 list" where
  "normal64_loop l x i src dst =
     (if i < l then
        (let u1 = to_unit (src ! (x * l + i));
             u2 = to_unit (src ! (x * l + i + 1));
             z = box_muller u1 u2
         in normal64_loop l x (i + 2) src (dst[x * l + i := fst z, x * l + i + 1 := snd z]))
      else dst)"
  by pat_completeness auto
termination
  by (relation "measure (\<lambda>(l, x, i, src, dst). l - i)") auto

text \<open>
  \<open>const uint l2 = l/2; for(uint i = 0;i<l2;i++)
   dst[x*l2+i] = (double)(((((ulong)src[x*l+i*2])<<32)+src[x*l+i*2+1])>>11)/(1l << 53);\<close>
\<close>

function unit4x32_loop :: "nat \<Rightarrow> nat \<Rightarrow> nat \<Rightarrow> u32 list \<Rightarrow> f64 list \<Rightarrow> f64 list" where
  "unit4x32_loop l x i src dst =
     (let l2 = l div 2 in
      if i < l2 then
        unit4x32_loop l x (Suc i) src
          (dst[x * l2 + i := Fin (to_unit (join32 (src ! (x * l + i * 2)) (src ! (x * l + i * 2 + 1))))])
      else dst)"
  by pat_completeness auto
termination
  by (relation "measure (\<lambda>(l, x, i, src, dst). l div 2 - i)") auto

text \<open>
  \<open>const uint l2 = l/2; for(uint i = 0;i<l2;i+=2) { u1 from src[x*l+i], src[x*l+i+1];
   u2 from src[x*l+i+2], src[x*l+i+3]; dst[x*l2+i] = ..cos..; dst[x*l2+i+1] = ..sin..; }\<close>
\<close>

function normal4x32_loop :: "nat \<Rightarrow> nat \<Rightarrow> nat \<Rightarrow> u32 list \<Rightarrow> f64 list \<Rightarrow> f64 list" where
  "normal4x32_loop l x i src dst =
     (let l2 = l div 2 in
      if i < l2 then
        (let u1 = to_unit (join32 (src ! (x * l + i)) (src ! (x * l + i + 1)));
             u2 = to_unit (join32 (src ! (x * l + i + 2)) (src ! (x * l + i + 3)));
             z = box_muller u1 u2
         in normal4x32_loop l x (i + 2) src (dst[x * l2 + i := fst z, x * l2 + i + 1 := snd z]))
      else dst)"
  by pat_completeness auto
termination
  by (relation "measure (\<lambda>(l, x, i, src, dst). l div 2 - i)") auto

text \<open>
  The six kernels with a suffix, for thread \<open>x\<close>: the round core on \<open>src\<close>, then the
  suffix from the updated \<open>src\<close> into \<open>dst\<close>. \<open>None\<close> is an access outside one of
  the two buffers.
\<close>

definition philox2x64_unit_kernel :: "nat \<Rightarrow> u64 list \<times> f64 list \<Rightarrow> (u64 list \<times> f64 list) option" where
  "philox2x64_unit_kernel x bufs =
     (let (src, dst) = bufs; l = 2 in
      if x * l + l \<le> length src \<and> x * l + l \<le> length dst then
        (let src = philox2x64_loop 10 x (word_of_nat x) src in Some (src, unit64_loop l x 0 src dst))
      else None)"

definition philox2x64_normal_kernel :: "nat \<Rightarrow> u64 list \<times> f64 list \<Rightarrow> (u64 list \<times> f64 list) option" where
  "philox2x64_normal_kernel x bufs =
     (let (src, dst) = bufs; l = 2 in
      if x * l + l \<le> length src \<and> x * l + l \<le> length dst then
        (let src = philox2x64_loop 10 x (word_of_nat x) src in Some (src, normal64_loop l x 0 src dst))
      else None)"

definition philox4x64_unit_kernel :: "nat \<Rightarrow> u64 list \<times> f64 list \<Rightarrow> (u64 list \<times> f64 list) option" where
  "philox4x64_unit_kernel x bufs =
     (let (src, dst) = bufs; l = 4 in
      if x * l + l \<le> length src \<and> x * l + l \<le> length dst then
        (let src = philox4_loop philox4x64_M philox4x64_M2 philox4x64_W 10 x (0, word_of_nat x) src
         in Some (src, unit64_loop l x 0 src dst))
      else None)"

definition philox4x64_normal_kernel :: "nat \<Rightarrow> u64 list \<times> f64 list \<Rightarrow> (u64 list \<times> f64 list) option" where
  "philox4x64_normal_kernel x bufs =
     (let (src, dst) = bufs; l = 4 in
      if x * l + l \<le> length src \<and> x * l + l \<le> length dst then
        (let src = philox4_loop philox4x64_M philox4x64_M2 philox4x64_W 10 x (0, word_of_nat x) src
         in Some (src, normal64_loop l x 0 src dst))
      else None)"

definition philox4x32_unit_kernel :: "nat \<Rightarrow> u32 list \<times> f64 list \<Rightarrow> (u32 list \<times> f64 list) option" where
  "philox4x32_unit_kernel x bufs =
     (let (src, dst) = bufs; l = 4; l2 = l div 2 in
      if x * l + l \<le> length src \<and> x * l2 + l2 \<le> length dst then
        (let src = philox4_loop philox4x32_M philox4x32_M2 philox4x32_W 10 x (philox4x32_key x) src
         in Some (src, unit4x32_loop l x 0 src dst))
      else None)"

definition philox4x32_normal_kernel :: "nat \<Rightarrow> u32 list \<times> f64 list \<Rightarrow> (u32 list \<times> f64 list) option" where
  "philox4x32_normal_kernel x bufs =
     (let (src, dst) = bufs; l = 4; l2 = l div 2 in
      if x * l + l \<le> length src \<and> x * l2 + l2 \<le> length dst then
        (let src = philox4_loop philox4x32_M philox4x32_M2 philox4x32_W 10 x (philox4x32_key x) src
         in Some (src, normal4x32_loop l x 0 src dst))
      else None)"

declare unit64_loop.simps [simp del] normal64_loop.simps [simp del]
  unit4x32_loop.simps [simp del] normal4x32_loop.simps [simp del]

section \<open>Lemmas\<close>

lemma unat_join32: "unat (join32 hi lo) = unat hi * 2 ^ 32 + unat lo"
proof -
  have bh: "unat hi < 2 ^ 32" and bl: "unat lo < 2 ^ 32"
    using unsigned_less [of hi, where ?'a = nat] unsigned_less [of lo, where ?'a = nat] by simp_all
  have hi: "unat (push_bit 32 (ucast hi :: u64)) = unat hi * 2 ^ 32"
  proof -
    have "unat hi * 2 ^ 32 < (2::nat) ^ 64"
      using bh by simp
    then show ?thesis
      by (simp add: unat_push_bit_mult unat_ucast_u32_u64)
  qed
  have "unat hi * 2 ^ 32 + unat lo < (2::nat) ^ 64"
    using bh bl by simp
  then show ?thesis
    by (simp add: join32_def unat_word_ariths hi unat_ucast_u32_u64)
qed

lemma unat_drop_bit_11: "unat (drop_bit 11 (w :: u64)) < 2 ^ 53"
proof -
  have "unat w < 2 ^ 64" using unsigned_less [of w, where ?'a = nat] by simp
  then have "unat w div 2 ^ 11 < 2 ^ 53" by (simp add: less_mult_imp_div_less)
  then show ?thesis by (simp add: unat_drop_bit_div)
qed

lemma to_unit_bounds: "0 \<le> to_unit w \<and> to_unit w < 1"
proof -
  have "real (unat (drop_bit 11 w)) < 2 ^ 53"
    by (simp only: of_nat_less_numeral_power_cancel_iff) (rule unat_drop_bit_11)
  moreover have "0 \<le> real (unat (drop_bit 11 w))" by (simp del: of_nat_unat)
  ultimately show ?thesis unfolding to_unit_def by (simp del: of_nat_unat)
qed

lemma to_unit_zero_iff: "to_unit w = 0 \<longleftrightarrow> unat w < 2 ^ 11"
  unfolding to_unit_def by (simp add: unat_drop_bit_div div_eq_0_iff del: of_nat_unat)

lemma box_muller_zero: "box_muller 0 u2 = (NonFinite, NonFinite)"
  by (simp add: box_muller_def f64_log_def)

lemma philox2x64_normal_kernel_eq:
  "philox2x64_normal_kernel x (src, dst) =
     (if x * 2 + 2 \<le> length src \<and> x * 2 + 2 \<le> length dst then
        Some (let t = philox2x64_10 x (get2 (x * 2) src);
                  z = box_muller (to_unit (fst t)) (to_unit (snd t))
              in (put2 (x * 2) t src, dst[x * 2 := fst z, x * 2 + 1 := snd z]))
      else None)"
  by (simp add: philox2x64_normal_kernel_def philox2x64_10_def philox2x64_loop_put2 Let_def
                normal64_loop.simps put2_def nth_list_update split: prod.splits)

subsection \<open>Properties of the output transforms\<close>

text \<open>
  C8. The unit-interval transform maps every 64-bit word into \<open>[0, 1)\<close>, and the
  zero word to \<open>0\<close>.
\<close>

theorem unit_interval:
  "0 \<le> to_unit w \<and> to_unit w < 1 \<and> to_unit 0 = 0"
  using to_unit_bounds [of w] by (simp add: to_unit_def)

text \<open>
  C9. The 64-bit value \<open>(((ulong)hi)<<32)+lo\<close> that the 4x32 suffixes build from two
  adjacent 32-bit lanes keeps both lanes: its high half is \<open>hi\<close> and its low half is
  \<open>lo\<close> (no carry from the addition reaches the high half).
\<close>

theorem join32_split: "ucast (drop_bit 32 (join32 hi lo)) = hi \<and> ucast (join32 hi lo) = lo"
proof
  have bl: "unat lo < 4294967296" using unsigned_less [of lo, where ?'a = nat] by simp
  show "ucast (drop_bit 32 (join32 hi lo)) = hi"
    by (rule word_unat_eq_iff [THEN iffD2])
       (simp add: unsigned_ucast_eq unat_drop_bit_div unat_join32 take_bit_eq_mod div_less [OF bl]
                  unsigned_less [of hi, where ?'a = nat, simplified])
  show "ucast (join32 hi lo) = lo"
    by (rule word_unat_eq_iff [THEN iffD2])
       (simp add: unsigned_ucast_eq unat_join32 bl take_bit_eq_mod)
qed

text \<open>
  C10. For \<open>u1\<close> in \<open>(0, 1]\<close> the Box--Muller suffix yields two finite values
  whose squares sum to \<open>-2 ln u1\<close>, the squared radius of the transform.
\<close>

theorem box_muller_finite:
  assumes "0 < u1" "u1 \<le> 1"
  shows "\<exists>z1 z2. box_muller u1 u2 = (Fin z1, Fin z2) \<and> z1\<^sup>2 + z2\<^sup>2 = -2 * ln u1"
proof -
  have "ln u1 \<le> 0" using assms by simp
  then have nn: "0 \<le> -2 * ln u1" by simp
  define r where "r = sqrt (-2 * ln u1)"
  define t where "t = 2 * pi * u2"
  have bm: "box_muller u1 u2 = (Fin (r * cos t), Fin (r * sin t))"
    using assms nn by (simp add: box_muller_def f64_log_def not_less r_def t_def)
  have "(r * cos t)\<^sup>2 + (r * sin t)\<^sup>2 = r\<^sup>2 * ((cos t)\<^sup>2 + (sin t)\<^sup>2)"
    by (simp only: power_mult_distrib distrib_left)
  also have "\<dots> = r\<^sup>2" by simp
  also have "\<dots> = -2 * ln u1" using nn by (simp add: r_def)
  finally show ?thesis using bm by blast
qed

text \<open>
  C11. The Philox-4x32 unit kernel, for thread \<open>x\<close>, permutes its four 32-bit lanes
  and writes exactly the two doubles \<open>dst[2x], dst[2x+1]\<close> (\<open>l2 = l/2\<close>), each
  the unit transform of a pair of adjacent lanes; out-of-range buffers are an error.
\<close>

theorem philox4x32_unit_kernel_eq:
  "philox4x32_unit_kernel x (src, dst) =
     (if x * 4 + 4 \<le> length src \<and> x * 2 + 2 \<le> length dst then
        Some (let t = philox4x32_10 x (get4 (x * 4) src)
              in (put4 (x * 4) t src,
                  case t of (a, b, c, d) \<Rightarrow>
                    dst[x * 2 := Fin (to_unit (join32 a b)), x * 2 + 1 := Fin (to_unit (join32 c d))]))
      else None)"
  by (simp add: philox4x32_unit_kernel_def philox4x32_10_def philox4_loop_put4 Let_def
                unit4x32_loop.simps put4_def nth_list_update split: prod.splits)

text \<open>
  C12. \<open>u1 = 0\<close> is not excluded: for every thread \<open>x\<close> there is a counter state in
  \<open>src\<close> from which the Philox-2x64 normal kernel writes two non-finite values
  (\<open>log(0)\<close> is \<open>-inf\<close>), since the rounds are a bijection and reach the zero word.
\<close>

theorem philox2x64_normal_nonfinite:
  assumes "x * 2 + 2 \<le> length dst"
  shows "\<exists>src r. philox2x64_normal_kernel x (src, dst) = Some r \<and>
                   snd r ! (x * 2) = NonFinite \<and> snd r ! (x * 2 + 1) = NonFinite"
proof -
  define src where "src = replicate (x * 2) 0 @ [fst (philox2x64_10_inv x (0, 0)), snd (philox2x64_10_inv x (0, 0))]"
  have len: "length src = x * 2 + 2" by (simp add: src_def)
  have get: "get2 (x * 2) src = philox2x64_10_inv x (0, 0)"
    by (simp add: src_def get2_def nth_append)
  have "philox2x64_normal_kernel x (src, dst) =
          Some (put2 (x * 2) (0, 0) src, dst[x * 2 := NonFinite, x * 2 + 1 := NonFinite])"
    using assms len by (simp add: philox2x64_normal_kernel_eq get philox2x64_10_inv_right Let_def
                                  to_unit_def box_muller_zero)
  moreover have "dst[x * 2 := NonFinite, x * 2 + 1 := NonFinite] ! (x * 2) = NonFinite"
    and "dst[x * 2 := NonFinite, x * 2 + 1 := NonFinite] ! (x * 2 + 1) = NonFinite"
    using assms by (simp_all add: nth_list_update)
  ultimately show ?thesis by fastforce
qed

theorem box_muller_finite_witness:
  "0 < (1 / 2 :: real) \<and> (1 / 2 :: real) \<le> 1 \<and>
   (\<exists>z1 z2. box_muller (1 / 2) 0 = (Fin z1, Fin z2) \<and> z1\<^sup>2 + z2\<^sup>2 = -2 * ln (1 / 2))"
  using box_muller_finite [of "1 / 2" 0] by simp

theorem philox2x64_normal_nonfinite_witness:
  "0 * 2 + 2 \<le> length [Fin 0, Fin 0] \<and>
   (\<exists>src r. philox2x64_normal_kernel 0 (src, [Fin 0, Fin 0]) = Some r \<and>
            snd r ! (0 * 2) = NonFinite \<and> snd r ! (0 * 2 + 1) = NonFinite)"
  using philox2x64_normal_nonfinite [of 0 "[Fin 0, Fin 0]"] by simp

end
