(* ===== verification/Dispatch.thy ===== *)
theory Dispatch
  imports Transforms "HOL-Library.Multiset"
begin

text \<open>
  The dispatch of a kernel over a one-dimensional range of thread indices, as the
  handler's \<open>run(name, Dim::D1(n))\<close> does it (the handler is not among the sources; its
  contract is modelled from the specification). A launch runs the thread bodies one
  after the other in the order of a schedule, a list of thread indices; a thread that
  reads or writes outside a buffer makes the launch \<open>None\<close>. The device runs the
  threads in an order it chooses: the theorems below show that, for the generators, every
  schedule that is a permutation of \<open>[0..<n]\<close> gives the same buffers, because two
  different threads touch disjoint slices and their bodies commute.
\<close>

fun launch :: "('i \<Rightarrow> 'b \<Rightarrow> 'b option) \<Rightarrow> 'i list \<Rightarrow> 'b \<Rightarrow> 'b option" where
  "launch k [] b = Some b"
| "launch k (x # xs) b = Option.bind (k x b) (launch k xs)"

definition dispatch_D1 :: "(nat \<Rightarrow> 'b \<Rightarrow> 'b option) \<Rightarrow> nat \<Rightarrow> 'b \<Rightarrow> 'b option" where
  "dispatch_D1 k n b = launch k [0..<n] b"

section \<open>Lemmas\<close>

subsection \<open>Schedules\<close>

lemma launch_Cons_fun: "launch k (x # xs) = (\<lambda>b. Option.bind (k x b) (launch k xs))"
  by (rule ext) simp

lemma launch_single [simp]: "launch k [x] b = k x b"
  by (cases "k x b") simp_all

lemma launch_append: "launch k (xs @ ys) = (\<lambda>b. Option.bind (launch k xs b) (launch k ys))"
  by (induction xs) (simp_all add: launch_Cons_fun bind_assoc)

lemma launch_swap:
  assumes "\<And>b. Option.bind (k x b) (k y) = Option.bind (k y b) (k x)"
  shows "launch k (x # y # zs) b = launch k (y # x # zs) b"
proof -
  have "launch k (x # y # zs) b = Option.bind (Option.bind (k x b) (k y)) (launch k zs)"
    by (simp add: launch_Cons_fun bind_assoc)
  also have "\<dots> = Option.bind (Option.bind (k y b) (k x)) (launch k zs)"
    by (simp add: assms)
  also have "\<dots> = launch k (y # x # zs) b"
    by (simp add: launch_Cons_fun bind_assoc)
  finally show ?thesis .
qed

lemma launch_move_front:
  assumes "\<And>z b. z \<in> set ys1 \<Longrightarrow> Option.bind (k z b) (k x) = Option.bind (k x b) (k z)"
  shows "launch k (ys1 @ x # ys2) b = launch k (x # ys1 @ ys2) b"
  using assms
proof (induction ys1 arbitrary: b)
  case Nil
  then show ?case by simp
next
  case (Cons z ys1)
  have "launch k ((z # ys1) @ x # ys2) b = Option.bind (k z b) (\<lambda>b'. launch k (ys1 @ x # ys2) b')"
    by (simp add: launch_Cons_fun)
  also have "\<dots> = Option.bind (k z b) (\<lambda>b'. launch k (x # ys1 @ ys2) b')"
    using Cons.IH Cons.prems by simp
  also have "\<dots> = launch k (z # x # ys1 @ ys2) b"
    by (simp add: launch_Cons_fun)
  also have "\<dots> = launch k (x # z # ys1 @ ys2) b"
    by (rule launch_swap) (simp add: Cons.prems)
  finally show ?case by simp
qed

text \<open>
  Threads of a set \<open>A\<close> whose bodies commute pairwise can be run in any order: two
  schedules that are permutations of each other give the same result.
\<close>

lemma launch_perm_on:
  assumes comm: "\<And>x y b. x \<in> A \<Longrightarrow> y \<in> A \<Longrightarrow> x \<noteq> y \<Longrightarrow>
                   Option.bind (k x b) (k y) = Option.bind (k y b) (k x)"
  shows "mset xs = mset ys \<Longrightarrow> set xs \<subseteq> A \<Longrightarrow> launch k xs b = launch k ys b"
proof (induction xs arbitrary: ys b)
  case Nil
  then show ?case by simp
next
  case (Cons x xs)
  have "x \<in> set (x # xs)" by simp
  also have "set (x # xs) = set ys"
    using Cons.prems(1) by (rule mset_eq_setD)
  finally have "x \<in> set ys" .
  then obtain ys1 ys2 where ys: "ys = ys1 @ x # ys2" and x: "x \<notin> set ys1"
    using split_list_first by metis
  have A: "set ys \<subseteq> A"
    using Cons.prems mset_eq_setD by metis
  have sw: "Option.bind (k z c) (k x) = Option.bind (k x c) (k z)" if "z \<in> set ys1" for z c
  proof (rule comm)
    show "z \<in> A" "x \<in> A" using that A by (auto simp: ys)
    show "z \<noteq> x" using that x by auto
  qed
  have "launch k ys b = launch k (x # ys1 @ ys2) b"
    unfolding ys by (rule launch_move_front) (rule sw)
  moreover have "launch k xs = launch k (ys1 @ ys2)"
  proof (rule ext, rule Cons.IH)
    show "mset xs = mset (ys1 @ ys2)" using Cons.prems(1) by (simp add: ys)
    show "set xs \<subseteq> A" using Cons.prems(2) by simp
  qed
  ultimately show ?case by (simp add: launch_Cons_fun)
qed

lemma launch_perm:
  assumes comm: "\<And>x y b. x \<noteq> y \<Longrightarrow> Option.bind (k x b) (k y) = Option.bind (k y b) (k x)"
  shows "mset xs = mset ys \<Longrightarrow> launch k xs b = launch k ys b"
  using launch_perm_on [of UNIV k xs ys b] comm by blast

lemma launch_slice:
  assumes ok: "\<And>x y b c. k y b = Some c \<Longrightarrow> (k x c = None) = (k x b = None)"
  shows "launch k xs b =
           (if \<forall>x\<in>set xs. k x b \<noteq> None then Some (fold (\<lambda>x b. the (k x b)) xs b) else None)"
proof (induction xs arbitrary: b)
  case Nil
  then show ?case by simp
next
  case (Cons x xs)
  show ?case
  proof (cases "k x b")
    case None
    then show ?thesis by simp
  next
    case (Some c)
    then show ?thesis using ok [OF Some] by (simp add: Cons.IH)
  qed
qed

subsection \<open>The generator kernels as slice updates\<close>

lemma philox2x64_normal_kernel_put2:
  "philox2x64_normal_kernel x (src, dst) =
     (if x * 2 + 2 \<le> length src \<and> x * 2 + 2 \<le> length dst then
        Some (let t = philox2x64_10 x (get2 (x * 2) src)
              in (put2 (x * 2) t src, put2 (x * 2) (box_muller (to_unit (fst t)) (to_unit (snd t))) dst))
      else None)"
  by (simp add: philox2x64_normal_kernel_eq put2_def Let_def)

lemma philox4x64_normal_kernel_put4:
  "philox4x64_normal_kernel x (src, dst) =
     (if x * 4 + 4 \<le> length src \<and> x * 4 + 4 \<le> length dst then
        Some (let t = philox4x64_10 x (get4 (x * 4) src)
              in (put4 (x * 4) t src,
                  case t of (a, b, c, d) \<Rightarrow>
                    put4 (x * 4) (fst (box_muller (to_unit a) (to_unit b)), snd (box_muller (to_unit a) (to_unit b)),
                                  fst (box_muller (to_unit c) (to_unit d)), snd (box_muller (to_unit c) (to_unit d))) dst))
      else None)"
  by (simp add: philox4x64_normal_kernel_def philox4x64_10_def philox4_loop_put4 Let_def
                normal64_loop.simps put4_def nth_list_update numeral_3_eq_3 split: prod.splits)

lemma philox4x32_normal_kernel_put:
  "philox4x32_normal_kernel x (src, dst) =
     (if x * 4 + 4 \<le> length src \<and> x * 2 + 2 \<le> length dst then
        Some (let t = philox4x32_10 x (get4 (x * 4) src)
              in (put4 (x * 4) t src,
                  case t of (a, b, c, d) \<Rightarrow>
                    put2 (x * 2) (box_muller (to_unit (join32 a b)) (to_unit (join32 c d))) dst))
      else None)"
  by (simp add: philox4x32_normal_kernel_def philox4x32_10_def philox4_loop_put4 Let_def
                normal4x32_loop.simps put4_def put2_def nth_list_update split: prod.splits)

lemma philox2x64_normal_comm:
  assumes "x \<noteq> y"
  shows "Option.bind (philox2x64_normal_kernel x b) (philox2x64_normal_kernel y) =
         Option.bind (philox2x64_normal_kernel y b) (philox2x64_normal_kernel x)"
proof -
  have d: "x * 2 + 1 < y * 2 \<or> y * 2 + 1 < x * 2" using assms by (rule stride2_disj)
  then have d': "y * 2 + 1 < x * 2 \<or> x * 2 + 1 < y * 2" by arith
  obtain src dst where b: "b = (src, dst)" by (cases b)
  show ?thesis using d d'
    by (simp add: b philox2x64_normal_kernel_put2 Let_def get2_put2_disj put2_swap_disj)
qed

lemma philox4x64_normal_comm:
  assumes "x \<noteq> y"
  shows "Option.bind (philox4x64_normal_kernel x b) (philox4x64_normal_kernel y) =
         Option.bind (philox4x64_normal_kernel y b) (philox4x64_normal_kernel x)"
proof -
  have d: "x * 4 + 3 < y * 4 \<or> y * 4 + 3 < x * 4" using assms by (rule stride4_disj)
  then have d': "y * 4 + 3 < x * 4 \<or> x * 4 + 3 < y * 4" by arith
  obtain src dst where b: "b = (src, dst)" by (cases b)
  show ?thesis using d d'
    by (simp add: b philox4x64_normal_kernel_put4 Let_def get4_put4_disj put4_swap_disj split: prod.splits)
qed

lemma philox4x32_normal_comm:
  assumes "x \<noteq> y"
  shows "Option.bind (philox4x32_normal_kernel x b) (philox4x32_normal_kernel y) =
         Option.bind (philox4x32_normal_kernel y b) (philox4x32_normal_kernel x)"
proof -
  have d: "x * 4 + 3 < y * 4 \<or> y * 4 + 3 < x * 4" using assms by (rule stride4_disj)
  then have d': "y * 4 + 3 < x * 4 \<or> x * 4 + 3 < y * 4" by arith
  have e: "x * 2 + 1 < y * 2 \<or> y * 2 + 1 < x * 2" using assms by (rule stride2_disj)
  then have e': "y * 2 + 1 < x * 2 \<or> x * 2 + 1 < y * 2" by arith
  obtain src dst where b: "b = (src, dst)" by (cases b)
  show ?thesis using d d' e e'
    by (simp add: b philox4x32_normal_kernel_put Let_def get4_put4_disj put4_swap_disj put2_swap_disj
             split: prod.splits)
qed

lemma philox2x64_normal_fold:
  assumes "n * 2 \<le> length src" "n * 2 \<le> length dst"
    and "fold (\<lambda>x b. the (philox2x64_normal_kernel x b)) [0..<n] (src, dst) = (src', dst')"
  shows "length src' = length src \<and> length dst' = length dst \<and>
         (\<forall>x<n. get2 (x * 2) src' = philox2x64_10 x (get2 (x * 2) src) \<and>
                get2 (x * 2) dst' = (let t = philox2x64_10 x (get2 (x * 2) src)
                                     in box_muller (to_unit (fst t)) (to_unit (snd t)))) \<and>
         (\<forall>i. n * 2 \<le> i \<longrightarrow> src' ! i = src ! i \<and> dst' ! i = dst ! i)"
  using assms
proof (induction n arbitrary: src' dst')
  case 0
  then show ?case by simp
next
  case (Suc n)
  obtain s1 d1 where f: "fold (\<lambda>x b. the (philox2x64_normal_kernel x b)) [0..<n] (src, dst) = (s1, d1)"
    by (cases "fold (\<lambda>x b. the (philox2x64_normal_kernel x b)) [0..<n] (src, dst)")
  have IH: "length s1 = length src \<and> length d1 = length dst \<and>
         (\<forall>x<n. get2 (x * 2) s1 = philox2x64_10 x (get2 (x * 2) src) \<and>
                get2 (x * 2) d1 = (let t = philox2x64_10 x (get2 (x * 2) src)
                                     in box_muller (to_unit (fst t)) (to_unit (snd t)))) \<and>
         (\<forall>i. n * 2 \<le> i \<longrightarrow> s1 ! i = src ! i \<and> d1 ! i = dst ! i)"
    using Suc.prems f by (intro Suc.IH) simp_all
  have g: "get2 (n * 2) s1 = get2 (n * 2) src"
    using IH by (intro get2_eq_nth) simp
  define t where "t = philox2x64_10 n (get2 (n * 2) src)"
  have step: "src' = put2 (n * 2) t s1 \<and>
              dst' = put2 (n * 2) (box_muller (to_unit (fst t)) (to_unit (snd t))) d1"
    using Suc.prems(1,2,3) IH by (simp add: f philox2x64_normal_kernel_put2 g t_def Let_def)
  have old: "get2 (x * 2) (put2 (n * 2) v ys) = get2 (x * 2) ys" if "x < n" for x and v :: "'a \<times> 'a" and ys
    using that by (intro get2_put2_disj) arith
  have new: "Suc (n * 2) < length s1" "Suc (n * 2) < length d1"
    using Suc.prems IH by simp_all
  show ?case
  proof (intro conjI allI impI)
    show "length src' = length src" "length dst' = length dst" using step IH by simp_all
  next
    fix x assume x: "x < Suc n"
    have "get2 (x * 2) src' = philox2x64_10 x (get2 (x * 2) src) \<and>
          get2 (x * 2) dst' = (let t = philox2x64_10 x (get2 (x * 2) src)
                                in box_muller (to_unit (fst t)) (to_unit (snd t)))"
    proof (cases "x < n")
      case True
      then show ?thesis using IH by (simp only: step old)
    next
      case False
      then have "x = n" using x by arith
      then show ?thesis using new by (simp add: step t_def Let_def)
    qed
    then show "get2 (x * 2) src' = philox2x64_10 x (get2 (x * 2) src)"
      and "get2 (x * 2) dst' = (let t = philox2x64_10 x (get2 (x * 2) src)
                                in box_muller (to_unit (fst t)) (to_unit (snd t)))"
      by simp_all
  next
    fix i assume "Suc n * 2 \<le> i"
    then show "src' ! i = src ! i" "dst' ! i = dst ! i"
      using IH by (simp_all add: step nth_put2_other)
  qed
qed

lemma philox2x64_normal_ok:
  "philox2x64_normal_kernel y b = Some c \<Longrightarrow>
   (philox2x64_normal_kernel x c = None) = (philox2x64_normal_kernel x b = None)"
  by (cases b; cases c) (auto simp: philox2x64_normal_kernel_put2 Let_def split: if_splits)

lemma philox2x64_normal_launch:
  assumes "n * 2 \<le> length src" "n * 2 \<le> length dst"
  shows "\<exists>src' dst'. dispatch_D1 philox2x64_normal_kernel n (src, dst) = Some (src', dst') \<and>
           length src' = length src \<and> length dst' = length dst \<and>
           (\<forall>x<n. get2 (x * 2) src' = philox2x64_10 x (get2 (x * 2) src) \<and>
                  get2 (x * 2) dst' = (let t = philox2x64_10 x (get2 (x * 2) src)
                                       in box_muller (to_unit (fst t)) (to_unit (snd t)))) \<and>
           (\<forall>i. n * 2 \<le> i \<longrightarrow> src' ! i = src ! i \<and> dst' ! i = dst ! i)"
proof -
  obtain src' dst' where f: "fold (\<lambda>x b. the (philox2x64_normal_kernel x b)) [0..<n] (src, dst) = (src', dst')"
    by (cases "fold (\<lambda>x b. the (philox2x64_normal_kernel x b)) [0..<n] (src, dst)")
  have "\<forall>x\<in>set [0..<n]. philox2x64_normal_kernel x (src, dst) \<noteq> None"
    using assms by (auto simp: philox2x64_normal_kernel_put2)
  then have "dispatch_D1 philox2x64_normal_kernel n (src, dst) = Some (src', dst')"
    unfolding dispatch_D1_def by (simp add: launch_slice [OF philox2x64_normal_ok] f)
  then show ?thesis using philox2x64_normal_fold [OF assms f] by blast
qed

text \<open>
  One thread's slices after a sequential run of distinct threads: threads other than
  \<open>x\<close> leave \<open>x\<close>'s input and output slices alone, so \<open>x\<close>'s output is its body's
  image of its input in the initial state.
\<close>

lemma fold_frame:
  assumes inv: "\<And>y b. A y \<Longrightarrow> I b \<Longrightarrow> I (g y b)"
    and frame: "\<And>y b. A y \<Longrightarrow> y \<noteq> x \<Longrightarrow> I b \<Longrightarrow> P (g y b) = P b"
  shows "\<forall>y\<in>set xs. A y \<Longrightarrow> x \<notin> set xs \<Longrightarrow> I b \<Longrightarrow> P (fold g xs b) = P b \<and> I (fold g xs b)"
proof (induction xs arbitrary: b)
  case (Cons y ys)
  have "y \<noteq> x" using Cons.prems(2) by auto
  then show ?case using Cons inv [of y b] frame [of y b] by simp
qed simp

lemma fold_inv: "(\<And>y b. A y \<Longrightarrow> I b \<Longrightarrow> I (g y b)) \<Longrightarrow> \<forall>y\<in>set xs. A y \<Longrightarrow> I b \<Longrightarrow> I (fold g xs b)"
  by (induction xs arbitrary: b) simp_all

lemma fold_slice_own:
  assumes inv: "\<And>y b. A y \<Longrightarrow> I b \<Longrightarrow> I (g y b)"
    and frame: "\<And>y b. A y \<Longrightarrow> y \<noteq> x \<Longrightarrow> I b \<Longrightarrow> In (g y b) = In b \<and> Out (g y b) = Out b"
    and own: "\<And>b. I b \<Longrightarrow> Out (g x b) = H (In b)"
  shows "distinct xs \<Longrightarrow> \<forall>y\<in>set xs. A y \<Longrightarrow> x \<in> set xs \<Longrightarrow> I b \<Longrightarrow> Out (fold g xs b) = H (In b)"
proof (induction xs arbitrary: b)
  case (Cons y ys)
  show ?case
  proof (cases "y = x")
    case True
    have "Out (fold g ys (g x b)) = Out (g x b)"
      using fold_frame [of A I g x Out ys "g x b"] inv frame Cons.prems True by auto
    then show ?thesis using own Cons.prems(4) True by simp
  next
    case False
    then show ?thesis using Cons.IH [of "g y b"] Cons.prems inv [of y b] frame [of y b] by simp
  qed
qed simp

lemma dispatch_D1_slices:
  assumes ok: "\<And>x y b c. k y b = Some c \<Longrightarrow> (k x c = None) = (k x b = None)"
    and fits: "\<And>x. x < n \<Longrightarrow> k x b \<noteq> None"
  shows "\<exists>b'. dispatch_D1 k n b = Some b' \<and> b' = fold (\<lambda>x b. the (k x b)) [0..<n] b"
  using fits unfolding dispatch_D1_def by (simp add: launch_slice [OF ok])

text \<open>The two four-lane normal generators over \<open>n\<close> threads, slice by slice.\<close>

definition normal4 :: "u64 lanes4 \<Rightarrow> f64 lanes4" where
  "normal4 t = (case t of (a, b, c, d) \<Rightarrow>
     (fst (box_muller (to_unit a) (to_unit b)), snd (box_muller (to_unit a) (to_unit b)),
      fst (box_muller (to_unit c) (to_unit d)), snd (box_muller (to_unit c) (to_unit d))))"

definition normal4x32 :: "u32 lanes4 \<Rightarrow> f64 \<times> f64" where
  "normal4x32 t = (case t of (a, b, c, d) \<Rightarrow> box_muller (to_unit (join32 a b)) (to_unit (join32 c d)))"

lemma philox4x64_normal_ok:
  "philox4x64_normal_kernel y b = Some c \<Longrightarrow>
   (philox4x64_normal_kernel x c = None) = (philox4x64_normal_kernel x b = None)"
  by (cases b; cases c) (auto simp: philox4x64_normal_kernel_put4 Let_def split: if_splits prod.splits)

lemma philox4x32_normal_ok:
  "philox4x32_normal_kernel y b = Some c \<Longrightarrow>
   (philox4x32_normal_kernel x c = None) = (philox4x32_normal_kernel x b = None)"
  by (cases b; cases c) (auto simp: philox4x32_normal_kernel_put Let_def split: if_splits prod.splits)

lemma philox4x64_normal_launch:
  assumes "n * 4 \<le> length src" "n * 4 \<le> length dst"
  shows "\<exists>src' dst'. dispatch_D1 philox4x64_normal_kernel n (src, dst) = Some (src', dst') \<and>
           length src' = length src \<and> length dst' = length dst \<and>
           (\<forall>x<n. get4 (x * 4) src' = philox4x64_10 x (get4 (x * 4) src) \<and>
                  get4 (x * 4) dst' = normal4 (philox4x64_10 x (get4 (x * 4) src)))"
proof -
  let ?g = "\<lambda>x b. the (philox4x64_normal_kernel x b)"
  let ?I = "\<lambda>b. length (fst b) = length src \<and> length (snd b) = length dst"
  have fits: "philox4x64_normal_kernel x (src, dst) \<noteq> None" if "x < n" for x
    using that assms by (simp add: philox4x64_normal_kernel_put4)
  have step: "?g y b = (let t = philox4x64_10 y (get4 (y * 4) (fst b))
                        in (put4 (y * 4) t (fst b), put4 (y * 4) (normal4 t) (snd b)))"
    if "y < n" "?I b" for y b
    using that assms by (cases b) (simp add: philox4x64_normal_kernel_put4 normal4_def Let_def split: prod.splits)
  have own: "get4 (x * 4) (fst (fold ?g [0..<n] (src, dst))) = philox4x64_10 x (get4 (x * 4) src) \<and>
             get4 (x * 4) (snd (fold ?g [0..<n] (src, dst))) = normal4 (philox4x64_10 x (get4 (x * 4) src))"
    if x: "x < n" for x
  proof -
    have "(\<lambda>b. (get4 (x * 4) (fst b), get4 (x * 4) (snd b))) (fold ?g [0..<n] (src, dst)) =
          (\<lambda>t. (philox4x64_10 x t, normal4 (philox4x64_10 x t))) (get4 (x * 4) (fst (src, dst)))"
    proof (rule fold_slice_own [where A = "\<lambda>y. y < n" and I = ?I and g = ?g and x = x
                                  and In = "\<lambda>b. get4 (x * 4) (fst b)"
                                  and Out = "\<lambda>b. (get4 (x * 4) (fst b), get4 (x * 4) (snd b))"
                                  and H = "\<lambda>t. (philox4x64_10 x t, normal4 (philox4x64_10 x t))"])
      show "?I (?g y b)" if "y < n" "?I b" for y b using step [OF that] that by (simp add: Let_def)
      show "get4 (x * 4) (fst (?g y b)) = get4 (x * 4) (fst b) \<and>
            (get4 (x * 4) (fst (?g y b)), get4 (x * 4) (snd (?g y b))) = (get4 (x * 4) (fst b), get4 (x * 4) (snd b))"
        if "y < n" "y \<noteq> x" "?I b" for y b
        using step [OF that(1,3)] stride4_disj [OF not_sym [OF that(2)]] by (simp add: Let_def get4_put4_disj)
      show "(get4 (x * 4) (fst (?g x b)), get4 (x * 4) (snd (?g x b))) =
            (philox4x64_10 x (get4 (x * 4) (fst b)), normal4 (philox4x64_10 x (get4 (x * 4) (fst b))))"
        if "?I b" for b
      proof -
        have "x * 4 + 3 < length (fst b)" "x * 4 + 3 < length (snd b)" using that x assms by simp_all
        then show ?thesis using step [OF x that] by (simp add: Let_def)
      qed
    qed (use x assms in simp_all)
    then show ?thesis by simp
  qed
  obtain src' dst' where f: "fold ?g [0..<n] (src, dst) = (src', dst')" by fastforce
  have "?I (fold ?g [0..<n] (src, dst))"
    by (rule fold_inv [where A = "\<lambda>y. y < n"]) (use step in \<open>simp_all add: Let_def\<close>)
  then have len: "length src' = length src" "length dst' = length dst" by (simp_all add: f)
  show ?thesis
    using len dispatch_D1_slices [where k = philox4x64_normal_kernel and n = n and b = "(src, dst)",
                              OF philox4x64_normal_ok fits] own f by fastforce
qed

lemma philox4x32_normal_launch:
  assumes "n * 4 \<le> length src" "n * 2 \<le> length dst"
  shows "\<exists>src' dst'. dispatch_D1 philox4x32_normal_kernel n (src, dst) = Some (src', dst') \<and>
           length src' = length src \<and> length dst' = length dst \<and>
           (\<forall>x<n. get4 (x * 4) src' = philox4x32_10 x (get4 (x * 4) src) \<and>
                  get2 (x * 2) dst' = normal4x32 (philox4x32_10 x (get4 (x * 4) src)))"
proof -
  let ?g = "\<lambda>x b. the (philox4x32_normal_kernel x b)"
  let ?I = "\<lambda>b. length (fst b) = length src \<and> length (snd b) = length dst"
  have fits: "philox4x32_normal_kernel x (src, dst) \<noteq> None" if "x < n" for x
    using that assms by (simp add: philox4x32_normal_kernel_put)
  have step: "?g y b = (let t = philox4x32_10 y (get4 (y * 4) (fst b))
                        in (put4 (y * 4) t (fst b), put2 (y * 2) (normal4x32 t) (snd b)))"
    if "y < n" "?I b" for y b
    using that assms by (cases b) (simp add: philox4x32_normal_kernel_put normal4x32_def Let_def split: prod.splits)
  have own: "get4 (x * 4) (fst (fold ?g [0..<n] (src, dst))) = philox4x32_10 x (get4 (x * 4) src) \<and>
             get2 (x * 2) (snd (fold ?g [0..<n] (src, dst))) = normal4x32 (philox4x32_10 x (get4 (x * 4) src))"
    if x: "x < n" for x
  proof -
    have "(\<lambda>b. (get4 (x * 4) (fst b), get2 (x * 2) (snd b))) (fold ?g [0..<n] (src, dst)) =
          (\<lambda>t. (philox4x32_10 x t, normal4x32 (philox4x32_10 x t))) (get4 (x * 4) (fst (src, dst)))"
    proof (rule fold_slice_own [where A = "\<lambda>y. y < n" and I = ?I and g = ?g and x = x
                                  and In = "\<lambda>b. get4 (x * 4) (fst b)"
                                  and Out = "\<lambda>b. (get4 (x * 4) (fst b), get2 (x * 2) (snd b))"
                                  and H = "\<lambda>t. (philox4x32_10 x t, normal4x32 (philox4x32_10 x t))"])
      show "?I (?g y b)" if "y < n" "?I b" for y b using step [OF that] that by (simp add: Let_def)
      show "get4 (x * 4) (fst (?g y b)) = get4 (x * 4) (fst b) \<and>
            (get4 (x * 4) (fst (?g y b)), get2 (x * 2) (snd (?g y b))) = (get4 (x * 4) (fst b), get2 (x * 2) (snd b))"
        if "y < n" "y \<noteq> x" "?I b" for y b
        using step [OF that(1,3)] stride4_disj [OF not_sym [OF that(2)]] stride2_disj [OF not_sym [OF that(2)]]
        by (simp add: Let_def get4_put4_disj get2_put2_disj)
      show "(get4 (x * 4) (fst (?g x b)), get2 (x * 2) (snd (?g x b))) =
            (philox4x32_10 x (get4 (x * 4) (fst b)), normal4x32 (philox4x32_10 x (get4 (x * 4) (fst b))))"
        if "?I b" for b
      proof -
        have "x * 4 + 3 < length (fst b)" "Suc (x * 2) < length (snd b)" using that x assms by simp_all
        then show ?thesis using step [OF x that] by (simp add: Let_def)
      qed
    qed (use x assms in simp_all)
    then show ?thesis by simp
  qed
  obtain src' dst' where f: "fold ?g [0..<n] (src, dst) = (src', dst')" by fastforce
  have "?I (fold ?g [0..<n] (src, dst))"
    by (rule fold_inv [where A = "\<lambda>y. y < n"]) (use step in \<open>simp_all add: Let_def\<close>)
  then have len: "length src' = length src" "length dst' = length dst" by (simp_all add: f)
  show ?thesis
    using len dispatch_D1_slices [where k = philox4x32_normal_kernel and n = n and b = "(src, dst)",
                              OF philox4x32_normal_ok fits] own f by fastforce
qed

subsection \<open>Properties of the dispatch\<close>

text \<open>
  C18. Dispatching one of the three normal generators over \<open>n\<close> threads gives the
  same buffers for every order in which the device runs the threads: any schedule that
  is a permutation of \<open>0 .. n-1\<close> gives the result of \<open>run(.., Dim::D1(n))\<close>, for
  the two-lane slices of \<open>philox2x64_10_normal\<close>, the four-lane slices of
  \<open>philox4x64_10_normal\<close>, and the four lanes and two outputs of
  \<open>philox4x32_10_normal\<close>.
\<close>

theorem normal_generators_order_independent:
  assumes "mset xs = mset [0..<n]"
  shows "launch philox2x64_normal_kernel xs b2 = dispatch_D1 philox2x64_normal_kernel n b2 \<and>
         launch philox4x64_normal_kernel xs b4 = dispatch_D1 philox4x64_normal_kernel n b4 \<and>
         launch philox4x32_normal_kernel xs b32 = dispatch_D1 philox4x32_normal_kernel n b32"
  unfolding dispatch_D1_def
  by (intro conjI launch_perm [OF philox2x64_normal_comm assms] launch_perm [OF philox4x64_normal_comm assms]
                  launch_perm [OF philox4x32_normal_comm assms])

text \<open>
  C19. A dispatch of \<open>philox2x64_10_normal\<close> over \<open>n\<close> threads on buffers of at least
  \<open>2n\<close> elements succeeds; for every thread \<open>x < n\<close> it replaces the state slice
  \<open>src[2x], src[2x+1]\<close> by its ten-round image and writes the Box--Muller pair of that
  image to \<open>dst[2x], dst[2x+1]\<close>; the elements from \<open>2n\<close> on are unchanged.
\<close>

theorem philox2x64_normal_dispatch:
  assumes "n * 2 \<le> length src" "n * 2 \<le> length dst"
  shows "\<exists>src' dst'. dispatch_D1 philox2x64_normal_kernel n (src, dst) = Some (src', dst') \<and>
           length src' = length src \<and> length dst' = length dst \<and>
           (\<forall>x<n. get2 (x * 2) src' = philox2x64_10 x (get2 (x * 2) src) \<and>
                  get2 (x * 2) dst' = (let t = philox2x64_10 x (get2 (x * 2) src)
                                       in box_muller (to_unit (fst t)) (to_unit (snd t)))) \<and>
           (\<forall>i. n * 2 \<le> i \<longrightarrow> src' ! i = src ! i \<and> dst' ! i = dst ! i)"
  using philox2x64_normal_launch [OF assms] .

theorem normal_generators_order_independent_witness:
  "mset [1, 0] = mset [0..<2] \<and>
   (launch philox2x64_normal_kernel [1, 0] ([0, 0, 0, 0], [Fin 0, Fin 0, Fin 0, Fin 0]) =
      dispatch_D1 philox2x64_normal_kernel 2 ([0, 0, 0, 0], [Fin 0, Fin 0, Fin 0, Fin 0]) \<and>
    launch philox4x64_normal_kernel [1, 0] (replicate 8 0, replicate 8 (Fin 0)) =
      dispatch_D1 philox4x64_normal_kernel 2 (replicate 8 0, replicate 8 (Fin 0)) \<and>
    launch philox4x32_normal_kernel [1, 0] (replicate 8 0, replicate 4 (Fin 0)) =
      dispatch_D1 philox4x32_normal_kernel 2 (replicate 8 0, replicate 4 (Fin 0)))"
proof -
  have h: "mset [1, 0] = mset [0..<2]" by (simp add: upt_rec)
  show ?thesis by (rule conjI [OF h normal_generators_order_independent [OF h]])
qed

theorem philox2x64_normal_dispatch_witness:
  "1 * 2 \<le> length [0, 0 :: u64] \<and> 1 * 2 \<le> length [Fin 0, Fin 0] \<and>
   (\<exists>src' dst'. dispatch_D1 philox2x64_normal_kernel 1 ([0, 0], [Fin 0, Fin 0]) = Some (src', dst') \<and>
      length src' = length [0, 0 :: u64] \<and> length dst' = length [Fin 0, Fin 0] \<and>
      (\<forall>x<1. get2 (x * 2) src' = philox2x64_10 x (get2 (x * 2) [0, 0]) \<and>
             get2 (x * 2) dst' = (let t = philox2x64_10 x (get2 (x * 2) [0, 0])
                                  in box_muller (to_unit (fst t)) (to_unit (snd t)))) \<and>
      (\<forall>i. 1 * 2 \<le> i \<longrightarrow> src' ! i = [0, 0] ! i \<and> dst' ! i = [Fin 0, Fin 0] ! i))"
proof -
  have h1: "1 * 2 \<le> length [0, 0 :: u64]" and h2: "1 * 2 \<le> length [Fin 0, Fin 0]" by simp_all
  show ?thesis by (intro conjI h1 h2 philox2x64_normal_dispatch [OF h1 h2])
qed

end
