(* ===== verification/Elementwise.thy ===== *)
theory Elementwise
  imports Dispatch "HOL-Library.Monad_Syntax"
begin

text \<open>
  Device semantics of the elementwise, slice-copy, complex-conversion and complex-arithmetic
  kernels of the catalog (src/src/kernels.rs, lines 178--298), the three divisions
  (\<open>divides\<close>, \<open>cdivides\<close>, \<open>kc_divides\<close>) aside. The buffers a kernel sees live in a
  store, a map from buffer names to lists of cells; a cell is a \<open>double\<close> or a
  \<open>double2\<close>. Arguments are bound to buffer names by the handler, and two arguments may
  name the same buffer: the store makes that aliasing explicit. A read or a write outside
  a buffer, or of a missing buffer, is \<open>None\<close> (undefined in OpenCL); so is a read of a
  \<open>double2\<close> where the code reads a \<open>double\<close> (the handler's binder rejects such a
  binding before the launch).

  Each thread body is one \<open>fun\<close>/\<open>definition\<close> translating the kernel's single
  statement: it reads its operands, then writes one cell. Two reads of one statement have
  no effect on each other, so their order is immaterial. \<open>x_size\<close> and \<open>y_size\<close> are
  the ambient global sizes of the launch grid.
\<close>

datatype cell = VF64 f64 | VF64_2 f64 f64

type_synonym store = "string \<rightharpoonup> cell list"

type_synonym idx3 = "nat \<times> nat \<times> nat"

definition rd :: "store \<Rightarrow> string \<Rightarrow> nat \<Rightarrow> cell option" where
  "rd s n i = (case s n of None \<Rightarrow> None | Some xs \<Rightarrow> if i < length xs then Some (xs ! i) else None)"

fun cell_f64 :: "cell \<Rightarrow> f64 option" where
  "cell_f64 (VF64 v) = Some v"
| "cell_f64 (VF64_2 a b) = None"

fun cell_f64_2 :: "cell \<Rightarrow> (f64 \<times> f64) option" where
  "cell_f64_2 (VF64_2 a b) = Some (a, b)"
| "cell_f64_2 (VF64 v) = None"

definition rd_f64 :: "store \<Rightarrow> string \<Rightarrow> nat \<Rightarrow> f64 option" where
  "rd_f64 s n i = Option.bind (rd s n i) cell_f64"

definition rd_f64_2 :: "store \<Rightarrow> string \<Rightarrow> nat \<Rightarrow> (f64 \<times> f64) option" where
  "rd_f64_2 s n i = Option.bind (rd s n i) cell_f64_2"

definition wr :: "store \<Rightarrow> string \<Rightarrow> nat \<Rightarrow> cell \<Rightarrow> store option" where
  "wr s n i v =
     (case s n of None \<Rightarrow> None | Some xs \<Rightarrow> if i < length xs then Some (s(n \<mapsto> xs[i := v])) else None)"

text \<open>Double arithmetic: exact on finite values; an infinity or NaN operand gives one.\<close>

fun f64_add :: "f64 \<Rightarrow> f64 \<Rightarrow> f64" where
  "f64_add (Fin a) (Fin b) = Fin (a + b)"
| "f64_add _ _ = NonFinite"

fun f64_sub :: "f64 \<Rightarrow> f64 \<Rightarrow> f64" where
  "f64_sub (Fin a) (Fin b) = Fin (a - b)"
| "f64_sub _ _ = NonFinite"

subsection \<open>Arithmetic kernels\<close>

text \<open>\<open>dst[x] = a[x]+b[x];\<close>, \<open>-\<close>, \<open>*\<close>\<close>

definition plus_thread :: "string \<Rightarrow> string \<Rightarrow> string \<Rightarrow> nat \<Rightarrow> store \<Rightarrow> store option" where
  "plus_thread a b dst x s = do { u \<leftarrow> rd_f64 s a x; v \<leftarrow> rd_f64 s b x; wr s dst x (VF64 (f64_add u v)) }"

definition minus_thread :: "string \<Rightarrow> string \<Rightarrow> string \<Rightarrow> nat \<Rightarrow> store \<Rightarrow> store option" where
  "minus_thread a b dst x s = do { u \<leftarrow> rd_f64 s a x; v \<leftarrow> rd_f64 s b x; wr s dst x (VF64 (f64_sub u v)) }"

definition times_thread :: "string \<Rightarrow> string \<Rightarrow> string \<Rightarrow> nat \<Rightarrow> store \<Rightarrow> store option" where
  "times_thread a b dst x s = do { u \<leftarrow> rd_f64 s a x; v \<leftarrow> rd_f64 s b x; wr s dst x (VF64 (f64_mul u v)) }"

text \<open>\<open>dst[x] = src[x]+c;\<close>, \<open>-\<close>, \<open>*\<close>, with the scalar parameter \<open>c\<close>\<close>

definition cplus_thread :: "string \<Rightarrow> f64 \<Rightarrow> string \<Rightarrow> nat \<Rightarrow> store \<Rightarrow> store option" where
  "cplus_thread src c dst x s = do { u \<leftarrow> rd_f64 s src x; wr s dst x (VF64 (f64_add u c)) }"

definition cminus_thread :: "string \<Rightarrow> f64 \<Rightarrow> string \<Rightarrow> nat \<Rightarrow> store \<Rightarrow> store option" where
  "cminus_thread src c dst x s = do { u \<leftarrow> rd_f64 s src x; wr s dst x (VF64 (f64_sub u c)) }"

definition ctimes_thread :: "string \<Rightarrow> f64 \<Rightarrow> string \<Rightarrow> nat \<Rightarrow> store \<Rightarrow> store option" where
  "ctimes_thread src c dst x s = do { u \<leftarrow> rd_f64 s src x; wr s dst x (VF64 (f64_mul u c)) }"

subsection \<open>Complex conversions\<close>

text \<open>
  \<open>dst[x] = (double2)(src[x],0);\<close>, \<open>(double2)(0,src[x])\<close>, \<open>src[x].x\<close>, \<open>src[x].y\<close>
\<close>

definition complex_from_real_thread :: "string \<Rightarrow> string \<Rightarrow> nat \<Rightarrow> store \<Rightarrow> store option" where
  "complex_from_real_thread src dst x s = do { u \<leftarrow> rd_f64 s src x; wr s dst x (VF64_2 u (Fin 0)) }"

definition complex_from_image_thread :: "string \<Rightarrow> string \<Rightarrow> nat \<Rightarrow> store \<Rightarrow> store option" where
  "complex_from_image_thread src dst x s = do { u \<leftarrow> rd_f64 s src x; wr s dst x (VF64_2 (Fin 0) u) }"

definition real_from_complex_thread :: "string \<Rightarrow> string \<Rightarrow> nat \<Rightarrow> store \<Rightarrow> store option" where
  "real_from_complex_thread src dst x s = do { z \<leftarrow> rd_f64_2 s src x; wr s dst x (VF64 (fst z)) }"

definition image_from_complex_thread :: "string \<Rightarrow> string \<Rightarrow> nat \<Rightarrow> store \<Rightarrow> store option" where
  "image_from_complex_thread src dst x s = do { z \<leftarrow> rd_f64_2 s src x; wr s dst x (VF64 (snd z)) }"

subsection \<open>Complex kernels with shared functions\<close>

text \<open>
  The shared functions of \<open>crate::functions\<close> that \<open>kc_sqrmod\<close>, \<open>kc_mod\<close>,
  \<open>kc_times\<close> and \<open>kc_times_conj\<close> need (not in the sources; modelled from the
  specification: squared modulus, modulus, product, and product by the conjugate of the
  second operand), on \<open>double2\<close> values with \<open>.x\<close> the real and \<open>.y\<close> the
  imaginary part.
\<close>

definition c_sqrmod :: "f64 \<times> f64 \<Rightarrow> f64" where
  "c_sqrmod z = f64_add (f64_mul (fst z) (fst z)) (f64_mul (snd z) (snd z))"

definition c_mod :: "f64 \<times> f64 \<Rightarrow> f64" where
  "c_mod z = f64_sqrt (c_sqrmod z)"

definition c_times :: "f64 \<times> f64 \<Rightarrow> f64 \<times> f64 \<Rightarrow> f64 \<times> f64" where
  "c_times u v = (f64_sub (f64_mul (fst u) (fst v)) (f64_mul (snd u) (snd v)),
                  f64_add (f64_mul (fst u) (snd v)) (f64_mul (snd u) (fst v)))"

definition c_times_conj :: "f64 \<times> f64 \<Rightarrow> f64 \<times> f64 \<Rightarrow> f64 \<times> f64" where
  "c_times_conj u v = (f64_add (f64_mul (fst u) (fst v)) (f64_mul (snd u) (snd v)),
                       f64_sub (f64_mul (snd u) (fst v)) (f64_mul (fst u) (snd v)))"

text \<open>
  \<open>dst[x] = c_sqrmod(src[x]);\<close>, \<open>c_mod(src[x])\<close>, \<open>c_times(a[x],b[x])\<close>,
  \<open>c_times_conj(a[x],b[x])\<close>
\<close>

definition kc_sqrmod_thread :: "string \<Rightarrow> string \<Rightarrow> nat \<Rightarrow> store \<Rightarrow> store option" where
  "kc_sqrmod_thread src dst x s = do { z \<leftarrow> rd_f64_2 s src x; wr s dst x (VF64 (c_sqrmod z)) }"

definition kc_mod_thread :: "string \<Rightarrow> string \<Rightarrow> nat \<Rightarrow> store \<Rightarrow> store option" where
  "kc_mod_thread src dst x s = do { z \<leftarrow> rd_f64_2 s src x; wr s dst x (VF64 (c_mod z)) }"

definition kc_times_thread :: "string \<Rightarrow> string \<Rightarrow> string \<Rightarrow> nat \<Rightarrow> store \<Rightarrow> store option" where
  "kc_times_thread a b dst x s =
     do { u \<leftarrow> rd_f64_2 s a x; v \<leftarrow> rd_f64_2 s b x; wr s dst x (VF64_2 (fst (c_times u v)) (snd (c_times u v))) }"

definition kc_times_conj_thread :: "string \<Rightarrow> string \<Rightarrow> string \<Rightarrow> nat \<Rightarrow> store \<Rightarrow> store option" where
  "kc_times_conj_thread a b dst x s =
     do { u \<leftarrow> rd_f64_2 s a x; v \<leftarrow> rd_f64_2 s b x;
          wr s dst x (VF64_2 (fst (c_times_conj u v)) (snd (c_times_conj u v))) }"

subsection \<open>Slice copies over a three-dimensional grid\<close>

text \<open>
  The launch grid \<open>(x_size, y_size, z_size)\<close> and the thread \<open>(x, y, z)\<close>; \<open>size\<close> (\<open>size4\<close>) and
  \<open>dst_size\<close> are \<open>uint4\<close> parameters, \<open>offset\<close> a \<open>uint\<close>. Index arithmetic is
  on naturals: the buffers are assumed smaller than \<open>2^32\<close> elements and the index
  expressions not to wrap.
\<close>

definition move_thread ::
  "string \<Rightarrow> string \<Rightarrow> u32 lanes4 \<Rightarrow> u32 \<Rightarrow> idx3 \<Rightarrow> idx3 \<Rightarrow> store \<Rightarrow> store option" where
  "move_thread src dst size4 offset g p s =
     (case (g, p, size4) of ((x_size, y_size, z_size), (x, y, z), (sx, sy, sz, sw)) \<Rightarrow>
        do { v \<leftarrow> rd_f64 s src (x + unat sx * (y + unat sy * z));
             wr s dst (x + x_size * (y + y_size * z) + unat offset) (VF64 v) })"

definition smove_thread ::
  "string \<Rightarrow> string \<Rightarrow> u32 lanes4 \<Rightarrow> u32 \<Rightarrow> idx3 \<Rightarrow> idx3 \<Rightarrow> store \<Rightarrow> store option" where
  "smove_thread src dst size4 offset g p s =
     (case (g, p, size4) of ((x_size, y_size, z_size), (x, y, z), (sx, sy, sz, sw)) \<Rightarrow>
        do { v \<leftarrow> rd_f64 s src (x + x_size * (y + y_size * z));
             wr s dst (x + unat sx * (y + unat sy * z) + unat offset) (VF64 v) })"

definition dmove_thread ::
  "string \<Rightarrow> string \<Rightarrow> u32 lanes4 \<Rightarrow> u32 lanes4 \<Rightarrow> idx3 \<Rightarrow> store \<Rightarrow> store option" where
  "dmove_thread src dst size4 dst_size p s =
     (case (p, size4, dst_size) of ((x, y, z), (sx, sy, sz, sw), (dx, dy, dz, dw)) \<Rightarrow>
        do { v \<leftarrow> rd_f64 s src (x + unat sx * (y + unat sy * z));
             wr s dst (unat dx * (x + unat dy * (y + unat dz * z)) + unat dw) (VF64 v) })"

definition rdmove_thread ::
  "string \<Rightarrow> string \<Rightarrow> u32 lanes4 \<Rightarrow> u32 lanes4 \<Rightarrow> idx3 \<Rightarrow> store \<Rightarrow> store option" where
  "rdmove_thread src dst size4 dst_size p s =
     (case (p, size4, dst_size) of ((x, y, z), (sx, sy, sz, sw), (dx, dy, dz, dw)) \<Rightarrow>
        do { v \<leftarrow> rd_f64 s src (x + unat sx * (y + unat sy * z));
             wr s dst (x + unat dy * (y + unat dz * (z + unat dx * unat dw))) (VF64 v) })"

text \<open>The threads of a \<open>Dim::D3\<close> launch, and the launch itself.\<close>

definition grid3 :: "idx3 \<Rightarrow> idx3 list" where
  "grid3 g = (case g of (gx, gy, gz) \<Rightarrow>
     concat (map (\<lambda>z. concat (map (\<lambda>y. map (\<lambda>x. (x, y, z)) [0..<gx]) [0..<gy])) [0..<gz]))"

definition dispatch_D3 :: "(idx3 \<Rightarrow> 'b \<Rightarrow> 'b option) \<Rightarrow> idx3 \<Rightarrow> 'b \<Rightarrow> 'b option" where
  "dispatch_D3 k g b = launch k (grid3 g) b"

text \<open>
  The common shape of these bodies: compute one cell from the store, then write it at
  one index of one buffer.
\<close>

definition xfer :: "(store \<Rightarrow> 'i \<Rightarrow> cell option) \<Rightarrow> string \<Rightarrow> ('i \<Rightarrow> nat) \<Rightarrow> 'i \<Rightarrow> store \<Rightarrow> store option" where
  "xfer g dst w p s = Option.bind (g s p) (wr s dst (w p))"

text \<open>
  A pointwise body: thread \<open>i\<close> computes its cell from the cells at index \<open>i\<close> of
  the buffers and writes it at index \<open>i\<close> of \<open>dst\<close>.
\<close>

definition pointwise :: "((string \<Rightarrow> cell option) \<Rightarrow> cell option) \<Rightarrow> string \<Rightarrow> nat \<Rightarrow> store \<Rightarrow> store option" where
  "pointwise h dst = xfer (\<lambda>s i. h (\<lambda>m. rd s m i)) dst id"

text \<open>
  A copy body: thread \<open>p\<close> reads the double at index \<open>r p\<close> of \<open>src\<close> and writes it
  at index \<open>w p\<close> of \<open>dst\<close>.
\<close>

definition copy_thread :: "string \<Rightarrow> string \<Rightarrow> ('i \<Rightarrow> nat) \<Rightarrow> ('i \<Rightarrow> nat) \<Rightarrow> 'i \<Rightarrow> store \<Rightarrow> store option" where
  "copy_thread src dst r w = xfer (\<lambda>s p. Option.bind (rd_f64 s src (r p)) (\<lambda>v. Some (VF64 v))) dst w"

section \<open>Lemmas\<close>

subsection \<open>Reads and writes\<close>

lemma rd_upd_index: "s n = Some xs \<Longrightarrow> j \<noteq> i \<Longrightarrow> rd (s(n \<mapsto> xs[j := v])) m i = rd s m i"
  by (cases "m = n") (simp_all add: rd_def)

lemma rd_upd_buffer: "m \<noteq> n \<Longrightarrow> rd (s(n \<mapsto> ys)) m i = rd s m i"
  by (simp add: rd_def)

lemma wr_Some_iff:
  "wr s n i v = Some s' \<longleftrightarrow> (\<exists>xs. s n = Some xs \<and> i < length xs \<and> s' = s(n \<mapsto> xs[i := v]))"
  by (auto simp: wr_def split: option.splits)

lemma xfer_comm:
  assumes "w p \<noteq> w q"
    and "\<And>xs v. s dst = Some xs \<Longrightarrow> w p < length xs \<Longrightarrow> g (s(dst \<mapsto> xs[w p := v])) q = g s q"
    and "\<And>xs v. s dst = Some xs \<Longrightarrow> w q < length xs \<Longrightarrow> g (s(dst \<mapsto> xs[w q := v])) p = g s p"
  shows "Option.bind (xfer g dst w p s) (xfer g dst w q) = Option.bind (xfer g dst w q s) (xfer g dst w p)"
  using assms
  by (cases "s dst"; cases "g s p"; cases "g s q")
     (auto simp: xfer_def wr_def list_update_swap)

text \<open>
  A body is pointwise when what it computes for thread \<open>i\<close> depends only on the cells
  at index \<open>i\<close> of the buffers.
\<close>

lemma pointwise_comm:
  assumes pw: "\<And>s s' i. (\<And>m. rd s' m i = rd s m i) \<Longrightarrow> g s' i = g s i"
    and "p \<noteq> q"
  shows "Option.bind (xfer g dst id p s) (xfer g dst id q) = Option.bind (xfer g dst id q s) (xfer g dst id p)"
proof (rule xfer_comm)
  show "id p \<noteq> id q" using assms(2) by simp
next
  fix xs v assume "s dst = Some xs"
  then show "g (s(dst \<mapsto> xs[id p := v])) q = g s q" "g (s(dst \<mapsto> xs[id q := v])) p = g s p"
    using assms(2) by (auto intro: pw simp: rd_upd_index)
qed

lemma pointwise_dispatch:
  assumes pw: "\<And>s s' i. (\<And>m. rd s' m i = rd s m i) \<Longrightarrow> g s' i = g s i"
    and ds: "s dst = Some ds" and n: "n \<le> length ds"
    and f: "\<And>i. i < n \<Longrightarrow> g s i = Some (f i)"
  shows "dispatch_D1 (xfer g dst id) n s =
           Some (s(dst \<mapsto> map (\<lambda>i. if i < n then f i else ds ! i) [0..<length ds]))"
  using n f
proof (induction n)
  case 0
  have "map (\<lambda>i. ds ! i) [0..<length ds] = ds" by (rule nth_equalityI) simp_all
  then show ?case using ds by (auto simp: dispatch_D1_def)
next
  case (Suc n)
  define D where "D = map (\<lambda>i. if i < n then f i else ds ! i) [0..<length ds]"
  have IH: "dispatch_D1 (xfer g dst id) n s = Some (s(dst \<mapsto> D))"
    unfolding D_def using Suc.prems by (intro Suc.IH) simp_all
  have n: "n < length ds" using Suc.prems(1) by simp
  have "rd (s(dst \<mapsto> D)) m n = rd s m n" for m
    using ds n by (cases "m = dst") (simp_all add: rd_def D_def)
  then have "g (s(dst \<mapsto> D)) n = g s n" by (rule pw)
  then have g: "g (s(dst \<mapsto> D)) n = Some (f n)"
    using Suc.prems(2) [of n] by simp
  have Dn: "D[n := f n] = map (\<lambda>i. if i < Suc n then f i else ds ! i) [0..<length ds]"
    by (rule nth_equalityI) (auto simp: D_def nth_list_update less_Suc_eq)
  have lenD: "length D = length ds" by (simp add: D_def)
  have "dispatch_D1 (xfer g dst id) (Suc n) s = xfer g dst id n (s(dst \<mapsto> D))"
    using IH by (simp add: dispatch_D1_def launch_append del: launch.simps)
  also have "\<dots> = Some (s(dst \<mapsto> D[n := f n]))"
    using g n lenD by (simp add: xfer_def wr_def)
  finally show ?case by (simp only: Dn)
qed

lemma pointwise_comm':
  "p \<noteq> q \<Longrightarrow>
   Option.bind (pointwise h dst p s) (pointwise h dst q) = Option.bind (pointwise h dst q s) (pointwise h dst p)"
  unfolding pointwise_def by (rule pointwise_comm) simp_all

lemma pointwise_order:
  "mset xs = mset [0..<n] \<Longrightarrow> launch (pointwise h dst) xs s = dispatch_D1 (pointwise h dst) n s"
  unfolding dispatch_D1_def by (rule launch_perm [OF pointwise_comm'])

lemma pointwise_dispatch':
  assumes "s dst = Some ds" "n \<le> length ds" "\<And>i. i < n \<Longrightarrow> h (\<lambda>m. rd s m i) = Some (f i)"
  shows "dispatch_D1 (pointwise h dst) n s =
           Some (s(dst \<mapsto> map (\<lambda>i. if i < n then f i else ds ! i) [0..<length ds]))"
  unfolding pointwise_def using assms by (intro pointwise_dispatch) simp_all

lemma xfer_launch_length:
  "launch (xfer g dst w) xs s = Some s' \<Longrightarrow> s m = Some ys \<Longrightarrow> \<exists>zs. s' m = Some zs \<and> length zs = length ys"
proof (induction xs arbitrary: s ys)
  case Nil
  then show ?case by simp
next
  case (Cons x xs)
  then obtain s1 where s1: "xfer g dst w x s = Some s1" and rest: "launch (xfer g dst w) xs s1 = Some s'"
    by (cases "xfer g dst w x s") auto
  have "\<exists>zs. s1 m = Some zs \<and> length zs = length ys"
    using s1 Cons.prems(2) by (cases "m = dst") (auto simp: xfer_def bind_eq_Some_conv wr_Some_iff)
  then obtain zs where "s1 m = Some zs" "length zs = length ys" by blast
  then show ?case using Cons.IH [OF rest] by simp
qed

text \<open>The kernels in pointwise form.\<close>

lemmas thread_defs = plus_thread_def minus_thread_def times_thread_def cplus_thread_def
  cminus_thread_def ctimes_thread_def complex_from_real_thread_def complex_from_image_thread_def
  real_from_complex_thread_def image_from_complex_thread_def

lemma plus_thread_pointwise:
  "plus_thread a b dst = pointwise (\<lambda>r. do { u \<leftarrow> Option.bind (r a) cell_f64; v \<leftarrow> Option.bind (r b) cell_f64;
                                             Some (VF64 (f64_add u v)) }) dst"
  by (simp add: fun_eq_iff thread_defs pointwise_def xfer_def rd_f64_def)

lemma minus_thread_pointwise:
  "minus_thread a b dst = pointwise (\<lambda>r. do { u \<leftarrow> Option.bind (r a) cell_f64; v \<leftarrow> Option.bind (r b) cell_f64;
                                              Some (VF64 (f64_sub u v)) }) dst"
  by (simp add: fun_eq_iff thread_defs pointwise_def xfer_def rd_f64_def)

lemma times_thread_pointwise:
  "times_thread a b dst = pointwise (\<lambda>r. do { u \<leftarrow> Option.bind (r a) cell_f64; v \<leftarrow> Option.bind (r b) cell_f64;
                                              Some (VF64 (f64_mul u v)) }) dst"
  by (simp add: fun_eq_iff thread_defs pointwise_def xfer_def rd_f64_def)

lemma cplus_thread_pointwise:
  "cplus_thread src c dst = pointwise (\<lambda>r. do { u \<leftarrow> Option.bind (r src) cell_f64; Some (VF64 (f64_add u c)) }) dst"
  by (simp add: fun_eq_iff thread_defs pointwise_def xfer_def rd_f64_def)

lemma cminus_thread_pointwise:
  "cminus_thread src c dst = pointwise (\<lambda>r. do { u \<leftarrow> Option.bind (r src) cell_f64; Some (VF64 (f64_sub u c)) }) dst"
  by (simp add: fun_eq_iff thread_defs pointwise_def xfer_def rd_f64_def)

lemma ctimes_thread_pointwise:
  "ctimes_thread src c dst = pointwise (\<lambda>r. do { u \<leftarrow> Option.bind (r src) cell_f64; Some (VF64 (f64_mul u c)) }) dst"
  by (simp add: fun_eq_iff thread_defs pointwise_def xfer_def rd_f64_def)

lemma complex_from_real_thread_pointwise:
  "complex_from_real_thread src dst = pointwise (\<lambda>r. do { u \<leftarrow> Option.bind (r src) cell_f64; Some (VF64_2 u (Fin 0)) }) dst"
  by (simp add: fun_eq_iff thread_defs pointwise_def xfer_def rd_f64_def)

lemma complex_from_image_thread_pointwise:
  "complex_from_image_thread src dst = pointwise (\<lambda>r. do { u \<leftarrow> Option.bind (r src) cell_f64; Some (VF64_2 (Fin 0) u) }) dst"
  by (simp add: fun_eq_iff thread_defs pointwise_def xfer_def rd_f64_def)

lemma real_from_complex_thread_pointwise:
  "real_from_complex_thread src dst = pointwise (\<lambda>r. do { z \<leftarrow> Option.bind (r src) cell_f64_2; Some (VF64 (fst z)) }) dst"
  by (simp add: fun_eq_iff thread_defs pointwise_def xfer_def rd_f64_2_def)

lemma image_from_complex_thread_pointwise:
  "image_from_complex_thread src dst = pointwise (\<lambda>r. do { z \<leftarrow> Option.bind (r src) cell_f64_2; Some (VF64 (snd z)) }) dst"
  by (simp add: fun_eq_iff thread_defs pointwise_def xfer_def rd_f64_2_def)

lemmas kc_thread_defs = kc_sqrmod_thread_def kc_mod_thread_def kc_times_thread_def kc_times_conj_thread_def

lemma kc_sqrmod_thread_pointwise:
  "kc_sqrmod_thread src dst = pointwise (\<lambda>r. do { z \<leftarrow> Option.bind (r src) cell_f64_2; Some (VF64 (c_sqrmod z)) }) dst"
  by (simp add: fun_eq_iff kc_thread_defs pointwise_def xfer_def rd_f64_2_def)

lemma kc_mod_thread_pointwise:
  "kc_mod_thread src dst = pointwise (\<lambda>r. do { z \<leftarrow> Option.bind (r src) cell_f64_2; Some (VF64 (c_mod z)) }) dst"
  by (simp add: fun_eq_iff kc_thread_defs pointwise_def xfer_def rd_f64_2_def)

lemma kc_times_thread_pointwise:
  "kc_times_thread a b dst = pointwise (\<lambda>r. do { u \<leftarrow> Option.bind (r a) cell_f64_2; v \<leftarrow> Option.bind (r b) cell_f64_2;
                                                Some (VF64_2 (fst (c_times u v)) (snd (c_times u v))) }) dst"
  by (simp add: fun_eq_iff kc_thread_defs pointwise_def xfer_def rd_f64_2_def)

lemma kc_times_conj_thread_pointwise:
  "kc_times_conj_thread a b dst =
     pointwise (\<lambda>r. do { u \<leftarrow> Option.bind (r a) cell_f64_2; v \<leftarrow> Option.bind (r b) cell_f64_2;
                         Some (VF64_2 (fst (c_times_conj u v)) (snd (c_times_conj u v))) }) dst"
  by (simp add: fun_eq_iff kc_thread_defs pointwise_def xfer_def rd_f64_2_def)

text \<open>The real part of \<open>z\<close> times its own conjugate is the squared modulus.\<close>

lemma c_times_conj_self: "fst (c_times_conj z z) = c_sqrmod z"
  by (simp add: c_times_conj_def c_sqrmod_def)

subsection \<open>Slice copies\<close>

lemma move_thread_copy:
  "move_thread src dst (sx, sy, sz, sw) offset (gx, gy, gz) =
     copy_thread src dst (\<lambda>(x, y, z). x + unat sx * (y + unat sy * z))
                         (\<lambda>(x, y, z). x + gx * (y + gy * z) + unat offset)"
  by (simp add: fun_eq_iff move_thread_def copy_thread_def xfer_def)

lemma smove_thread_copy:
  "smove_thread src dst (sx, sy, sz, sw) offset (gx, gy, gz) =
     copy_thread src dst (\<lambda>(x, y, z). x + gx * (y + gy * z))
                         (\<lambda>(x, y, z). x + unat sx * (y + unat sy * z) + unat offset)"
  by (simp add: fun_eq_iff smove_thread_def copy_thread_def xfer_def)

lemma dmove_thread_copy:
  "dmove_thread src dst (sx, sy, sz, sw) (dx, dy, dz, dw) =
     copy_thread src dst (\<lambda>(x, y, z). x + unat sx * (y + unat sy * z))
                         (\<lambda>(x, y, z). unat dx * (x + unat dy * (y + unat dz * z)) + unat dw)"
  by (simp add: fun_eq_iff dmove_thread_def copy_thread_def xfer_def)

lemma rdmove_thread_copy:
  "rdmove_thread src dst (sx, sy, sz, sw) (dx, dy, dz, dw) =
     copy_thread src dst (\<lambda>(x, y, z). x + unat sx * (y + unat sy * z))
                         (\<lambda>(x, y, z). x + unat dy * (y + unat dz * (z + unat dx * unat dw)))"
  by (simp add: fun_eq_iff rdmove_thread_def copy_thread_def xfer_def)

lemma copy_comm:
  assumes "src \<noteq> dst" "w p \<noteq> w q"
  shows "Option.bind (copy_thread src dst r w p s) (copy_thread src dst r w q) =
         Option.bind (copy_thread src dst r w q s) (copy_thread src dst r w p)"
  unfolding copy_thread_def using assms by (intro xfer_comm) (simp_all add: rd_f64_def rd_upd_buffer)

lemma copy_order:
  assumes "src \<noteq> dst" "inj_on w (set ps0)" "mset ps = mset ps0"
  shows "launch (copy_thread src dst r w) ps s = launch (copy_thread src dst r w) ps0 s"
proof (rule launch_perm_on [where A = "set ps0"])
  fix p q b assume "p \<in> set ps0" "q \<in> set ps0" "p \<noteq> q"
  then have "w p \<noteq> w q" using assms(2) by (auto dest: inj_onD)
  then show "Option.bind (copy_thread src dst r w p b) (copy_thread src dst r w q) =
             Option.bind (copy_thread src dst r w q b) (copy_thread src dst r w p)"
    by (rule copy_comm [OF assms(1)])
next
  show "mset ps = mset ps0" by (fact assms(3))
  show "set ps \<subseteq> set ps0" using mset_eq_setD [OF assms(3)] by simp
qed

lemma set_grid3: "set (grid3 (gx, gy, gz)) = {(x, y, z). x < gx \<and> y < gy \<and> z < gz}"
proof (rule set_eqI, rule iffI)
  fix p assume "p \<in> set (grid3 (gx, gy, gz))"
  then show "p \<in> {(x, y, z). x < gx \<and> y < gy \<and> z < gz}" by (auto simp: grid3_def)
next
  fix p assume "p \<in> {(x, y, z). x < gx \<and> y < gy \<and> z < gz}"
  then obtain x y z where p: "p = (x, y, z)" "x < gx" "y < gy" "z < gz" by blast
  have "(x, y, z) \<in> (\<lambda>x. (x, y, z)) ` {0..<gx}" using p by simp
  then show "p \<in> set (grid3 (gx, gy, gz))" using p unfolding grid3_def by fastforce
qed

lemma lin_inj: "a < m \<Longrightarrow> c < m \<Longrightarrow> a + m * b = c + m * (d :: nat) \<Longrightarrow> a = c \<and> b = d"
proof -
  assume a: "a < m" and c: "c < m" and eq: "a + m * b = c + m * d"
  have "a = (a + m * b) mod m" using a by simp
  also have "\<dots> = (c + m * d) mod m" using eq by simp
  also have "\<dots> = c" using c by simp
  finally have "a = c" .
  with eq a show ?thesis by simp
qed

lemma lin3_inj:
  "x1 < gx \<Longrightarrow> x2 < gx \<Longrightarrow> y1 < gy \<Longrightarrow> y2 < gy \<Longrightarrow>
   x1 + gx * (y1 + gy * z1) = x2 + gx * (y2 + gy * (z2 :: nat)) \<Longrightarrow> (x1, y1, z1) = (x2, y2, z2)"
  using lin_inj [of x1 gx x2 "y1 + gy * z1" "y2 + gy * z2"] lin_inj [of y1 gy y2 z1 z2] by simp

lemma upt_split_at: "j < n \<Longrightarrow> [0..<n] = [0..<j] @ j # [Suc j..<n]"
  using upt_add_eq_append [of 0 j "n - j"] upt_conv_Cons [of j n] by simp

lemma plus_thread_out_of_range:
  assumes "s a = Some as" "s b = Some bs" "s dst = Some ds"
    and "min (length as) (min (length bs) (length ds)) \<le> j"
  shows "plus_thread a b dst j s = None"
  using assms by (auto simp: plus_thread_def rd_f64_def rd_def wr_def min_le_iff_disj)

lemma copy_inj_grid:
  assumes "\<And>x1 y1 z1 x2 y2 z2. x1 < gx \<Longrightarrow> x2 < gx \<Longrightarrow> y1 < gy \<Longrightarrow> y2 < gy \<Longrightarrow>
             z1 < gz \<Longrightarrow> z2 < gz \<Longrightarrow> w (x1, y1, z1) = w (x2, y2, z2) \<Longrightarrow> (x1, y1, z1) = (x2, y2, z2)"
  shows "inj_on w (set (grid3 (gx, gy, gz)))"
  unfolding set_grid3 by (auto intro!: inj_onI dest: assms)

lemma smove_order:
  assumes "src \<noteq> dst" "gx \<le> unat sx" "gy \<le> unat sy" "mset ps = mset (grid3 (gx, gy, gz))"
  shows "launch (smove_thread src dst (sx, sy, sz, sw) offset (gx, gy, gz)) ps s =
         dispatch_D3 (smove_thread src dst (sx, sy, sz, sw) offset (gx, gy, gz)) (gx, gy, gz) s"
proof -
  have "inj_on (\<lambda>(x, y, z). x + unat sx * (y + unat sy * z) + unat offset) (set (grid3 (gx, gy, gz)))"
  proof (rule copy_inj_grid, rule lin3_inj)
    fix x1 x2 y1 y2 assume "x1 < gx" "x2 < gx" "y1 < gy" "y2 < gy"
    then show "x1 < unat sx" "x2 < unat sx" "y1 < unat sy" "y2 < unat sy" using assms(2,3) by simp_all
  qed simp
  then show ?thesis
    unfolding dispatch_D3_def smove_thread_copy by (rule copy_order [OF assms(1) _ assms(4)])
qed

lemma dmove_rdmove_order:
  assumes "src \<noteq> dst" "0 < unat dx" "gx \<le> unat dy" "gy \<le> unat dz"
    and "mset ps = mset (grid3 (gx, gy, gz))"
  shows "launch (dmove_thread src dst size4 (dx, dy, dz, dw)) ps s =
           dispatch_D3 (dmove_thread src dst size4 (dx, dy, dz, dw)) (gx, gy, gz) s \<and>
         launch (rdmove_thread src dst size4 (dx, dy, dz, dw)) ps s =
           dispatch_D3 (rdmove_thread src dst size4 (dx, dy, dz, dw)) (gx, gy, gz) s"
proof -
  obtain sx sy sz sw where sz: "size4 = (sx, sy, sz, sw)" by (cases size4)
  have fits: "x < unat dy" "y < unat dz" if "x < gx" "y < gy" for x y
    using that assms(3,4) by simp_all
  have "inj_on (\<lambda>(x, y, z). unat dx * (x + unat dy * (y + unat dz * z)) + unat dw) (set (grid3 (gx, gy, gz)))"
  proof (rule copy_inj_grid, rule lin3_inj)
    fix x1 x2 y1 y2 z1 z2
    assume "x1 < gx" "x2 < gx" "y1 < gy" "y2 < gy"
      and eq: "(\<lambda>(x, y, z). unat dx * (x + unat dy * (y + unat dz * z)) + unat dw) (x1, y1, z1) =
               (\<lambda>(x, y, z). unat dx * (x + unat dy * (y + unat dz * z)) + unat dw) (x2, y2, z2)"
    then show "x1 < unat dy" "x2 < unat dy" "y1 < unat dz" "y2 < unat dz" using fits by simp_all
    show "x1 + unat dy * (y1 + unat dz * z1) = x2 + unat dy * (y2 + unat dz * z2)"
      using eq assms(2) by simp
  qed
  moreover have "inj_on (\<lambda>(x, y, z). x + unat dy * (y + unat dz * (z + unat dx * unat dw))) (set (grid3 (gx, gy, gz)))"
  proof (rule copy_inj_grid)
    fix x1 x2 y1 y2 z1 z2
    assume "x1 < gx" "x2 < gx" "y1 < gy" "y2 < gy"
      and eq: "(\<lambda>(x, y, z). x + unat dy * (y + unat dz * (z + unat dx * unat dw))) (x1, y1, z1) =
               (\<lambda>(x, y, z). x + unat dy * (y + unat dz * (z + unat dx * unat dw))) (x2, y2, z2)"
    then have "(x1, y1, z1 + unat dx * unat dw) = (x2, y2, z2 + unat dx * unat dw)"
      using fits by (intro lin3_inj) simp_all
    then show "(x1, y1, z1) = (x2, y2, z2)" by simp
  qed
  ultimately show ?thesis
    unfolding sz dispatch_D3_def dmove_thread_copy rdmove_thread_copy
    by (intro conjI copy_order [OF assms(1) _ assms(5)])
qed

text \<open>Races of the slice copies: two schedules of the same grid that end differently.\<close>

lemma lin3_bound: "x < gx \<Longrightarrow> y < gy \<Longrightarrow> z < gz \<Longrightarrow> x + gx * (y + gy * z) < gx * gy * (gz :: nat)"
proof -
  assume x: "x < gx" and y: "y < gy" and z: "z < gz"
  have "y + gy * z < gy * gz"
  proof -
    have "y + gy * z < gy + gy * z" using y by simp
    also have "\<dots> = gy * Suc z" by simp
    also have "\<dots> \<le> gy * gz" using z by (intro mult_le_mono2) simp
    finally show ?thesis .
  qed
  then have "Suc (y + gy * z) \<le> gy * gz" by simp
  have "x + gx * (y + gy * z) < gx + gx * (y + gy * z)" using x by simp
  also have "\<dots> = gx * Suc (y + gy * z)" by simp
  also have "\<dots> \<le> gx * (gy * gz)" using \<open>Suc (y + gy * z) \<le> gy * gz\<close> by (rule mult_le_mono2)
  finally show ?thesis by (simp add: mult.assoc)
qed

lemma distinct_grid3: "distinct (grid3 (gx, gy, gz))"
proof (induction gz)
  case 0
  then show ?case by (simp add: grid3_def)
next
  case (Suc gz)
  have "distinct (concat (map (\<lambda>y. map (\<lambda>x. (x, y, gz)) [0..<gx]) [0..<gy]))"
    by (induction gy) (auto simp: distinct_map inj_on_def)
  then show ?case using Suc.IH by (auto simp: grid3_def)
qed

lemma mset_remove1_add: "x \<in> set xs \<Longrightarrow> mset (remove1 x xs) + {#x#} = mset xs"
  by (simp add: insert_DiffM2)

lemma mset_two_last:
  assumes "p \<in> set G" "q \<in> set G" "p \<noteq> q"
  shows "mset (remove1 p (remove1 q G) @ [p, q]) = mset G" "mset (remove1 p (remove1 q G) @ [q, p]) = mset G"
proof -
  have pq: "p \<in> set (remove1 q G)" using assms by (simp add: in_set_remove1)
  note a = mset_remove1_add [OF assms(2)] and b = mset_remove1_add [OF pq]
  have "mset (remove1 p (remove1 q G) @ [p, q]) = (mset (remove1 p (remove1 q G)) + {#p#}) + {#q#}" by simp
  also have "\<dots> = mset G" by (simp only: b a)
  finally show "mset (remove1 p (remove1 q G) @ [p, q]) = mset G" .
  then show "mset (remove1 p (remove1 q G) @ [q, p]) = mset G" by (simp add: add_mset_commute)
qed

text \<open>A copy launch whose reads and writes stay in range runs to the end.\<close>

lemma copy_launch_total:
  assumes "s src = Some xs" "s dst = Some ys" "set xs \<subseteq> range VF64" "set ys \<subseteq> range VF64"
    and "\<forall>p\<in>set ps. r p < length xs \<and> w p < length ys"
  shows "\<exists>s' ys'. launch (copy_thread src dst r w) ps s = Some s' \<and> s' dst = Some ys' \<and>
                  length ys' = length ys \<and> set ys' \<subseteq> range VF64 \<and> (\<forall>m. m \<noteq> dst \<longrightarrow> s' m = s m)"
  using assms
proof (induction ps arbitrary: s xs ys)
  case Nil
  then show ?case by simp
next
  case (Cons p ps)
  have rp: "r p < length xs" and wp: "w p < length ys" using Cons.prems(5) by auto
  obtain v where v: "xs ! r p = VF64 v" using Cons.prems(3) nth_mem [OF rp] by blast
  define ys1 where "ys1 = ys[w p := VF64 v]"
  define s1 where "s1 = s(dst \<mapsto> ys1)"
  have step: "copy_thread src dst r w p s = Some s1"
    using Cons.prems(1,2) rp wp v by (simp add: copy_thread_def xfer_def rd_f64_def rd_def wr_def s1_def ys1_def)
  have y1: "s1 dst = Some ys1" "set ys1 \<subseteq> range VF64" "length ys1 = length ys"
    using Cons.prems(4) set_update_subset_insert [of ys "w p" "VF64 v"] by (auto simp: s1_def ys1_def)
  obtain xs1 where x1: "s1 src = Some xs1" "set xs1 \<subseteq> range VF64" "length xs1 = length xs"
    using Cons.prems(1,2,3) y1 by (cases "src = dst") (auto simp: s1_def)
  have "\<forall>q\<in>set ps. r q < length xs1 \<and> w q < length ys1" using Cons.prems(5) x1(3) y1(3) by simp
  then obtain s' ys' where IH: "launch (copy_thread src dst r w) ps s1 = Some s'" "s' dst = Some ys'"
      "length ys' = length ys1" "set ys' \<subseteq> range VF64" "\<forall>m. m \<noteq> dst \<longrightarrow> s' m = s1 m"
    using Cons.IH [OF x1(1) y1(1) x1(2) y1(2)] by blast
  then show ?case using step y1(3) by (auto simp: s1_def)
qed

text \<open>A copy launch none of whose threads writes index \<open>k\<close> of \<open>dst\<close> leaves it alone.\<close>

lemma copy_launch_frame:
  "launch (copy_thread src dst r w) ps s = Some s' \<Longrightarrow> \<forall>p\<in>set ps. w p \<noteq> k \<Longrightarrow> s dst = Some ys \<Longrightarrow>
   \<exists>ys'. s' dst = Some ys' \<and> ys' ! k = ys ! k"
proof (induction ps arbitrary: s ys)
  case Nil
  then show ?case by simp
next
  case (Cons p ps)
  obtain s1 where s1: "copy_thread src dst r w p s = Some s1" and rest: "launch (copy_thread src dst r w) ps s1 = Some s'"
    using Cons.prems(1) by (cases "copy_thread src dst r w p s") auto
  obtain c where "wr s dst (w p) c = Some s1"
    using s1 by (cases "rd_f64 s src (r p)") (auto simp: copy_thread_def xfer_def)
  then have "s1 dst = Some (ys[w p := c])" using Cons.prems(3) by (auto simp: wr_Some_iff)
  moreover have "ys[w p := c] ! k = ys ! k" using Cons.prems(2) by simp
  ultimately show ?case using Cons.IH [OF rest] Cons.prems(2) by fastforce
qed

text \<open>One copy step of a thread whose read and write are in range.\<close>

lemma copy_step:
  assumes "s src = Some xs" "s dst = Some ys" "xs ! r p = VF64 v" "r p < length xs" "w p < length ys"
  shows "copy_thread src dst r w p s = Some (s(dst \<mapsto> ys[w p := VF64 v]))"
  using assms by (simp add: copy_thread_def xfer_def rd_f64_def rd_def wr_def)

subsection \<open>Properties of the elementwise kernels\<close>

text \<open>
  C20. A launch of \<open>plus\<close> over \<open>n\<close> threads on buffers of doubles at least \<open>n\<close>
  long writes \<open>a[i] + b[i]\<close> to \<open>dst[i]\<close> for every \<open>i < n\<close>, computed from the
  values before the launch, and changes nothing else, even when \<open>dst\<close> is the same
  buffer as \<open>a\<close> or \<open>b\<close>.
\<close>

theorem plus_dispatch:
  assumes "s a = Some (map VF64 us)" "s b = Some (map VF64 vs)" "s dst = Some ds"
    and "n \<le> length us" "n \<le> length vs" "n \<le> length ds"
  shows "dispatch_D1 (plus_thread a b dst) n s =
           Some (s(dst \<mapsto> map (\<lambda>i. if i < n then VF64 (f64_add (us ! i) (vs ! i)) else ds ! i)
                                [0..<length ds]))"
  unfolding plus_thread_pointwise using assms by (intro pointwise_dispatch') (simp_all add: rd_def)

text \<open>
  C21. The elementwise, complex-conversion and complex-arithmetic kernels
  (\<open>kc_sqrmod\<close>, \<open>kc_mod\<close>, \<open>kc_times\<close>, \<open>kc_times_conj\<close>) give the same buffers for every
  order of their threads: any permutation of \<open>0 .. n-1\<close> gives the result of
  \<open>Dim::D1(n)\<close>, whatever the aliasing of their buffer arguments.
\<close>

theorem elementwise_order_independent:
  assumes "mset xs = mset [0..<n]"
  shows "launch (plus_thread a b dst) xs s = dispatch_D1 (plus_thread a b dst) n s \<and>
         launch (minus_thread a b dst) xs s = dispatch_D1 (minus_thread a b dst) n s \<and>
         launch (times_thread a b dst) xs s = dispatch_D1 (times_thread a b dst) n s \<and>
         launch (cplus_thread a c dst) xs s = dispatch_D1 (cplus_thread a c dst) n s \<and>
         launch (cminus_thread a c dst) xs s = dispatch_D1 (cminus_thread a c dst) n s \<and>
         launch (ctimes_thread a c dst) xs s = dispatch_D1 (ctimes_thread a c dst) n s \<and>
         launch (complex_from_real_thread a dst) xs s = dispatch_D1 (complex_from_real_thread a dst) n s \<and>
         launch (complex_from_image_thread a dst) xs s = dispatch_D1 (complex_from_image_thread a dst) n s \<and>
         launch (real_from_complex_thread a dst) xs s = dispatch_D1 (real_from_complex_thread a dst) n s \<and>
         launch (image_from_complex_thread a dst) xs s = dispatch_D1 (image_from_complex_thread a dst) n s \<and>
         launch (kc_sqrmod_thread a dst) xs s = dispatch_D1 (kc_sqrmod_thread a dst) n s \<and>
         launch (kc_mod_thread a dst) xs s = dispatch_D1 (kc_mod_thread a dst) n s \<and>
         launch (kc_times_thread a b dst) xs s = dispatch_D1 (kc_times_thread a b dst) n s \<and>
         launch (kc_times_conj_thread a b dst) xs s = dispatch_D1 (kc_times_conj_thread a b dst) n s"
  unfolding plus_thread_pointwise minus_thread_pointwise times_thread_pointwise cplus_thread_pointwise
    cminus_thread_pointwise ctimes_thread_pointwise complex_from_real_thread_pointwise
    complex_from_image_thread_pointwise real_from_complex_thread_pointwise image_from_complex_thread_pointwise
    kc_sqrmod_thread_pointwise kc_mod_thread_pointwise kc_times_thread_pointwise kc_times_conj_thread_pointwise
  by (intro conjI pointwise_order [OF assms])

text \<open>
  C22. A launch of \<open>plus\<close> with more threads than one of its buffers has elements is
  an error: the first thread past the end reads or writes outside a buffer.
\<close>

theorem plus_dispatch_out_of_range:
  assumes "s a = Some as" "s b = Some bs" "s dst = Some ds"
    and "min (length as) (min (length bs) (length ds)) < n"
  shows "dispatch_D1 (plus_thread a b dst) n s = None"
proof -
  define j where "j = min (length as) (min (length bs) (length ds))"
  have split: "[0..<n] = [0..<j] @ j # [Suc j..<n]"
    using assms(4) by (simp add: j_def upt_split_at)
  show ?thesis
  proof (cases "launch (plus_thread a b dst) [0..<j] s")
    case None
    then show ?thesis by (simp add: dispatch_D1_def split launch_append)
  next
    case (Some s')
    note run = Some [unfolded plus_thread_pointwise pointwise_def]
    obtain as' bs' ds' where bufs: "s' a = Some as'" "s' b = Some bs'" "s' dst = Some ds'"
      and lens: "length as' = length as" "length bs' = length bs" "length ds' = length ds"
      using xfer_launch_length [OF run assms(1)] xfer_launch_length [OF run assms(2)]
            xfer_launch_length [OF run assms(3)] by blast
    have "min (length as') (min (length bs') (length ds')) \<le> j"
      using lens by (simp add: j_def)
    then have "plus_thread a b dst j s' = None"
      by (rule plus_thread_out_of_range [OF bufs])
    then show ?thesis using Some by (simp add: dispatch_D1_def split launch_append)
  qed
qed

text \<open>
  C23. Converting doubles to complex numbers with \<open>complex_from_real\<close> and back with
  \<open>real_from_complex\<close> returns the original doubles: after the two launches over
  \<open>n\<close> threads the first \<open>n\<close> elements of \<open>dst\<close> are those of \<open>src\<close>.
\<close>

theorem complex_real_roundtrip:
  assumes "s src = Some (map VF64 us)" "s c = Some cs" "s dst = Some ds"
    and "n \<le> length us" "n \<le> length cs" "n \<le> length ds"
  shows "\<exists>s1 s2 ys. dispatch_D1 (complex_from_real_thread src c) n s = Some s1 \<and>
                   dispatch_D1 (real_from_complex_thread c dst) n s1 = Some s2 \<and>
                   s2 dst = Some ys \<and> take n ys = map VF64 (take n us)"
proof -
  define C where "C = map (\<lambda>i. if i < n then VF64_2 (us ! i) (Fin 0) else cs ! i) [0..<length cs]"
  define s1 where "s1 = s(c \<mapsto> C)"
  have d1: "dispatch_D1 (complex_from_real_thread src c) n s = Some s1"
    unfolding complex_from_real_thread_pointwise s1_def C_def using assms
    by (intro pointwise_dispatch') (simp_all add: rd_def)
  obtain D where D: "s1 dst = Some D" "n \<le> length D"
    using assms(3,5,6) by (cases "dst = c") (simp_all add: s1_def C_def)
  have rdc: "rd s1 c i = Some (VF64_2 (us ! i) (Fin 0))" if "i < n" for i
    using that assms(5) by (simp add: s1_def C_def rd_def)
  define ys where "ys = map (\<lambda>i. if i < n then VF64 (us ! i) else D ! i) [0..<length D]"
  have d2: "dispatch_D1 (real_from_complex_thread c dst) n s1 = Some (s1(dst \<mapsto> ys))"
    unfolding real_from_complex_thread_pointwise ys_def using D rdc
    by (intro pointwise_dispatch') simp_all
  have "take n ys = map VF64 (take n us)"
    using D(2) assms(4) by (intro nth_equalityI) (simp_all add: ys_def)
  then show ?thesis using d1 d2 by auto
qed

subsection \<open>Properties of the slice copies\<close>

text \<open>
  C24. \<open>move\<close> between two different buffers gives the same result for every order of
  the threads of its \<open>Dim::D3\<close> grid: distinct threads write distinct elements.
\<close>

theorem move_order_independent:
  assumes "src \<noteq> dst" "mset ps = mset (grid3 g)"
  shows "launch (move_thread src dst size4 offset g) ps s = dispatch_D3 (move_thread src dst size4 offset g) g s"
proof -
  obtain gx gy gz where g: "g = (gx, gy, gz)" by (cases g)
  obtain sx sy sz sw where sz: "size4 = (sx, sy, sz, sw)" by (cases size4)
  have "inj_on (\<lambda>(x, y, z). x + gx * (y + gy * z) + unat offset) (set (grid3 (gx, gy, gz)))"
    by (rule copy_inj_grid, rule lin3_inj) simp_all
  moreover have "mset ps = mset (grid3 (gx, gy, gz))" using assms(2) g by simp
  ultimately show ?thesis
    unfolding g sz dispatch_D3_def move_thread_copy by (rule copy_order [OF assms(1)])
qed

text \<open>
  C25. The other slice copies between two different buffers are order independent when
  their destination index map is injective on the grid: \<open>smove\<close> when the grid fits in
  \<open>size.x\<close> and \<open>size.y\<close>; \<open>dmove\<close> and \<open>rdmove\<close> when it fits in
  \<open>dst_size.y\<close> and \<open>dst_size.z\<close> and (for \<open>dmove\<close>) the stride \<open>dst_size.x\<close>
  is not zero.
\<close>

theorem slice_copies_order_independent:
  assumes "src \<noteq> dst" "mset ps = mset (grid3 (gx, gy, gz))"
  shows "(gx \<le> unat sx \<and> gy \<le> unat sy \<longrightarrow>
            launch (smove_thread src dst (sx, sy, sz, sw) offset (gx, gy, gz)) ps s =
            dispatch_D3 (smove_thread src dst (sx, sy, sz, sw) offset (gx, gy, gz)) (gx, gy, gz) s) \<and>
         (0 < unat dx \<and> gx \<le> unat dy \<and> gy \<le> unat dz \<longrightarrow>
            launch (dmove_thread src dst (sx, sy, sz, sw) (dx, dy, dz, dw)) ps s =
              dispatch_D3 (dmove_thread src dst (sx, sy, sz, sw) (dx, dy, dz, dw)) (gx, gy, gz) s \<and>
            launch (rdmove_thread src dst (sx, sy, sz, sw) (dx, dy, dz, dw)) ps s =
              dispatch_D3 (rdmove_thread src dst (sx, sy, sz, sw) (dx, dy, dz, dw)) (gx, gy, gz) s)"
  using smove_order [OF assms(1) _ _ assms(2)] dmove_rdmove_order [OF assms(1) _ _ _ assms(2)] by blast

text \<open>
  C26. \<open>smove\<close> on a grid wider than \<open>size.x\<close> with at least two rows is a race:
  threads \<open>(size.x, 0, 0)\<close> and \<open>(0, 1, 0)\<close> write the same element of \<open>dst\<close>, so
  when they read different values from \<open>src\<close> two orders of the grid's threads leave
  different buffers. (On a single row no two threads collide.)
\<close>

theorem smove_overlapping_writes:
  assumes "src \<noteq> dst" "unat sx < gx" "1 < gy" "0 < gz"
    and "s src = Some (map VF64 us)" "gx * gy * gz \<le> length us"
    and "s dst = Some ds" "set ds \<subseteq> range VF64" "gx + unat sx * (gy + unat sy * gz) + unat offset \<le> length ds"
    and "us ! unat sx \<noteq> us ! gx"
  shows "\<exists>ps ps'. mset ps = mset (grid3 (gx, gy, gz)) \<and> mset ps' = mset (grid3 (gx, gy, gz)) \<and>
           launch (smove_thread src dst (sx, sy, sz, sw) offset (gx, gy, gz)) ps s \<noteq>
           launch (smove_thread src dst (sx, sy, sz, sw) offset (gx, gy, gz)) ps' s"
proof -
  define r where "r = (\<lambda>(x, y, z). x + gx * (y + gy * z))"
  define w where "w = (\<lambda>(x, y, z). x + unat sx * (y + unat sy * z) + unat offset)"
  define G where "G = grid3 (gx, gy, gz)"
  define t1 where "t1 = (unat sx, 0 :: nat, 0 :: nat)"
  define t2 where "t2 = (0 :: nat, 1 :: nat, 0 :: nat)"
  define rest where "rest = remove1 t1 (remove1 t2 G)"
  have k: "smove_thread src dst (sx, sy, sz, sw) offset (gx, gy, gz) = copy_thread src dst r w"
    by (simp add: smove_thread_copy r_def w_def)
  have inG: "t1 \<in> set G" "t2 \<in> set G" and ne: "t1 \<noteq> t2"
    using assms(2-4) by (auto simp: G_def set_grid3 t1_def t2_def)
  have inb: "r p < length us \<and> w p < length ds" if "p \<in> set G" for p
  proof -
    obtain x y z where p0: "p = (x, y, z)" by (cases p)
    then have p: "p = (x, y, z)" "x < gx" "y < gy" "z < gz" using that by (simp_all add: G_def set_grid3)
    have "r p < gx * gy * gz" using p by (simp add: r_def lin3_bound)
    moreover have "x + unat sx * (y + unat sy * z) < gx + unat sx * (gy + unat sy * gz)"
      using p by (intro add_less_le_mono mult_le_mono2 add_mono) simp_all
    ultimately show ?thesis using assms(6,9) by (simp add: p w_def)
  qed
  have sub: "set rest \<subseteq> set G"
    unfolding rest_def using set_remove1_subset by (metis subset_trans)
  have "\<forall>p\<in>set rest. r p < length us \<and> w p < length ds" using inb sub by blast
  then obtain s' ys' where run: "launch (copy_thread src dst r w) rest s = Some s'" "s' dst = Some ys'"
      "length ys' = length ds" "\<forall>m. m \<noteq> dst \<longrightarrow> s' m = s m"
    using copy_launch_total [OF assms(5,7) _ assms(8), of rest r w] by auto
  have src': "s' src = Some (map VF64 us)" using run(4) assms(1,5) by simp
  have rt: "r t1 = unat sx" "r t2 = gx" "w t1 = unat sx + unat offset" "w t2 = unat sx + unat offset"
    by (simp_all add: r_def w_def t1_def t2_def)
  have rl: "r t1 < length us" "r t2 < length us" "w t1 < length ys'"
    using inb [OF inG(1)] inb [OF inG(2)] run(3) by simp_all
  define i where "i = unat sx + unat offset"
  have ord: "launch (copy_thread src dst r w) (rest @ [a, b]) s =
               Some (s'(dst \<mapsto> ys'[i := VF64 (us ! r a), i := VF64 (us ! r b)]))"
    if "w a = i" "w b = i" "r a < length us" "r b < length us" for a b
  proof -
    have il: "i < length ys'" using rl(3) rt(3) by (simp add: i_def)
    have 1: "copy_thread src dst r w a s' = Some (s'(dst \<mapsto> ys'[i := VF64 (us ! r a)]))"
      using copy_step [OF src' run(2), of r a "us ! r a" w] that il by simp
    have 2: "copy_thread src dst r w b (s'(dst \<mapsto> ys'[i := VF64 (us ! r a)])) =
               Some (s'(dst \<mapsto> ys'[i := VF64 (us ! r a), i := VF64 (us ! r b)]))"
      using copy_step [of "s'(dst \<mapsto> ys'[i := VF64 (us ! r a)])" src "map VF64 us" dst
                          "ys'[i := VF64 (us ! r a)]" r b "us ! r b" w] that il src' assms(1) by simp
    show ?thesis using run(1) 1 2 by (simp add: launch_append)
  qed
  have il: "i < length ys'" using rl(3) rt(3) by (simp add: i_def)
  have A: "launch (copy_thread src dst r w) (rest @ [t2, t1]) s = Some (s'(dst \<mapsto> ys'[i := VF64 (us ! unat sx)]))"
    using ord [of t2 t1] rt rl by (simp add: i_def)
  have B: "launch (copy_thread src dst r w) (rest @ [t1, t2]) s = Some (s'(dst \<mapsto> ys'[i := VF64 (us ! gx)]))"
    using ord [of t1 t2] rt rl by (simp add: i_def)
  have "ys'[i := VF64 (us ! unat sx)] \<noteq> ys'[i := VF64 (us ! gx)]"
  proof
    assume "ys'[i := VF64 (us ! unat sx)] = ys'[i := VF64 (us ! gx)]"
    then have "ys'[i := VF64 (us ! unat sx)] ! i = ys'[i := VF64 (us ! gx)] ! i" by simp
    then show False using il assms(10) by simp
  qed
  then have "launch (copy_thread src dst r w) (rest @ [t2, t1]) s \<noteq> launch (copy_thread src dst r w) (rest @ [t1, t2]) s"
    unfolding A B by (metis fun_upd_same option.inject)
  moreover have "mset (rest @ [t2, t1]) = mset G" "mset (rest @ [t1, t2]) = mset G"
    using mset_two_last [OF inG ne] by (simp_all add: rest_def)
  ultimately show ?thesis unfolding k G_def by blast
qed

text \<open>
  C27. \<open>move\<close> with one buffer as source and destination is a race whenever its
  offset is non-zero and smaller than the grid's width: thread \<open>(offset, 0, 0)\<close> reads
  the element thread \<open>(0, 0, 0)\<close> writes, so when those two elements differ two orders
  of the grid's threads leave different buffers. (With an offset at least the width,
  no thread reads what another writes along the first row.)
\<close>

theorem move_aliased_race:
  assumes "0 < unat offset" "unat offset < gx" "0 < gy" "0 < gz"
    and "s b = Some bs" "set bs \<subseteq> range VF64"
    and "gx + unat sx * (gy + unat sy * gz) \<le> length bs" "gx * gy * gz + unat offset \<le> length bs"
    and "bs ! 0 \<noteq> bs ! unat offset"
  shows "\<exists>ps ps'. mset ps = mset (grid3 (gx, gy, gz)) \<and> mset ps' = mset (grid3 (gx, gy, gz)) \<and>
           launch (move_thread b b (sx, sy, sz, sw) offset (gx, gy, gz)) ps s \<noteq>
           launch (move_thread b b (sx, sy, sz, sw) offset (gx, gy, gz)) ps' s"
proof -
  define r where "r = (\<lambda>(x, y, z). x + unat sx * (y + unat sy * z))"
  define w where "w = (\<lambda>(x, y, z). x + gx * (y + gy * z) + unat offset)"
  define G where "G = grid3 (gx, gy, gz)"
  define p where "p = (0 :: nat, 0 :: nat, 0 :: nat)"
  define q where "q = (unat offset, 0 :: nat, 0 :: nat)"
  define rest where "rest = remove1 p (remove1 q G)"
  define d where "d = unat offset"
  have k: "move_thread b b (sx, sy, sz, sw) offset (gx, gy, gz) = copy_thread b b r w"
    by (simp add: move_thread_copy r_def w_def)
  have inG: "p \<in> set G" "q \<in> set G" and ne: "p \<noteq> q"
    using assms(1-4) by (auto simp: G_def set_grid3 p_def q_def)
  have inb: "r t < length bs \<and> w t < length bs \<and> (t \<noteq> p \<longrightarrow> w t \<noteq> d \<and> w t \<noteq> 0)" if "t \<in> set G" for t
  proof -
    obtain x y z where t0: "t = (x, y, z)" by (cases t)
    then have t: "x < gx" "y < gy" "z < gz" using that by (simp_all add: G_def set_grid3)
    have "x + unat sx * (y + unat sy * z) < gx + unat sx * (gy + unat sy * gz)"
      using t by (intro add_less_le_mono mult_le_mono2 add_mono) simp_all
    moreover have "x + gx * (y + gy * z) < gx * gy * gz" using t by (rule lin3_bound)
    moreover have "t \<noteq> p \<Longrightarrow> x + gx * (y + gy * z) \<noteq> 0" using t assms(3) by (auto simp: t0 p_def)
    ultimately have "r t < length bs" "w t < length bs" "t \<noteq> p \<Longrightarrow> w t \<noteq> d" "w t \<noteq> 0"
      using assms(1,7,8) by (simp_all add: t0 r_def w_def d_def)
    then show ?thesis by blast
  qed
  have rest_set: "set rest = set G - {q} - {p}"
    using distinct_grid3 [of gx gy gz] by (simp add: rest_def G_def set_remove1_eq)
  have "\<forall>t\<in>set rest. r t < length bs \<and> w t < length bs" using inb rest_set by blast
  then obtain s' bs' where run: "launch (copy_thread b b r w) rest s = Some s'" "s' b = Some bs'"
      "length bs' = length bs" "set bs' \<subseteq> range VF64"
    using copy_launch_total [where s = s and src = b and dst = b and xs = bs and ys = bs, OF assms(5,5,6,6), of rest r w] by auto
  have "\<forall>t\<in>set rest. w t \<noteq> 0" "\<forall>t\<in>set rest. w t \<noteq> d" using inb rest_set by auto
  then have f0: "bs' ! 0 = bs ! 0" and f1: "bs' ! d = bs ! d"
    using copy_launch_frame [OF run(1) _ assms(5)] run(2) by fastforce+
  have l2: "d + d < length bs" using inb [OF inG(2)] by (simp add: w_def q_def d_def)
  then have l0: "0 < length bs" and lo: "d < length bs" by linarith+
  obtain v0 v1 where v: "bs ! 0 = VF64 v0" "bs ! d = VF64 v1"
    using assms(6) nth_mem [OF l0] nth_mem [OF lo] by blast
  have rw: "r p = 0" "w p = d" "r q = d" "w q = d + d" by (simp_all add: r_def w_def p_def q_def d_def)
  have A: "launch (copy_thread b b r w) (rest @ [p, q]) s = Some (s'(b \<mapsto> bs'[d := VF64 v0, d + d := VF64 v0]))"
  proof -
    have 1: "copy_thread b b r w p s' = Some (s'(b \<mapsto> bs'[d := VF64 v0]))"
      using copy_step [where s = s' and src = b and dst = b and xs = bs' and ys = bs', OF run(2) run(2), of r p v0 w] rw f0 v run(3) l0 lo by simp
    have 2: "copy_thread b b r w q (s'(b \<mapsto> bs'[d := VF64 v0])) = Some (s'(b \<mapsto> bs'[d := VF64 v0, d + d := VF64 v0]))"
      using copy_step [of "s'(b \<mapsto> bs'[d := VF64 v0])" b "bs'[d := VF64 v0]" b "bs'[d := VF64 v0]" r q v0 w]
        rw run(3) lo l2 by simp
    show ?thesis using run(1) 1 2 by (simp add: launch_append)
  qed
  have B: "launch (copy_thread b b r w) (rest @ [q, p]) s = Some (s'(b \<mapsto> bs'[d + d := VF64 v1, d := VF64 v0]))"
  proof -
    have 1: "copy_thread b b r w q s' = Some (s'(b \<mapsto> bs'[d + d := VF64 v1]))"
      using copy_step [where s = s' and src = b and dst = b and xs = bs' and ys = bs', OF run(2) run(2), of r q v1 w] rw f1 v run(3) lo l2 by simp
    have 2: "copy_thread b b r w p (s'(b \<mapsto> bs'[d + d := VF64 v1])) = Some (s'(b \<mapsto> bs'[d + d := VF64 v1, d := VF64 v0]))"
      using copy_step [of "s'(b \<mapsto> bs'[d + d := VF64 v1])" b "bs'[d + d := VF64 v1]" b "bs'[d + d := VF64 v1]" r p v0 w]
        rw f0 v run(3) l0 lo assms(1) by (simp add: d_def nth_list_update)
    show ?thesis using run(1) 1 2 by (simp add: launch_append)
  qed
  have "bs'[d := VF64 v0, d + d := VF64 v0] \<noteq> bs'[d + d := VF64 v1, d := VF64 v0]"
  proof
    assume "bs'[d := VF64 v0, d + d := VF64 v0] = bs'[d + d := VF64 v1, d := VF64 v0]"
    then have "bs'[d := VF64 v0, d + d := VF64 v0] ! (d + d) = bs'[d + d := VF64 v1, d := VF64 v0] ! (d + d)" by simp
    then show False using l2 run(3) assms(1,9) v by (simp add: d_def)
  qed
  then have "launch (copy_thread b b r w) (rest @ [p, q]) s \<noteq> launch (copy_thread b b r w) (rest @ [q, p]) s"
    unfolding A B by (metis fun_upd_same option.inject)
  moreover have "mset (rest @ [p, q]) = mset G" "mset (rest @ [q, p]) = mset G"
    using mset_two_last [OF inG ne] by (simp_all add: rest_def)
  ultimately show ?thesis unfolding k G_def by blast
qed

text \<open>
  C32. Composition of three kernels: \<open>kc_times_conj(a, a)\<close> into \<open>t\<close> followed by
  \<open>real_from_complex(t)\<close> into \<open>r\<close> leaves in \<open>r\<close> what \<open>kc_sqrmod(a)\<close> writes
  there, the squared modulus of each of the first \<open>n\<close> elements of \<open>a\<close>, whatever
  the aliasing of \<open>a\<close>, \<open>t\<close> and \<open>r\<close>.
\<close>

theorem kc_conj_square:
  assumes "s a = Some (map (\<lambda>z. VF64_2 (fst z) (snd z)) zs)" "s t = Some ts" "s r = Some rs"
    and "n \<le> length zs" "n \<le> length ts" "n \<le> length rs"
  shows "\<exists>s1 s2 s3 ys ws. dispatch_D1 (kc_times_conj_thread a a t) n s = Some s1 \<and>
           dispatch_D1 (real_from_complex_thread t r) n s1 = Some s2 \<and> s2 r = Some ys \<and>
           dispatch_D1 (kc_sqrmod_thread a r) n s = Some s3 \<and> s3 r = Some ws \<and>
           take n ys = map (\<lambda>z. VF64 (c_sqrmod z)) (take n zs) \<and> take n ws = take n ys"
proof -
  define T where "T = map (\<lambda>i. if i < n then VF64_2 (fst (c_times_conj (zs ! i) (zs ! i)))
                                              (snd (c_times_conj (zs ! i) (zs ! i))) else ts ! i) [0..<length ts]"
  have d1: "dispatch_D1 (kc_times_conj_thread a a t) n s = Some (s(t \<mapsto> T))"
    unfolding kc_times_conj_thread_pointwise T_def using assms
    by (intro pointwise_dispatch') (simp_all add: rd_def)
  obtain R where R: "(s(t \<mapsto> T)) r = Some R" "n \<le> length R"
    using assms(3,5,6) by (cases "r = t") (simp_all add: T_def)
  have rdt: "rd (s(t \<mapsto> T)) t i = Some (VF64_2 (c_sqrmod (zs ! i)) (snd (c_times_conj (zs ! i) (zs ! i))))"
    if "i < n" for i
    using that assms(5) by (simp add: T_def rd_def c_times_conj_self)
  define ys where "ys = map (\<lambda>i. if i < n then VF64 (c_sqrmod (zs ! i)) else R ! i) [0..<length R]"
  have d2: "dispatch_D1 (real_from_complex_thread t r) n (s(t \<mapsto> T)) = Some ((s(t \<mapsto> T))(r \<mapsto> ys))"
    unfolding real_from_complex_thread_pointwise ys_def using R rdt
    by (intro pointwise_dispatch') simp_all
  define ws where "ws = map (\<lambda>i. if i < n then VF64 (c_sqrmod (zs ! i)) else rs ! i) [0..<length rs]"
  have d3: "dispatch_D1 (kc_sqrmod_thread a r) n s = Some (s(r \<mapsto> ws))"
    unfolding kc_sqrmod_thread_pointwise ws_def using assms
    by (intro pointwise_dispatch') (simp_all add: rd_def)
  have ty: "take n ys = map (\<lambda>z. VF64 (c_sqrmod z)) (take n zs)"
    using R(2) assms(4) by (intro nth_equalityI) (simp_all add: ys_def)
  have tw: "take n ws = take n ys"
    using R(2) assms(4,6) by (intro nth_equalityI) (simp_all add: ys_def ws_def)
  show ?thesis using d1 d2 d3 ty tw by auto
qed

theorem plus_dispatch_witness:
  "[''a'' \<mapsto> [VF64 (Fin 1)], ''b'' \<mapsto> [VF64 (Fin 2)], ''d'' \<mapsto> [VF64 (Fin 0)]] ''a'' = Some (map VF64 [Fin 1]) \<and> [''a'' \<mapsto> [VF64 (Fin 1)], ''b'' \<mapsto> [VF64 (Fin 2)], ''d'' \<mapsto> [VF64 (Fin 0)]] ''b'' = Some (map VF64 [Fin 2]) \<and>
   [''a'' \<mapsto> [VF64 (Fin 1)], ''b'' \<mapsto> [VF64 (Fin 2)], ''d'' \<mapsto> [VF64 (Fin 0)]] ''d'' = Some [VF64 (Fin 0)] \<and>
   1 \<le> length [Fin 1] \<and> 1 \<le> length [Fin 2] \<and> 1 \<le> length [VF64 (Fin 0)] \<and>
   dispatch_D1 (plus_thread ''a'' ''b'' ''d'') 1 [''a'' \<mapsto> [VF64 (Fin 1)], ''b'' \<mapsto> [VF64 (Fin 2)], ''d'' \<mapsto> [VF64 (Fin 0)]] =
     Some (([''a'' \<mapsto> [VF64 (Fin 1)], ''b'' \<mapsto> [VF64 (Fin 2)], ''d'' \<mapsto> [VF64 (Fin 0)]])(''d'' \<mapsto> map (\<lambda>i. if i < 1 then VF64 (f64_add ([Fin 1] ! i) ([Fin 2] ! i))
                                         else [VF64 (Fin 0)] ! i) [0..<length [VF64 (Fin 0)]]))"
proof -
  have h1: "[''a'' \<mapsto> [VF64 (Fin 1)], ''b'' \<mapsto> [VF64 (Fin 2)], ''d'' \<mapsto> [VF64 (Fin 0)]] ''a'' = Some (map VF64 [Fin 1])" and h2: "[''a'' \<mapsto> [VF64 (Fin 1)], ''b'' \<mapsto> [VF64 (Fin 2)], ''d'' \<mapsto> [VF64 (Fin 0)]] ''b'' = Some (map VF64 [Fin 2])"
    and h3: "[''a'' \<mapsto> [VF64 (Fin 1)], ''b'' \<mapsto> [VF64 (Fin 2)], ''d'' \<mapsto> [VF64 (Fin 0)]] ''d'' = Some [VF64 (Fin 0)]" by simp_all
  have h4: "1 \<le> length [Fin 1]" and h5: "1 \<le> length [Fin 2]" and h6: "1 \<le> length [VF64 (Fin 0)]"
    by simp_all
  show ?thesis by (intro conjI h1 h2 h3 h4 h5 h6 plus_dispatch [OF h1 h2 h3 h4 h5 h6])
qed

theorem elementwise_order_independent_witness:
  "mset [1, 0] = mset [0..<2] \<and>
   launch (plus_thread ''a'' ''b'' ''d'') [1, 0] Map.empty = dispatch_D1 (plus_thread ''a'' ''b'' ''d'') 2 Map.empty \<and>
   launch (minus_thread ''a'' ''b'' ''d'') [1, 0] Map.empty = dispatch_D1 (minus_thread ''a'' ''b'' ''d'') 2 Map.empty \<and>
   launch (times_thread ''a'' ''b'' ''d'') [1, 0] Map.empty = dispatch_D1 (times_thread ''a'' ''b'' ''d'') 2 Map.empty \<and>
   launch (cplus_thread ''a'' (Fin 1) ''d'') [1, 0] Map.empty = dispatch_D1 (cplus_thread ''a'' (Fin 1) ''d'') 2 Map.empty \<and>
   launch (cminus_thread ''a'' (Fin 1) ''d'') [1, 0] Map.empty = dispatch_D1 (cminus_thread ''a'' (Fin 1) ''d'') 2 Map.empty \<and>
   launch (ctimes_thread ''a'' (Fin 1) ''d'') [1, 0] Map.empty = dispatch_D1 (ctimes_thread ''a'' (Fin 1) ''d'') 2 Map.empty \<and>
   launch (complex_from_real_thread ''a'' ''d'') [1, 0] Map.empty = dispatch_D1 (complex_from_real_thread ''a'' ''d'') 2 Map.empty \<and>
   launch (complex_from_image_thread ''a'' ''d'') [1, 0] Map.empty = dispatch_D1 (complex_from_image_thread ''a'' ''d'') 2 Map.empty \<and>
   launch (real_from_complex_thread ''a'' ''d'') [1, 0] Map.empty = dispatch_D1 (real_from_complex_thread ''a'' ''d'') 2 Map.empty \<and>
   launch (image_from_complex_thread ''a'' ''d'') [1, 0] Map.empty = dispatch_D1 (image_from_complex_thread ''a'' ''d'') 2 Map.empty \<and>
   launch (kc_sqrmod_thread ''a'' ''d'') [1, 0] Map.empty = dispatch_D1 (kc_sqrmod_thread ''a'' ''d'') 2 Map.empty \<and>
   launch (kc_mod_thread ''a'' ''d'') [1, 0] Map.empty = dispatch_D1 (kc_mod_thread ''a'' ''d'') 2 Map.empty \<and>
   launch (kc_times_thread ''a'' ''b'' ''d'') [1, 0] Map.empty = dispatch_D1 (kc_times_thread ''a'' ''b'' ''d'') 2 Map.empty \<and>
   launch (kc_times_conj_thread ''a'' ''b'' ''d'') [1, 0] Map.empty = dispatch_D1 (kc_times_conj_thread ''a'' ''b'' ''d'') 2 Map.empty"
proof -
  have h: "mset [1, 0] = mset [0..<2]" by (simp add: upt_rec)
  show ?thesis by (rule conjI [OF h elementwise_order_independent [OF h]])
qed

theorem plus_dispatch_out_of_range_witness:
  "[''a'' \<mapsto> [], ''b'' \<mapsto> [], ''d'' \<mapsto> []] ''a'' = Some [] \<and> [''a'' \<mapsto> [], ''b'' \<mapsto> [], ''d'' \<mapsto> []] ''b'' = Some [] \<and> [''a'' \<mapsto> [], ''b'' \<mapsto> [], ''d'' \<mapsto> []] ''d'' = Some [] \<and>
   min (length ([] :: cell list)) (min (length ([] :: cell list)) (length ([] :: cell list))) < 1 \<and>
   dispatch_D1 (plus_thread ''a'' ''b'' ''d'') 1 [''a'' \<mapsto> [], ''b'' \<mapsto> [], ''d'' \<mapsto> []] = None"
proof -
  have h1: "[''a'' \<mapsto> [], ''b'' \<mapsto> [], ''d'' \<mapsto> []] ''a'' = Some []" and h2: "[''a'' \<mapsto> [], ''b'' \<mapsto> [], ''d'' \<mapsto> []] ''b'' = Some []" and h3: "[''a'' \<mapsto> [], ''b'' \<mapsto> [], ''d'' \<mapsto> []] ''d'' = Some []"
    and h4: "min (length ([] :: cell list)) (min (length ([] :: cell list)) (length ([] :: cell list))) < 1"
    by simp_all
  show ?thesis by (intro conjI h1 h2 h3 h4 plus_dispatch_out_of_range [OF h1 h2 h3 h4])
qed

theorem complex_real_roundtrip_witness:
  "[''s'' \<mapsto> [VF64 (Fin 1)], ''c'' \<mapsto> [VF64 (Fin 0)], ''d'' \<mapsto> [VF64 (Fin 0)]] ''s'' = Some (map VF64 [Fin 1]) \<and> [''s'' \<mapsto> [VF64 (Fin 1)], ''c'' \<mapsto> [VF64 (Fin 0)], ''d'' \<mapsto> [VF64 (Fin 0)]] ''c'' = Some [VF64 (Fin 0)] \<and> [''s'' \<mapsto> [VF64 (Fin 1)], ''c'' \<mapsto> [VF64 (Fin 0)], ''d'' \<mapsto> [VF64 (Fin 0)]] ''d'' = Some [VF64 (Fin 0)] \<and>
   1 \<le> length [Fin 1] \<and> 1 \<le> length [VF64 (Fin 0)] \<and> 1 \<le> length [VF64 (Fin 0)] \<and>
   (\<exists>s1 s2 ys. dispatch_D1 (complex_from_real_thread ''s'' ''c'') 1 [''s'' \<mapsto> [VF64 (Fin 1)], ''c'' \<mapsto> [VF64 (Fin 0)], ''d'' \<mapsto> [VF64 (Fin 0)]] = Some s1 \<and>
               dispatch_D1 (real_from_complex_thread ''c'' ''d'') 1 s1 = Some s2 \<and>
               s2 ''d'' = Some ys \<and> take 1 ys = map VF64 (take 1 [Fin 1]))"
proof -
  have h1: "[''s'' \<mapsto> [VF64 (Fin 1)], ''c'' \<mapsto> [VF64 (Fin 0)], ''d'' \<mapsto> [VF64 (Fin 0)]] ''s'' = Some (map VF64 [Fin 1])" and h2: "[''s'' \<mapsto> [VF64 (Fin 1)], ''c'' \<mapsto> [VF64 (Fin 0)], ''d'' \<mapsto> [VF64 (Fin 0)]] ''c'' = Some [VF64 (Fin 0)]"
    and h3: "[''s'' \<mapsto> [VF64 (Fin 1)], ''c'' \<mapsto> [VF64 (Fin 0)], ''d'' \<mapsto> [VF64 (Fin 0)]] ''d'' = Some [VF64 (Fin 0)]" by simp_all
  have h4: "1 \<le> length [Fin 1]" and h5: "1 \<le> length [VF64 (Fin 0)]" and h6: "1 \<le> length [VF64 (Fin 0)]"
    by simp_all
  show ?thesis by (intro conjI h1 h2 h3 h4 h5 h6 complex_real_roundtrip [OF h1 h2 h3 h4 h5 h6])
qed

theorem move_order_independent_witness:
  "''a'' \<noteq> ''b'' \<and> mset [(1, 0, 0), (0, 0, 0)] = mset (grid3 (2, 1, 1)) \<and>
   launch (move_thread ''a'' ''b'' (2, 1, 1, 0) 0 (2, 1, 1)) [(1, 0, 0), (0, 0, 0)] Map.empty =
   dispatch_D3 (move_thread ''a'' ''b'' (2, 1, 1, 0) 0 (2, 1, 1)) (2, 1, 1) Map.empty"
proof -
  have h1: "''a'' \<noteq> ''b''" by simp
  have h2: "mset [(1, 0, 0), (0, 0, 0)] = mset (grid3 (2, 1, 1))" by (simp add: grid3_def upt_rec)
  show ?thesis by (intro conjI h1 h2 move_order_independent [OF h1 h2])
qed

theorem slice_copies_order_independent_witness:
  "''a'' \<noteq> ''b'' \<and> mset [(1, 0, 0), (0, 0, 0)] = mset (grid3 (2, 1, 1)) \<and>
   (2 \<le> unat (2 :: u32) \<and> 1 \<le> unat (1 :: u32)) \<and>
   (0 < unat (1 :: u32) \<and> 2 \<le> unat (2 :: u32) \<and> 1 \<le> unat (1 :: u32)) \<and>
   launch (smove_thread ''a'' ''b'' (2, 1, 1, 0) 0 (2, 1, 1)) [(1, 0, 0), (0, 0, 0)] Map.empty =
     dispatch_D3 (smove_thread ''a'' ''b'' (2, 1, 1, 0) 0 (2, 1, 1)) (2, 1, 1) Map.empty \<and>
   launch (dmove_thread ''a'' ''b'' (2, 1, 1, 0) (1, 2, 1, 0)) [(1, 0, 0), (0, 0, 0)] Map.empty =
     dispatch_D3 (dmove_thread ''a'' ''b'' (2, 1, 1, 0) (1, 2, 1, 0)) (2, 1, 1) Map.empty \<and>
   launch (rdmove_thread ''a'' ''b'' (2, 1, 1, 0) (1, 2, 1, 0)) [(1, 0, 0), (0, 0, 0)] Map.empty =
     dispatch_D3 (rdmove_thread ''a'' ''b'' (2, 1, 1, 0) (1, 2, 1, 0)) (2, 1, 1) Map.empty"
proof -
  have h1: "''a'' \<noteq> ''b''" by simp
  have h2: "mset [(1, 0, 0), (0, 0, 0)] = mset (grid3 (2, 1, 1))" by (simp add: grid3_def upt_rec)
  have c1: "2 \<le> unat (2 :: u32) \<and> 1 \<le> unat (1 :: u32)"
    and c2: "0 < unat (1 :: u32) \<and> 2 \<le> unat (2 :: u32) \<and> 1 \<le> unat (1 :: u32)" by simp_all
  note w = slice_copies_order_independent [OF h1 h2, where sx = 2 and sy = 1 and sz = 1 and sw = 0
             and offset = 0 and dx = 1 and dy = 2 and dz = 1 and dw = 0 and s = Map.empty]
  show ?thesis using h1 h2 c1 c2 w by blast
qed

theorem kc_conj_square_witness:
  "\<exists>s1 s2 s3 ys ws.
     dispatch_D1 (kc_times_conj_thread ''a'' ''a'' ''t'') 1 [''a'' \<mapsto> [VF64_2 (Fin 3) (Fin 4)], ''t'' \<mapsto> [VF64_2 (Fin 0) (Fin 0)], ''r'' \<mapsto> [VF64 (Fin 0)]] = Some s1 \<and>
     dispatch_D1 (real_from_complex_thread ''t'' ''r'') 1 s1 = Some s2 \<and> s2 ''r'' = Some ys \<and>
     dispatch_D1 (kc_sqrmod_thread ''a'' ''r'') 1 [''a'' \<mapsto> [VF64_2 (Fin 3) (Fin 4)], ''t'' \<mapsto> [VF64_2 (Fin 0) (Fin 0)], ''r'' \<mapsto> [VF64 (Fin 0)]] = Some s3 \<and>
     s3 ''r'' = Some ws \<and> take 1 ys = [VF64 (Fin 25)] \<and> take 1 ws = take 1 ys"
proof -
  have h1: "[''a'' \<mapsto> [VF64_2 (Fin 3) (Fin 4)], ''t'' \<mapsto> [VF64_2 (Fin 0) (Fin 0)], ''r'' \<mapsto> [VF64 (Fin 0)]] ''a'' =
            Some (map (\<lambda>z. VF64_2 (fst z) (snd z)) [(Fin 3, Fin 4)])" by simp
  have h2: "[''a'' \<mapsto> [VF64_2 (Fin 3) (Fin 4)], ''t'' \<mapsto> [VF64_2 (Fin 0) (Fin 0)], ''r'' \<mapsto> [VF64 (Fin 0)]] ''t'' =
            Some [VF64_2 (Fin 0) (Fin 0)]" by simp
  have h3: "[''a'' \<mapsto> [VF64_2 (Fin 3) (Fin 4)], ''t'' \<mapsto> [VF64_2 (Fin 0) (Fin 0)], ''r'' \<mapsto> [VF64 (Fin 0)]] ''r'' =
            Some [VF64 (Fin 0)]" by simp
  have sq: "map (\<lambda>z. VF64 (c_sqrmod z)) (take 1 [(Fin 3, Fin 4)]) = [VF64 (Fin 25)]"
    by (simp add: c_sqrmod_def)
  have p1: "1 \<le> length [(Fin 3, Fin 4)]" and p2: "1 \<le> length [VF64_2 (Fin 0) (Fin 0)]"
    and p3: "1 \<le> length [VF64 (Fin 0)]" by simp_all
  show ?thesis by (rule kc_conj_square [OF h1 h2 h3 p1 p2 p3, unfolded sq])
qed

theorem smove_overlapping_writes_witness:
  "\<exists>ps ps'. mset ps = mset (grid3 (2, 2, 1)) \<and> mset ps' = mset (grid3 (2, 2, 1)) \<and>
     launch (smove_thread ''src'' ''dst'' (1, 1, 1, 0) 0 (2, 2, 1)) ps [''src'' \<mapsto> map VF64 [Fin 0, Fin 1, Fin 2, Fin 3], ''dst'' \<mapsto> replicate 5 (VF64 (Fin 0))] \<noteq>
     launch (smove_thread ''src'' ''dst'' (1, 1, 1, 0) 0 (2, 2, 1)) ps' [''src'' \<mapsto> map VF64 [Fin 0, Fin 1, Fin 2, Fin 3], ''dst'' \<mapsto> replicate 5 (VF64 (Fin 0))]"
proof -
  have h1: "''src'' \<noteq> ''dst''" and h2: "unat (1 :: u32) < 2" and h3: "1 < (2 :: nat)" and h4: "0 < (1 :: nat)"
    by simp_all
  have h5: "[''src'' \<mapsto> map VF64 [Fin 0, Fin 1, Fin 2, Fin 3], ''dst'' \<mapsto> replicate 5 (VF64 (Fin 0))] ''src'' = Some (map VF64 [Fin 0, Fin 1, Fin 2, Fin 3])"
    and h6: "2 * 2 * 1 \<le> length [Fin 0, Fin 1, Fin 2, Fin 3]"
    and h7: "[''src'' \<mapsto> map VF64 [Fin 0, Fin 1, Fin 2, Fin 3], ''dst'' \<mapsto> replicate 5 (VF64 (Fin 0))] ''dst'' = Some (replicate 5 (VF64 (Fin 0)))"
    and h8: "set (replicate 5 (VF64 (Fin 0))) \<subseteq> range VF64"
    and h9: "2 + unat (1 :: u32) * (2 + unat (1 :: u32) * 1) + unat (0 :: u32) \<le> length (replicate 5 (VF64 (Fin 0)))"
    and h10: "[Fin 0, Fin 1, Fin 2, Fin 3] ! unat (1 :: u32) \<noteq> [Fin 0, Fin 1, Fin 2, Fin 3] ! 2"
    by (simp_all add: numeral_eq_Suc)
  show ?thesis by (rule smove_overlapping_writes [OF h1 h2 h3 h4 h5 h6 h7 h8 h9 h10])
qed

theorem move_aliased_race_witness:
  "\<exists>ps ps'. mset ps = mset (grid3 (2, 1, 1)) \<and> mset ps' = mset (grid3 (2, 1, 1)) \<and>
     launch (move_thread ''b'' ''b'' (2, 1, 1, 0) 1 (2, 1, 1)) ps [''b'' \<mapsto> map VF64 [Fin 1, Fin 2, Fin 3, Fin 4, Fin 5, Fin 6]] \<noteq>
     launch (move_thread ''b'' ''b'' (2, 1, 1, 0) 1 (2, 1, 1)) ps' [''b'' \<mapsto> map VF64 [Fin 1, Fin 2, Fin 3, Fin 4, Fin 5, Fin 6]]"
proof -
  have h1: "0 < unat (1 :: u32)" and h2: "unat (1 :: u32) < 2" and h3: "0 < (1 :: nat)" and h4: "0 < (1 :: nat)"
    by simp_all
  have h5: "[''b'' \<mapsto> map VF64 [Fin 1, Fin 2, Fin 3, Fin 4, Fin 5, Fin 6]] ''b'' = Some (map VF64 [Fin 1, Fin 2, Fin 3, Fin 4, Fin 5, Fin 6])"
    and h6: "set (map VF64 [Fin 1, Fin 2, Fin 3, Fin 4, Fin 5, Fin 6]) \<subseteq> range VF64"
    and h7: "2 + unat (2 :: u32) * (1 + unat (1 :: u32) * 1) \<le> length (map VF64 [Fin 1, Fin 2, Fin 3, Fin 4, Fin 5, Fin 6])"
    and h8: "2 * 1 * 1 + unat (1 :: u32) \<le> length (map VF64 [Fin 1, Fin 2, Fin 3, Fin 4, Fin 5, Fin 6])"
    and h9: "map VF64 [Fin 1, Fin 2, Fin 3, Fin 4, Fin 5, Fin 6] ! 0 \<noteq> map VF64 [Fin 1, Fin 2, Fin 3, Fin 4, Fin 5, Fin 6] ! unat (1 :: u32)"
    by auto
  show ?thesis by (rule move_aliased_race [where s = "[''b'' \<mapsto> map VF64 [Fin 1, Fin 2, Fin 3, Fin 4, Fin 5, Fin 6]]" and b = "''b''", OF h1 h2 h3 h4 h5 h6 h7 h8 h9])
qed

end
