(* ===== verification/Descriptors.thy ===== *)
theory Descriptors
  imports Prelude
begin

text \<open>
  The kernel-descriptor model. \<open>Kernel\<close> and \<open>SKernel\<close> and the conversion
  \<open>From<&Kernel> for SKernel\<close> are src/src/kernels.rs, lines 7--32. The element-type
  tags (\<open>ConstructorTypes\<close>), the argument constructors (\<open>KernelConstructor\<close>,
  \<open>SKernelConstructor\<close>) and the dependency declarations (\<open>Needed\<close>, \<open>SNeeded\<close>)
  live in \<open>crate::descriptors\<close> and \<open>crate::functions\<close>, which are not among the
  sources: they are modelled from the specification (section 3), with the constructors
  the catalog uses. The borrowed \<open>&'a str\<close> and the owned \<open>String\<close> are both
  \<open>string\<close>. The serialization of \<open>SKernel\<close> is derived by serde and not part of
  the sources, so it is not modelled.
\<close>

datatype ConstructorTypes = CU32 | CU64 | CF64 | CU32_4 | CF64_2

datatype KernelConstructor = KCBuffer string ConstructorTypes | KCParam string ConstructorTypes

datatype SKernelConstructor = SKCBuffer string ConstructorTypes | SKCParam string ConstructorTypes

datatype Needed = FuncName string

datatype SNeeded = SFuncName string

record Kernel =
  kname :: string
  kargs :: "KernelConstructor list"
  ksrc :: string
  kneeded :: "Needed list"

record SKernel =
  sname :: string
  sargs :: "SKernelConstructor list"
  ssrc :: string
  sneeded :: "SNeeded list"

fun skc_of_kc :: "KernelConstructor \<Rightarrow> SKernelConstructor" where
  "skc_of_kc (KCBuffer n t) = SKCBuffer n t"
| "skc_of_kc (KCParam n t) = SKCParam n t"

fun sneeded_of_needed :: "Needed \<Rightarrow> SNeeded" where
  "sneeded_of_needed (FuncName n) = SFuncName n"

text \<open>\<open>impl<'a> From<&Kernel<'a>> for SKernel\<close>.\<close>

definition skernel_of_kernel :: "'a Kernel_scheme \<Rightarrow> SKernel" where
  "skernel_of_kernel f =
     \<lparr>sname = kname f,
      sargs = map skc_of_kc (kargs f),
      ssrc = ksrc f,
      sneeded = map sneeded_of_needed (kneeded f)\<rparr>"

fun kc_name :: "KernelConstructor \<Rightarrow> string" where
  "kc_name (KCBuffer n t) = n"
| "kc_name (KCParam n t) = n"

fun needed_name :: "Needed \<Rightarrow> string" where
  "needed_name (FuncName n) = n"

section \<open>Lemmas\<close>

lemma skc_of_kc_inj: "skc_of_kc a = skc_of_kc b \<Longrightarrow> a = b"
  by (cases a; cases b) simp_all

lemma sneeded_of_needed_inj: "sneeded_of_needed a = sneeded_of_needed b \<Longrightarrow> a = b"
  by (cases a; cases b) simp_all

subsection \<open>Properties of the descriptor model\<close>

text \<open>
  C17. The conversion \<open>From<&Kernel> for SKernel\<close> loses nothing: distinct descriptors
  have distinct owned mirrors.
\<close>

theorem skernel_of_kernel_injective: "inj (skernel_of_kernel :: Kernel \<Rightarrow> SKernel)"
proof (rule injI)
  fix a b :: Kernel
  assume eq: "skernel_of_kernel a = skernel_of_kernel b"
  have "kargs a = kargs b"
    using eq by (simp add: skernel_of_kernel_def inj_map_eq_map inj_on_def skc_of_kc_inj)
  moreover have "kneeded a = kneeded b"
    using eq by (simp add: skernel_of_kernel_def inj_map_eq_map inj_on_def sneeded_of_needed_inj)
  ultimately show "a = b"
    using eq by (simp add: skernel_of_kernel_def)
qed

end
