(* ===== verification/Catalog.thy ===== *)
theory Catalog
  imports Descriptors
begin

text \<open>
  The catalog \<open>kernels()\<close> of src/src/kernels.rs (lines 92--305): thirty descriptors,
  one definition each with the source text exactly as the code has it, collected into a
  map from name to descriptor by \<open>into_iter().map(|k| (k.name,k)).collect()\<close>. The
  PRNG bodies are built by the macro \<open>random!\<close> (lines 34--90): one definition per
  round core, and \<open>random_more\<close> for the arm that appends a suffix with
  \<open>concat!\<close>.

  A \<open>HashMap\<close> built by \<open>collect()\<close> inserts the pairs in order, a later pair
  replacing an earlier one with the same key: \<open>catalog_of\<close> is that fold of map
  updates. The catalog checks (\<open>deps_exact\<close>, \<open>args_ok\<close>) are executable scans of
  the source text, evaluated by \<open>simp\<close> on the thirty entries.
\<close>

definition random_philox4x32_10 :: string where
  "random_philox4x32_10 = ''    uint key[2] = {x>>32,x};
    const uint l = 4;
    const uint M = 0xD2511F53;
    const uint M2 = 0xCD9E8D57;
    for(int i = 0;i<10;i++){
        uint hi0 = mul_hi(M,src[x*l+0]);
        uint lo0 = M * src[x*l+0];
        uint hi1 = mul_hi(M,src[x*l+2]);
        uint lo1 = M2 * src[x*l+2];
        src[x*l+0] = hi1^key[1]^src[x*l+3];
        src[x*l+2] = hi0^key[0]^src[x*l+1];
        src[x*l+1] = lo0;
        src[x*l+3] = lo1;
        key[0] += 0x9E3779B9;
        key[1] += 0xBB67AE85;
    }
''"

definition random_philox2x64_10 :: string where
  "random_philox2x64_10 = ''    ulong key = x;
    const uint l = 2;
    const ulong M = 0xD2B74407B1CE6E93;
    for(int i = 0;i<10;i++){
        ulong hi = mul_hi(M,src[x*l+0]);
        ulong lo = M * src[x*l+0];
        src[x*l+0] = hi^key^src[x*l+1];
        src[x*l+1] = lo;
        key += 0x9E3779B97F4A7C15;
    }
''"

definition random_philox4x64_10 :: string where
  "random_philox4x64_10 = ''    ulong key[2] = {0,x};
    const uint l = 4;
    const ulong M = 0xD2B74407B1CE6E93;
    const ulong M2 = 0xCA5A826395121157;
    for(int i = 0;i<10;i++){
        ulong hi0 = mul_hi(M,src[x*l+0]);
        ulong lo0 = M * src[x*l+0];
        ulong hi1 = mul_hi(M,src[x*l+2]);
        ulong lo1 = M2 * src[x*l+2];
        src[x*l+0] = hi1^key[1]^src[x*l+3];
        src[x*l+2] = hi0^key[0]^src[x*l+1];
        src[x*l+1] = lo0;
        src[x*l+3] = lo1;
        key[0] += 0x9E3779B97F4A7C15;
        key[1] += 0xBB67AE8584CAA73B;
    }
''"

text \<open>\<open>($name:ident, $more:literal) => concat!(random!($name),$more)\<close>.\<close>

definition random_more :: "string \<Rightarrow> string \<Rightarrow> string" where
  "random_more core tail = core @ tail"

definition k_philox2x64_10 :: Kernel where
  "k_philox2x64_10 =
     \<lparr>kname = ''philox2x64_10'',
      kargs = [KCBuffer ''src'' CU64],
      ksrc = random_philox2x64_10,
      kneeded = []\<rparr>"

definition k_philox2x64_10_unit :: Kernel where
  "k_philox2x64_10_unit =
     \<lparr>kname = ''philox2x64_10_unit'',
      kargs = [KCBuffer ''src'' CU64, KCBuffer ''dst'' CF64],
      ksrc = random_more random_philox2x64_10
       ''    for(uint i = 0;i<l;i++)
        dst[x*l+i] = (double)(src[x*l+i]>>11)/(1l << 53);'',
      kneeded = []\<rparr>"

definition k_philox2x64_10_normal :: Kernel where
  "k_philox2x64_10_normal =
     \<lparr>kname = ''philox2x64_10_normal'',
      kargs = [KCBuffer ''src'' CU64, KCBuffer ''dst'' CF64],
      ksrc = random_more random_philox2x64_10
       ''    for(uint i = 0;i<l;i+=2) {
        double u1 = (double)(src[x*l+i]>>11)/(1l << 53);
        double u2 = (double)(src[x*l+i+1]>>11)/(1l << 53);
        dst[x*l+i] = sqrt(-2*log(u1))*cos(2*M_PI*u2);
        dst[x*l+i+1] = sqrt(-2*log(u1))*sin(2*M_PI*u2);
    }'',
      kneeded = []\<rparr>"

definition k_philox4x64_10 :: Kernel where
  "k_philox4x64_10 =
     \<lparr>kname = ''philox4x64_10'',
      kargs = [KCBuffer ''src'' CU64],
      ksrc = random_philox4x64_10,
      kneeded = []\<rparr>"

definition k_philox4x64_10_unit :: Kernel where
  "k_philox4x64_10_unit =
     \<lparr>kname = ''philox4x64_10_unit'',
      kargs = [KCBuffer ''src'' CU64, KCBuffer ''dst'' CF64],
      ksrc = random_more random_philox4x64_10
       ''    for(uint i = 0;i<l;i++)
        dst[x*l+i] = (double)(src[x*l+i]>>11)/(1l << 53);'',
      kneeded = []\<rparr>"

definition k_philox4x64_10_normal :: Kernel where
  "k_philox4x64_10_normal =
     \<lparr>kname = ''philox4x64_10_normal'',
      kargs = [KCBuffer ''src'' CU64, KCBuffer ''dst'' CF64],
      ksrc = random_more random_philox4x64_10
       ''    for(uint i = 0;i<l;i+=2) {
        double u1 = (double)(src[x*l+i]>>11)/(1l << 53);
        double u2 = (double)(src[x*l+i+1]>>11)/(1l << 53);
        dst[x*l+i] = sqrt(-2*log(u1))*cos(2*M_PI*u2);
        dst[x*l+i+1] = sqrt(-2*log(u1))*sin(2*M_PI*u2);
    }'',
      kneeded = []\<rparr>"

definition k_philox4x32_10 :: Kernel where
  "k_philox4x32_10 =
     \<lparr>kname = ''philox4x32_10'',
      kargs = [KCBuffer ''src'' CU32],
      ksrc = random_philox4x32_10,
      kneeded = []\<rparr>"

definition k_philox4x32_10_unit :: Kernel where
  "k_philox4x32_10_unit =
     \<lparr>kname = ''philox4x32_10_unit'',
      kargs = [KCBuffer ''src'' CU32, KCBuffer ''dst'' CF64],
      ksrc = random_more random_philox4x32_10
       ''    const uint l2 = l/2;
    for(uint i = 0;i<l2;i++)
        dst[x*l2+i] = (double)(((((ulong)src[x*l+i*2])<<32)+src[x*l+i*2+1])>>11)/(1l << 53);'',
      kneeded = []\<rparr>"

definition k_philox4x32_10_normal :: Kernel where
  "k_philox4x32_10_normal =
     \<lparr>kname = ''philox4x32_10_normal'',
      kargs = [KCBuffer ''src'' CU32, KCBuffer ''dst'' CF64],
      ksrc = random_more random_philox4x32_10
       ''    const uint l2 = l/2;
    for(uint i = 0;i<l2;i+=2) {
        double u1 = (double)(((((ulong)src[x*l+i])<<32)+src[x*l+i+1])>>11)/(1l << 53);
        double u2 = (double)(((((ulong)src[x*l+i+2])<<32)+src[x*l+i+3])>>11)/(1l << 53);
        dst[x*l2+i] = sqrt(-2*log(u1))*cos(2*M_PI*u2);
        dst[x*l2+i+1] = sqrt(-2*log(u1))*sin(2*M_PI*u2);
    }'',
      kneeded = []\<rparr>"

definition k_plus :: Kernel where
  "k_plus =
     \<lparr>kname = ''plus'',
      kargs = [KCBuffer ''a'' CF64, KCBuffer ''b'' CF64, KCBuffer ''dst'' CF64],
      ksrc = ''    dst[x] = a[x]+b[x];'',
      kneeded = []\<rparr>"

definition k_minus :: Kernel where
  "k_minus =
     \<lparr>kname = ''minus'',
      kargs = [KCBuffer ''a'' CF64, KCBuffer ''b'' CF64, KCBuffer ''dst'' CF64],
      ksrc = ''    dst[x] = a[x]-b[x];'',
      kneeded = []\<rparr>"

definition k_times :: Kernel where
  "k_times =
     \<lparr>kname = ''times'',
      kargs = [KCBuffer ''a'' CF64, KCBuffer ''b'' CF64, KCBuffer ''dst'' CF64],
      ksrc = ''    dst[x] = a[x]*b[x];'',
      kneeded = []\<rparr>"

definition k_divides :: Kernel where
  "k_divides =
     \<lparr>kname = ''divides'',
      kargs = [KCBuffer ''a'' CF64, KCBuffer ''b'' CF64, KCBuffer ''dst'' CF64],
      ksrc = ''    dst[x] = a[x]/b[x];'',
      kneeded = []\<rparr>"

definition k_cplus :: Kernel where
  "k_cplus =
     \<lparr>kname = ''cplus'',
      kargs = [KCBuffer ''src'' CF64, KCParam ''c'' CF64, KCBuffer ''dst'' CF64],
      ksrc = ''    dst[x] = src[x]+c;'',
      kneeded = []\<rparr>"

definition k_cminus :: Kernel where
  "k_cminus =
     \<lparr>kname = ''cminus'',
      kargs = [KCBuffer ''src'' CF64, KCParam ''c'' CF64, KCBuffer ''dst'' CF64],
      ksrc = ''    dst[x] = src[x]-c;'',
      kneeded = []\<rparr>"

definition k_ctimes :: Kernel where
  "k_ctimes =
     \<lparr>kname = ''ctimes'',
      kargs = [KCBuffer ''src'' CF64, KCParam ''c'' CF64, KCBuffer ''dst'' CF64],
      ksrc = ''    dst[x] = src[x]*c;'',
      kneeded = []\<rparr>"

definition k_cdivides :: Kernel where
  "k_cdivides =
     \<lparr>kname = ''cdivides'',
      kargs = [KCBuffer ''src'' CF64, KCParam ''c'' CF64, KCBuffer ''dst'' CF64],
      ksrc = ''    dst[x] = src[x]/c;'',
      kneeded = []\<rparr>"

definition k_move :: Kernel where
  "k_move =
     \<lparr>kname = ''move'',
      kargs = [KCBuffer ''src'' CF64, KCBuffer ''dst'' CF64, KCParam ''size'' CU32_4, KCParam ''offset'' CU32],
      ksrc = ''    dst[x+x_size*(y+y_size*z) + offset] = src[x+size.x*(y+size.y*z)];'',
      kneeded = []\<rparr>"

definition k_smove :: Kernel where
  "k_smove =
     \<lparr>kname = ''smove'',
      kargs = [KCBuffer ''src'' CF64, KCBuffer ''dst'' CF64, KCParam ''size'' CU32_4, KCParam ''offset'' CU32],
      ksrc = ''    dst[x+size.x*(y+size.y*z) + offset] = src[x+x_size*(y+y_size*z)];'',
      kneeded = []\<rparr>"

definition k_dmove :: Kernel where
  "k_dmove =
     \<lparr>kname = ''dmove'',
      kargs = [KCBuffer ''src'' CF64, KCBuffer ''dst'' CF64, KCParam ''size'' CU32_4, KCParam ''dst_size'' CU32_4],
      ksrc = ''    dst[dst_size.x*(x+dst_size.y*(y+dst_size.z*z)) + dst_size.w] = src[x+size.x*(y+size.y*z)];'',
      kneeded = []\<rparr>"

definition k_rdmove :: Kernel where
  "k_rdmove =
     \<lparr>kname = ''rdmove'',
      kargs = [KCBuffer ''src'' CF64, KCBuffer ''dst'' CF64, KCParam ''size'' CU32_4, KCParam ''dst_size'' CU32_4],
      ksrc = ''    dst[x+dst_size.y*(y+dst_size.z*(z+dst_size.x*dst_size.w))] = src[x+size.x*(y+size.y*z)];'',
      kneeded = []\<rparr>"

definition k_complex_from_real :: Kernel where
  "k_complex_from_real =
     \<lparr>kname = ''complex_from_real'',
      kargs = [KCBuffer ''src'' CF64, KCBuffer ''dst'' CF64_2],
      ksrc = ''    dst[x] = (double2)(src[x],0);'',
      kneeded = []\<rparr>"

definition k_complex_from_image :: Kernel where
  "k_complex_from_image =
     \<lparr>kname = ''complex_from_image'',
      kargs = [KCBuffer ''src'' CF64, KCBuffer ''dst'' CF64_2],
      ksrc = ''    dst[x] = (double2)(0,src[x]);'',
      kneeded = []\<rparr>"

definition k_real_from_complex :: Kernel where
  "k_real_from_complex =
     \<lparr>kname = ''real_from_complex'',
      kargs = [KCBuffer ''src'' CF64_2, KCBuffer ''dst'' CF64],
      ksrc = ''    dst[x] = src[x].x;'',
      kneeded = []\<rparr>"

definition k_image_from_complex :: Kernel where
  "k_image_from_complex =
     \<lparr>kname = ''image_from_complex'',
      kargs = [KCBuffer ''src'' CF64_2, KCBuffer ''dst'' CF64],
      ksrc = ''    dst[x] = src[x].y;'',
      kneeded = []\<rparr>"

definition k_kc_sqrmod :: Kernel where
  "k_kc_sqrmod =
     \<lparr>kname = ''kc_sqrmod'',
      kargs = [KCBuffer ''src'' CF64_2, KCBuffer ''dst'' CF64],
      ksrc = ''    dst[x] = c_sqrmod(src[x]);'',
      kneeded = [FuncName ''c_sqrmod'']\<rparr>"

definition k_kc_mod :: Kernel where
  "k_kc_mod =
     \<lparr>kname = ''kc_mod'',
      kargs = [KCBuffer ''src'' CF64_2, KCBuffer ''dst'' CF64],
      ksrc = ''    dst[x] = c_mod(src[x]);'',
      kneeded = [FuncName ''c_mod'']\<rparr>"

definition k_kc_times :: Kernel where
  "k_kc_times =
     \<lparr>kname = ''kc_times'',
      kargs = [KCBuffer ''a'' CF64_2, KCBuffer ''b'' CF64_2, KCBuffer ''dst'' CF64_2],
      ksrc = ''    dst[x] = c_times(a[x],b[x]);'',
      kneeded = [FuncName ''c_times'']\<rparr>"

definition k_kc_times_conj :: Kernel where
  "k_kc_times_conj =
     \<lparr>kname = ''kc_times_conj'',
      kargs = [KCBuffer ''a'' CF64_2, KCBuffer ''b'' CF64_2, KCBuffer ''dst'' CF64_2],
      ksrc = ''    dst[x] = c_times_conj(a[x],b[x]);'',
      kneeded = [FuncName ''c_times_conj'']\<rparr>"

definition k_kc_divides :: Kernel where
  "k_kc_divides =
     \<lparr>kname = ''kc_divides'',
      kargs = [KCBuffer ''a'' CF64_2, KCBuffer ''b'' CF64_2, KCBuffer ''dst'' CF64_2],
      ksrc = ''    dst[x] = c_divides(a[x],b[x]);'',
      kneeded = [FuncName ''c_divides'']\<rparr>"

definition kernels_list :: "Kernel list" where
  "kernels_list =
    [k_philox2x64_10,
     k_philox2x64_10_unit,
     k_philox2x64_10_normal,
     k_philox4x64_10,
     k_philox4x64_10_unit,
     k_philox4x64_10_normal,
     k_philox4x32_10,
     k_philox4x32_10_unit,
     k_philox4x32_10_normal,
     k_plus,
     k_minus,
     k_times,
     k_divides,
     k_cplus,
     k_cminus,
     k_ctimes,
     k_cdivides,
     k_move,
     k_smove,
     k_dmove,
     k_rdmove,
     k_complex_from_real,
     k_complex_from_image,
     k_real_from_complex,
     k_image_from_complex,
     k_kc_sqrmod,
     k_kc_mod,
     k_kc_times,
     k_kc_times_conj,
     k_kc_divides]"

definition catalog_of :: "Kernel list \<Rightarrow> string \<rightharpoonup> Kernel" where
  "catalog_of ks = fold (\<lambda>k m. m(kname k \<mapsto> k)) ks Map.empty"

definition kernels :: "string \<rightharpoonup> Kernel" where
  "kernels = catalog_of kernels_list"

subsection \<open>Checks on the catalog\<close>

text \<open>
  The specification leaves two author contracts unchecked by the code (section 9): that
  the declared \<open>needed\<close> functions are exactly the shared functions the body calls,
  and that the body uses the declared arguments. \<open>calls body f\<close> holds when
  \<open>f(\<close> occurs in the body.
\<close>

definition calls :: "string \<Rightarrow> string \<Rightarrow> bool" where
  "calls body f = occurs (f @ ''('') body"

definition shared_functions :: "Kernel list \<Rightarrow> string list" where
  "shared_functions ks = remdups (concat (map (\<lambda>k. map needed_name (kneeded k)) ks))"

definition deps_exact :: "string list \<Rightarrow> Kernel \<Rightarrow> bool" where
  "deps_exact fs k = list_all (\<lambda>f. calls (ksrc k) f = (FuncName f \<in> set (kneeded k))) fs"

text \<open>
  Identifiers as the OpenCL lexer reads them: a use of an argument is a token, so
  \<open>c\<close> inside \<open>src\<close> or \<open>size\<close> inside \<open>x_size\<close> is not a use. \<open>token_occurs P ok s\<close>
  holds when \<open>P\<close> holds of a suffix of \<open>s\<close> that starts a token (\<open>ok\<close>: the
  character before it is not part of an identifier).
\<close>

definition ident_char :: "char \<Rightarrow> bool" where
  "ident_char c = (let n = of_char c :: nat
                   in (48 \<le> n \<and> n \<le> 57) \<or> (65 \<le> n \<and> n \<le> 90) \<or> (97 \<le> n \<and> n \<le> 122) \<or> n = 95)"

fun token_occurs :: "(string \<Rightarrow> bool) \<Rightarrow> bool \<Rightarrow> string \<Rightarrow> bool" where
  "token_occurs P ok [] = False"
| "token_occurs P ok (c # s) = ((ok \<and> P (c # s)) \<or> token_occurs P (\<not> ident_char c) s)"

definition ident_prefix :: "string \<Rightarrow> string \<Rightarrow> bool" where
  "ident_prefix n s = (prefix n s \<and> (case drop (length n) s of [] \<Rightarrow> True | d # _ \<Rightarrow> \<not> ident_char d))"

text \<open>
  A buffer argument is used when its name, as a token, is indexed (\<open>name[\<close>); a scalar
  parameter when its name occurs as a token (\<open>c\<close>, \<open>offset\<close>, or \<open>size\<close> in
  \<open>size.x\<close>).
\<close>

fun arg_used :: "string \<Rightarrow> KernelConstructor \<Rightarrow> bool" where
  "arg_used body (KCBuffer n t) = token_occurs (prefix (n @ ''['')) True body"
| "arg_used body (KCParam n t) = token_occurs (ident_prefix n) True body"

definition args_ok :: "Kernel \<Rightarrow> bool" where
  "args_ok k = (distinct (map kc_name (kargs k)) \<and> list_all (arg_used (ksrc k)) (kargs k))"

declare kernels_list_def [catalog_defs]
  k_philox2x64_10_def [catalog_defs]
  k_philox2x64_10_unit_def [catalog_defs]
  k_philox2x64_10_normal_def [catalog_defs]
  k_philox4x64_10_def [catalog_defs]
  k_philox4x64_10_unit_def [catalog_defs]
  k_philox4x64_10_normal_def [catalog_defs]
  k_philox4x32_10_def [catalog_defs]
  k_philox4x32_10_unit_def [catalog_defs]
  k_philox4x32_10_normal_def [catalog_defs]
  k_plus_def [catalog_defs]
  k_minus_def [catalog_defs]
  k_times_def [catalog_defs]
  k_divides_def [catalog_defs]
  k_cplus_def [catalog_defs]
  k_cminus_def [catalog_defs]
  k_ctimes_def [catalog_defs]
  k_cdivides_def [catalog_defs]
  k_move_def [catalog_defs]
  k_smove_def [catalog_defs]
  k_dmove_def [catalog_defs]
  k_rdmove_def [catalog_defs]
  k_complex_from_real_def [catalog_defs]
  k_complex_from_image_def [catalog_defs]
  k_real_from_complex_def [catalog_defs]
  k_image_from_complex_def [catalog_defs]
  k_kc_sqrmod_def [catalog_defs]
  k_kc_mod_def [catalog_defs]
  k_kc_times_def [catalog_defs]
  k_kc_times_conj_def [catalog_defs]
  k_kc_divides_def [catalog_defs]

section \<open>Lemmas\<close>

lemma catalog_of_fold:
  "fold (\<lambda>k m. m(kname k \<mapsto> k)) ks m = m ++ map_of (rev (map (\<lambda>k. (kname k, k)) ks))"
  by (induction ks arbitrary: m) (simp_all add: map_add_def map_of_append fun_eq_iff split: option.splits)

lemma catalog_of_map_of: "catalog_of ks = map_of (rev (map (\<lambda>k. (kname k, k)) ks))"
  by (simp add: catalog_of_def catalog_of_fold)

lemma catalog_of_Some: "catalog_of ks n = Some k \<Longrightarrow> kname k = n \<and> k \<in> set ks"
  unfolding catalog_of_map_of by (auto dest: map_of_SomeD)

lemma catalog_of_complete:
  "distinct (map kname ks) \<Longrightarrow> k \<in> set ks \<Longrightarrow> catalog_of ks (kname k) = Some k"
  unfolding catalog_of_map_of by (rule map_of_is_SomeI) (auto simp: rev_map [symmetric] o_def)

lemma dom_catalog_of: "dom (catalog_of ks) = kname ` set ks"
  by (simp add: catalog_of_map_of dom_map_of_conv_image_fst image_image)

lemma kernels_names:
  "map kname kernels_list = [''philox2x64_10'', ''philox2x64_10_unit'', ''philox2x64_10_normal'', ''philox4x64_10'', ''philox4x64_10_unit'', ''philox4x64_10_normal'', ''philox4x32_10'', ''philox4x32_10_unit'', ''philox4x32_10_normal'', ''plus'', ''minus'', ''times'', ''divides'', ''cplus'', ''cminus'', ''ctimes'', ''cdivides'', ''move'', ''smove'', ''dmove'', ''rdmove'', ''complex_from_real'', ''complex_from_image'', ''real_from_complex'', ''image_from_complex'', ''kc_sqrmod'', ''kc_mod'', ''kc_times'', ''kc_times_conj'', ''kc_divides'']"
  by (simp add: catalog_defs)

lemma kernels_list_distinct: "distinct (map kname kernels_list)"
  by (simp add: kernels_names)

lemma kernels_map_of: "kernels = map_of (rev (zip (map kname kernels_list) kernels_list))"
  by (simp add: kernels_def catalog_of_map_of zip_map_self)

lemma random_more_no_pair:
  "\<not> occurs [x, y] a \<Longrightarrow> \<not> occurs [x, y] b \<Longrightarrow> last a \<noteq> x \<Longrightarrow> \<not> occurs [x, y] (random_more a b)"
  unfolding random_more_def using occurs_pair_append [of x y a b] by auto

lemma token_occurs_mono: "token_occurs P False s \<Longrightarrow> token_occurs P ok s"
  by (cases s) auto

text \<open>A use in the core or in the suffix of a \<open>random!\<close> body is a use in the body.\<close>

lemma token_occurs_core:
  "token_occurs (prefix p) ok a \<Longrightarrow> token_occurs (prefix p) ok (random_more a b) = True"
  unfolding random_more_def by (induction a arbitrary: ok) (auto dest: prefix_prefix [where zs = b])

lemma token_occurs_suffix:
  "token_occurs P False b \<Longrightarrow> token_occurs P ok (random_more a b) = True"
  unfolding random_more_def by (induction a arbitrary: ok) (auto intro: token_occurs_mono)

lemma random_more_occurs: "occurs p b \<Longrightarrow> occurs p (random_more a b) = True"
  unfolding random_more_def by (simp add: occurs_append_right)

lemma cores_no_shared_call:
  "\<not> occurs ''c_'' random_philox2x64_10 \<and> last random_philox2x64_10 \<noteq> CHR ''c''"
  "\<not> occurs ''c_'' random_philox4x64_10 \<and> last random_philox4x64_10 \<noteq> CHR ''c''"
  "\<not> occurs ''c_'' random_philox4x32_10 \<and> last random_philox4x32_10 \<noteq> CHR ''c''"
  by (simp_all add: random_philox2x64_10_def random_philox4x64_10_def random_philox4x32_10_def)

lemma deps_exact_no_call:
  "\<not> occurs ''c_'' (ksrc k) \<Longrightarrow> kneeded k = [] \<Longrightarrow> list_all (\<lambda>f. occurs ''c_'' (f @ ''('')) fs \<Longrightarrow>
   deps_exact fs k"
  unfolding deps_exact_def calls_def list_all_iff by (auto dest: occurs_trans)

lemma prng_no_shared_call:
  "list_all (\<lambda>k. \<not> occurs ''c_'' (ksrc k) \<and> kneeded k = []) [k_philox2x64_10, k_philox2x64_10_unit, k_philox2x64_10_normal, k_philox4x64_10, k_philox4x64_10_unit, k_philox4x64_10_normal, k_philox4x32_10, k_philox4x32_10_unit, k_philox4x32_10_normal]"
  using cores_no_shared_call
  by (simp add: k_philox2x64_10_def k_philox2x64_10_unit_def k_philox2x64_10_normal_def k_philox4x64_10_def k_philox4x64_10_unit_def k_philox4x64_10_normal_def k_philox4x32_10_def k_philox4x32_10_unit_def k_philox4x32_10_normal_def random_more_no_pair)

lemma shared_functions_catalog:
  "shared_functions kernels_list = [''c_sqrmod'', ''c_mod'', ''c_times'', ''c_times_conj'', ''c_divides'']"
  by (simp add: shared_functions_def catalog_defs)

lemma kernels_list_split:
  "kernels_list = [k_philox2x64_10, k_philox2x64_10_unit, k_philox2x64_10_normal, k_philox4x64_10, k_philox4x64_10_unit, k_philox4x64_10_normal, k_philox4x32_10, k_philox4x32_10_unit, k_philox4x32_10_normal] @
                  [k_plus, k_minus, k_times, k_divides, k_cplus, k_cminus, k_ctimes, k_cdivides, k_move, k_smove, k_dmove, k_rdmove, k_complex_from_real, k_complex_from_image, k_real_from_complex, k_image_from_complex, k_kc_sqrmod, k_kc_mod, k_kc_times, k_kc_times_conj, k_kc_divides]"
  by (simp add: kernels_list_def)

lemma rest_deps_exact:
  "list_all (deps_exact [''c_sqrmod'', ''c_mod'', ''c_times'', ''c_times_conj'', ''c_divides''])
     [k_plus, k_minus, k_times, k_divides, k_cplus, k_cminus, k_ctimes, k_cdivides, k_move, k_smove, k_dmove, k_rdmove, k_complex_from_real, k_complex_from_image, k_real_from_complex, k_image_from_complex, k_kc_sqrmod, k_kc_mod, k_kc_times, k_kc_times_conj, k_kc_divides]"
  by (simp add: deps_exact_def calls_def k_plus_def k_minus_def k_times_def k_divides_def k_cplus_def k_cminus_def k_ctimes_def k_cdivides_def k_move_def k_smove_def k_dmove_def k_rdmove_def k_complex_from_real_def k_complex_from_image_def k_real_from_complex_def k_image_from_complex_def k_kc_sqrmod_def k_kc_mod_def k_kc_times_def k_kc_times_conj_def k_kc_divides_def)

subsection \<open>Properties of the catalog\<close>

text \<open>
  C13. Catalog integrity: the catalog's names are the names of its thirty entries and no
  two entries share one (as many names as entries), so no descriptor is lost by the
  \<open>collect()\<close>.
\<close>

theorem catalog_integrity:
  "dom kernels = set (map kname kernels_list) \<and> card (dom kernels) = length kernels_list"
proof -
  have "dom kernels = set (map kname kernels_list)"
    by (simp add: kernels_def dom_catalog_of)
  moreover have "card (set (map kname kernels_list)) = length kernels_list"
    using distinct_card [OF kernels_list_distinct] by simp
  ultimately show ?thesis by simp
qed

text \<open>
  C14. Lookup in \<open>kernels()\<close> is exact: a name maps to a descriptor exactly when that
  descriptor is in the list and carries the name, so a successful lookup returns the
  descriptor whose \<open>name\<close> is the key, and every descriptor is found under its own name.
\<close>

theorem catalog_lookup_exact: "kernels n = Some k \<longleftrightarrow> k \<in> set kernels_list \<and> kname k = n"
proof
  assume "kernels n = Some k"
  then show "k \<in> set kernels_list \<and> kname k = n"
    unfolding kernels_def by (auto dest: catalog_of_Some)
next
  assume "k \<in> set kernels_list \<and> kname k = n"
  then show "kernels n = Some k"
    unfolding kernels_def using catalog_of_complete [OF kernels_list_distinct] by blast
qed

text \<open>
  C15. Dependency closure: the shared functions the catalog declares are
  \<open>c_sqrmod, c_mod, c_times, c_times_conj, c_divides\<close>, and every descriptor calls
  each of them exactly when its \<open>needed\<close> list declares it (so \<open>kc_times_conj\<close>,
  whose body contains \<open>c_times\<close>, does not call \<open>c_times\<close>).
\<close>

theorem catalog_dependency_closure:
  "shared_functions kernels_list = [''c_sqrmod'', ''c_mod'', ''c_times'', ''c_times_conj'', ''c_divides''] \<and>
   list_all (deps_exact (shared_functions kernels_list)) kernels_list"
proof -
  have "list_all (deps_exact [''c_sqrmod'', ''c_mod'', ''c_times'', ''c_times_conj'', ''c_divides''])
     [k_philox2x64_10, k_philox2x64_10_unit, k_philox2x64_10_normal, k_philox4x64_10, k_philox4x64_10_unit, k_philox4x64_10_normal, k_philox4x32_10, k_philox4x32_10_unit, k_philox4x32_10_normal]"
    using prng_no_shared_call by (simp add: deps_exact_no_call)
  then have "list_all (deps_exact [''c_sqrmod'', ''c_mod'', ''c_times'', ''c_times_conj'', ''c_divides''])
     kernels_list"
    using rest_deps_exact by (simp add: kernels_list_split)
  then show ?thesis by (simp add: shared_functions_catalog)
qed

text \<open>
  C16. Every descriptor's argument names are distinct, every buffer argument is indexed
  in its body (\<open>name[\<close> with \<open>name\<close> a whole token) and every scalar parameter
  occurs there as a whole identifier token.
\<close>

theorem catalog_arguments_used: "list_all args_ok kernels_list"
  by (simp add: args_ok_def catalog_defs token_occurs_core token_occurs_suffix ident_prefix_def ident_char_def
                random_philox2x64_10_def random_philox4x64_10_def random_philox4x32_10_def)

end
