(* ===== verification/Harness.thy ===== *)
theory Harness
  imports Elementwise Catalog
begin

text \<open>
  The example program src/examples/random.rs and the part of the handler it drives.
  The handler (\<open>gpgpu::Handler\<close>) is not among the sources: its builder, its build step
  with the resolution of the \<open>needed\<close> functions, and its argument binder are modelled
  from the specification (sections 4.2, 6 and 7), with the error kinds
  \<open>UnknownKernelName\<close>, \<open>UnresolvedDependency\<close> and \<open>ArgumentMismatch\<close>. Buffers are
  known to the binder by element type and length. The builder collects requests and
  \<open>build()\<close> checks them, since the builder calls of random.rs are chained without
  \<open>?\<close>; \<open>?\<close> on \<open>build()\<close> and \<open>set_arg\<close> returns the first error from \<open>main\<close>.
  The algorithm \<open>moments\<close> (\<open>gpgpu::algorithms\<close>, not in the sources) is a parameter
  of the model of \<open>main\<close>: the contents of \<open>dst\<close> it leaves after a run on \<open>num\<close>.
\<close>

text \<open>Initial values of \<open>descriptors::Type\<close>, buffer constructors, kernel arguments.\<close>

datatype Type = U64 u64 | F64 real

datatype BufferConstructor = Len Type nat

datatype KernelArg = Buffer string | BufArg string string

datatype handler_error =
    UnknownKernelName string
  | UnresolvedDependency string
  | ArgumentMismatch string

record builder =
  bbuffers :: "(string \<times> BufferConstructor) list"
  bkernels :: "(string \<times> string) list"
  balgorithms :: "string list"

record handler =
  hbuffers :: "string \<rightharpoonup> ConstructorTypes \<times> nat"
  hkernels :: "string \<rightharpoonup> Kernel"
  hargs :: "string \<rightharpoonup> string list"

definition builder0 :: builder where
  "builder0 = \<lparr>bbuffers = [], bkernels = [], balgorithms = []\<rparr>"

definition add_buffer :: "string \<Rightarrow> BufferConstructor \<Rightarrow> builder \<Rightarrow> builder" where
  "add_buffer n c b = b\<lparr>bbuffers := bbuffers b @ [(n, c)]\<rparr>"

definition load_kernel_named :: "string \<Rightarrow> string \<Rightarrow> builder \<Rightarrow> builder" where
  "load_kernel_named name alias b = b\<lparr>bkernels := bkernels b @ [(name, alias)]\<rparr>"

definition load_algorithm :: "string \<Rightarrow> builder \<Rightarrow> builder" where
  "load_algorithm a b = b\<lparr>balgorithms := balgorithms b @ [a]\<rparr>"

fun type_of :: "Type \<Rightarrow> ConstructorTypes" where
  "type_of (U64 v) = CU64"
| "type_of (F64 v) = CF64"

fun buffer_entry :: "string \<times> BufferConstructor \<Rightarrow> string \<times> ConstructorTypes \<times> nat" where
  "buffer_entry (n, Len v l) = (n, type_of v, l)"

text \<open>
  Dependency resolution: each \<open>needed\<close> name is looked up in the shared-function table
  (name and device source) and the sources are concatenated, in the order of
  \<open>needed\<close>, ahead of the kernel body.
\<close>

fun resolve_needed :: "(string \<times> string) list \<Rightarrow> Needed list \<Rightarrow> handler_error + string" where
  "resolve_needed funcs [] = Inr ''''"
| "resolve_needed funcs (FuncName f # ns) =
     (case map_of funcs f of
        None \<Rightarrow> Inl (UnresolvedDependency f)
      | Some src \<Rightarrow> (case resolve_needed funcs ns of Inl e \<Rightarrow> Inl e | Inr rest \<Rightarrow> Inr (src @ rest)))"

definition compile_src :: "(string \<times> string) list \<Rightarrow> Kernel \<Rightarrow> handler_error + string" where
  "compile_src funcs k = (case resolve_needed funcs (kneeded k) of Inl e \<Rightarrow> Inl e | Inr pre \<Rightarrow> Inr (pre @ ksrc k))"

fun load_all ::
  "(string \<times> string) list \<Rightarrow> (string \<times> string) list \<Rightarrow> (string \<rightharpoonup> Kernel) \<Rightarrow> handler_error + (string \<rightharpoonup> Kernel)" where
  "load_all funcs [] m = Inr m"
| "load_all funcs ((name, alias) # ls) m =
     (case kernels name of
        None \<Rightarrow> Inl (UnknownKernelName name)
      | Some k \<Rightarrow> (case compile_src funcs k of Inl e \<Rightarrow> Inl e | Inr _ \<Rightarrow> load_all funcs ls (m(alias \<mapsto> k))))"

definition build :: "(string \<times> string) list \<Rightarrow> builder \<Rightarrow> handler_error + handler" where
  "build funcs b =
     (case load_all funcs (bkernels b) Map.empty of
        Inl e \<Rightarrow> Inl e
      | Inr ks \<Rightarrow> Inr \<lparr>hbuffers = map_of (rev (map buffer_entry (bbuffers b))), hkernels = ks, hargs = Map.empty\<rparr>)"

text \<open>
  The binder: the caller's arguments are matched with the descriptor's \<open>args\<close> by
  position. \<open>Buffer b\<close> binds buffer \<open>b\<close> to the argument named \<open>b\<close>, \<open>BufArg b n\<close>
  binds buffer \<open>b\<close> to the argument named \<open>n\<close>; the buffer must exist, and a
  scalar parameter cannot be bound to a buffer. The buffer's element type is not
  compared with the argument's: random.rs binds the \<open>U64\<close> buffer \<open>src\<close> to the
  \<open>uint\<close> argument \<open>src\<close> of \<open>philox4x32_10_normal\<close> (line 27), and the device
  reads it as twice as many 32-bit lanes.
\<close>

fun bind_arg :: "(string \<rightharpoonup> ConstructorTypes \<times> nat) \<Rightarrow> KernelConstructor \<Rightarrow> KernelArg \<Rightarrow> string option" where
  "bind_arg bufs (KCBuffer n t) (Buffer b) = (if b = n \<and> bufs b \<noteq> None then Some b else None)"
| "bind_arg bufs (KCBuffer n t) (BufArg b n') = (if n' = n \<and> bufs b \<noteq> None then Some b else None)"
| "bind_arg bufs (KCParam n t) a = None"

definition set_arg :: "string \<Rightarrow> KernelArg list \<Rightarrow> handler \<Rightarrow> handler_error + handler" where
  "set_arg alias args h =
     (case hkernels h alias of
        None \<Rightarrow> Inl (UnknownKernelName alias)
      | Some k \<Rightarrow>
          (if length args = length (kargs k) then
             (case those (map2 (bind_arg (hbuffers h)) (kargs k) args) of
                None \<Rightarrow> Inl (ArgumentMismatch alias)
              | Some bs \<Rightarrow> Inr (h\<lparr>hargs := (hargs h)(alias \<mapsto> bs)\<rparr>))
           else Inl (ArgumentMismatch alias)))"

subsection \<open>random.rs\<close>

definition random_len :: nat where
  "random_len = 2 ^ 17"

text \<open>Lines 12--23: the builder chain.\<close>

definition random_builder :: "u64 \<Rightarrow> builder" where
  "random_builder time =
     (load_algorithm ''moments'' \<circ>
      load_kernel_named ''philox4x32_10_normal'' ''noise32'' \<circ>
      load_kernel_named ''philox4x64_10_normal'' ''noise4'' \<circ>
      load_kernel_named ''philox2x64_10_normal'' ''noise'' \<circ>
      add_buffer ''dst'' (Len (F64 0) 4) \<circ>
      add_buffer ''dstsum'' (Len (F64 0) random_len) \<circ>
      add_buffer ''sum'' (Len (F64 0) random_len) \<circ>
      add_buffer ''tmp'' (Len (F64 0) random_len) \<circ>
      add_buffer ''num'' (Len (F64 0) random_len) \<circ>
      add_buffer ''src'' (Len (U64 time) random_len)) builder0"

text \<open>Lines 12--27: \<open>build()?\<close> and the three \<open>set_arg(..)?\<close>.\<close>

definition random_setup :: "(string \<times> string) list \<Rightarrow> u64 \<Rightarrow> handler_error + handler" where
  "random_setup funcs time =
     (case build funcs (random_builder time) of
        Inl e \<Rightarrow> Inl e
      | Inr h \<Rightarrow>
          (case set_arg ''noise'' [Buffer ''src'', BufArg ''num'' ''dst''] h of
             Inl e \<Rightarrow> Inl e
           | Inr h \<Rightarrow>
               (case set_arg ''noise4'' [Buffer ''src'', BufArg ''num'' ''dst''] h of
                  Inl e \<Rightarrow> Inl e
                | Inr h \<Rightarrow> set_arg ''noise32'' [Buffer ''src'', BufArg ''num'' ''dst''] h)))"

text \<open>Line 35: \<open>gpu.run("noise", Dim::D1(len/2))\<close> on the bound buffers \<open>src\<close> and \<open>num\<close>.\<close>

definition noise_run :: "u64 list \<times> f64 list \<Rightarrow> (u64 list \<times> f64 list) option" where
  "noise_run bufs = dispatch_D1 philox2x64_normal_kernel (random_len div 2) bufs"

text \<open>Line 47: \<open>gpu.run("noise4", Dim::D1(len/4))\<close>.\<close>

definition noise4_run :: "u64 list \<times> f64 list \<Rightarrow> (u64 list \<times> f64 list) option" where
  "noise4_run bufs = dispatch_D1 philox4x64_normal_kernel (random_len div 4) bufs"

text \<open>
  Line 59: \<open>gpu.run("noise32", Dim::D1(len/2))\<close>. The kernel declares \<open>src\<close> as
  \<open>uint\<close> but is bound to the \<open>U64\<close> buffer: the device reads each 64-bit word as
  two 32-bit lanes, low half first (a little-endian device).
\<close>

definition u32_view :: "u64 list \<Rightarrow> u32 list" where
  "u32_view ws = concat (map (\<lambda>w. [ucast w, ucast (drop_bit 32 w)]) ws)"

fun u64_view :: "u32 list \<Rightarrow> u64 list" where
  "u64_view (lo # hi # ws) = join32 hi lo # u64_view ws"
| "u64_view _ = []"

definition noise32_run :: "u64 list \<times> f64 list \<Rightarrow> (u64 list \<times> f64 list) option" where
  "noise32_run bufs =
     (case bufs of (src, num) \<Rightarrow>
        map_option (\<lambda>(s, d). (u64_view s, d))
          (dispatch_D1 philox4x32_normal_kernel (random_len div 2) (u32_view src, num)))"

text \<open>
  Lines 31--65: three timed blocks, one per generator. Each block resets \<open>moms\<close> to
  \<open>nmom = 4\<close> zeros (lines 33, 45, 57), runs \<open>n = 2^11\<close> iterations of: the noise
  kernel, the algorithm \<open>moments\<close> on \<open>num\<close> (a parameter \<open>mom\<close> of the model, giving
  the contents of \<open>dst\<close>), and the accumulation of \<open>dst\<close> into \<open>moms\<close> (lines 37, 49,
  61); then divides every entry by \<open>n\<close> (lines 39, 51, 63). A failing \<open>?\<close> is \<open>None\<close>.
\<close>

definition random_n :: nat where
  "random_n = 2 ^ 11"

definition random_nmom :: nat where
  "random_nmom = 4"

type_synonym noise_state = "u64 list \<times> f64 list"

type_synonym moments_alg = "f64 list \<Rightarrow> f64 list option"

text \<open>
  Line 37: \<open>gpu.get("dst")?.iter().enumerate().map(|(i,v)| moms[i]+v).collect()\<close>;
  the result is as long as \<open>dst\<close>, and \<open>moms[i]\<close> panics when \<open>dst\<close> is the longer.
\<close>

definition accumulate :: "f64 list \<Rightarrow> f64 list \<Rightarrow> f64 list option" where
  "accumulate moms dst =
     (if length dst \<le> length moms then Some (map (\<lambda>(i, v). f64_add (moms ! i) v) (enumerate 0 dst))
      else None)"

text \<open>Line 39: \<open>v / n as f64\<close>; a division by zero gives an infinity or a NaN.\<close>

fun f64_div :: "f64 \<Rightarrow> real \<Rightarrow> f64" where
  "f64_div (Fin a) d = (if d = 0 then NonFinite else Fin (a / d))"
| "f64_div NonFinite d = NonFinite"

text \<open>Lines 35--36: one run of a noise kernel followed by the moments algorithm.\<close>

definition moments_iter ::
  "(noise_state \<Rightarrow> noise_state option) \<Rightarrow> moments_alg \<Rightarrow> noise_state \<Rightarrow> (noise_state \<times> f64 list) option" where
  "moments_iter run mom st =
     (case run st of
        None \<Rightarrow> None
      | Some st' \<Rightarrow> map_option (\<lambda>dst. (st', dst)) (mom (snd st')))"

text \<open>Lines 34--38: the loop \<open>for _ in 0..n\<close>.\<close>

primrec moments_loop ::
  "('st \<Rightarrow> ('st \<times> f64 list) option) \<Rightarrow> nat \<Rightarrow> 'st \<Rightarrow> f64 list \<Rightarrow> ('st \<times> f64 list) option" where
  "moments_loop it 0 st moms = Some (st, moms)"
| "moments_loop it (Suc k) st moms =
     (case it st of
        None \<Rightarrow> None
      | Some (st', dst) \<Rightarrow>
          (case accumulate moms dst of
             None \<Rightarrow> None
           | Some moms' \<Rightarrow> moments_loop it k st' moms'))"

text \<open>Lines 33--39: one block, from the reset of \<open>moms\<close> to the division.\<close>

definition moments_block ::
  "('st \<Rightarrow> ('st \<times> f64 list) option) \<Rightarrow> nat \<Rightarrow> nat \<Rightarrow> 'st \<Rightarrow> ('st \<times> f64 list) option" where
  "moments_block it n nmom st =
     (case moments_loop it n st (replicate nmom (Fin 0)) of
        None \<Rightarrow> None
      | Some (st', moms) \<Rightarrow> Some (st', map (\<lambda>v. f64_div v (real n)) moms))"

text \<open>Lines 31--65: the three blocks in sequence on the same buffers.\<close>

definition random_moments :: "moments_alg \<Rightarrow> noise_state \<Rightarrow> (f64 list \<times> f64 list \<times> f64 list) option" where
  "random_moments mom st =
     (case moments_block (moments_iter noise_run mom) random_n random_nmom st of
        None \<Rightarrow> None
      | Some (st1, m1) \<Rightarrow>
          (case moments_block (moments_iter noise4_run mom) random_n random_nmom st1 of
             None \<Rightarrow> None
           | Some (st2, m2) \<Rightarrow>
               (case moments_block (moments_iter noise32_run mom) random_n random_nmom st2 of
                  None \<Rightarrow> None
                | Some (st3, m3) \<Rightarrow> Some (m1, m2, m3))))"

datatype main_error = SetupError handler_error | RunError

text \<open>
  Lines 7--68: \<open>main\<close>, on the buffers \<open>src\<close> (filled with \<open>time\<close>) and \<open>num\<close> (zeros)
  of the builder; it returns the three mean moment vectors whose cumulants it prints.
\<close>

definition random_main ::
  "(string \<times> string) list \<Rightarrow> u64 \<Rightarrow> moments_alg \<Rightarrow> main_error + f64 list \<times> f64 list \<times> f64 list" where
  "random_main funcs time mom =
     (case random_setup funcs time of
        Inl e \<Rightarrow> Inl (SetupError e)
      | Inr h \<Rightarrow>
          (case random_moments mom (replicate random_len time, replicate random_len (Fin 0)) of
             None \<Rightarrow> Inl RunError
           | Some r \<Rightarrow> Inr r))"

text \<open>The abstract specification of a block: the runs, their outputs, and the column means.\<close>

primrec iterate_runs :: "('st \<Rightarrow> ('st \<times> 'a) option) \<Rightarrow> nat \<Rightarrow> 'st \<Rightarrow> ('st \<times> 'a list) option" where
  "iterate_runs it 0 st = Some (st, [])"
| "iterate_runs it (Suc k) st =
     (case it st of
        None \<Rightarrow> None
      | Some (st', d) \<Rightarrow> map_option (\<lambda>(st'', ds). (st'', d # ds)) (iterate_runs it k st'))"

definition column_mean :: "f64 list list \<Rightarrow> nat \<Rightarrow> nat \<Rightarrow> f64" where
  "column_mean ds n i = f64_div (foldl f64_add (Fin 0) (map (\<lambda>d. d ! i) ds)) (real n)"

section \<open>Lemmas\<close>

text \<open>The accumulation of line 37 is the elementwise sum, while \<open>dst\<close> is not the longer.\<close>

lemma accumulate_nth:
  assumes "length dst \<le> length moms"
  shows "accumulate moms dst = Some (map (\<lambda>i. f64_add (moms ! i) (dst ! i)) [0..<length dst])"
  using assms by (auto simp: accumulate_def enumerate_eq_zip intro: nth_equalityI)

lemma moments_loop_runs:
  assumes "\<And>st st' d. it st = Some (st', d) \<Longrightarrow> length d = m" "length moms = m"
  shows "moments_loop it k st moms =
           map_option (\<lambda>(st', ds). (st', map (\<lambda>i. foldl f64_add (moms ! i) (map (\<lambda>d. d ! i) ds)) [0..<m]))
             (iterate_runs it k st)"
  using assms(2)
proof (induction k arbitrary: st moms)
  case 0
  then show ?case by (auto intro: nth_equalityI)
next
  case (Suc k)
  show ?case
  proof (cases "it st")
    case (Some r)
    obtain st' d where r: "r = (st', d)" by fastforce
    have ld: "length d = m" using assms(1) Some r by blast
    have acc: "accumulate moms d = Some (map (\<lambda>i. f64_add (moms ! i) (d ! i)) [0..<m])"
      using accumulate_nth [of d moms] ld Suc.prems by simp
    show ?thesis
      using Some r acc Suc.IH [of "map (\<lambda>i. f64_add (moms ! i) (d ! i)) [0..<m]" st']
      by (auto simp: option.map_comp split_beta intro!: option.map_cong)
  qed simp
qed

text \<open>The two views of the state buffer are inverse, and the \<open>uint\<close> view has twice the elements.\<close>

lemma join32_ucast: "join32 (ucast (drop_bit 32 w)) (ucast w) = (w :: u64)"
proof (rule unsigned_word_eqI [where ?'a = nat])
  have hi: "unat (ucast (drop_bit 32 w) :: u32) = unat w div 2 ^ 32"
  proof -
    have "unat w div 2 ^ 32 < 2 ^ 32" using unsigned_less [of w, where ?'a = nat] by simp
    then show ?thesis by (simp add: unsigned_ucast_eq take_bit_eq_mod unat_drop_bit_div)
  qed
  have lo: "unat (ucast w :: u32) = unat w mod 2 ^ 32"
    by (simp add: unsigned_ucast_eq take_bit_eq_mod)
  show "unat (join32 (ucast (drop_bit 32 w)) (ucast w)) = unat w"
    by (simp add: unat_join32 hi lo)
qed

lemma u64_view_u32_view: "u64_view (u32_view ws) = ws"
  by (induction ws) (simp_all add: u32_view_def join32_ucast)

lemma length_u32_view: "length (u32_view ws) = 2 * length ws"
  by (induction ws) (simp_all add: u32_view_def)


text \<open>The three generators that random.rs loads, and their descriptors.\<close>

lemma random_lookups:
  "kernels ''philox2x64_10_normal'' = Some k_philox2x64_10_normal"
  "kernels ''philox4x64_10_normal'' = Some k_philox4x64_10_normal"
  "kernels ''philox4x32_10_normal'' = Some k_philox4x32_10_normal"
  by (simp only: kernels_map_of kernels_names; simp add: kernels_list_def)+

lemma normal_kernels_shape:
  "kargs k_philox2x64_10_normal = [KCBuffer ''src'' CU64, KCBuffer ''dst'' CF64]"
  "kargs k_philox4x64_10_normal = [KCBuffer ''src'' CU64, KCBuffer ''dst'' CF64]"
  "kargs k_philox4x32_10_normal = [KCBuffer ''src'' CU32, KCBuffer ''dst'' CF64]"
  "kneeded k_philox2x64_10_normal = []" "kneeded k_philox4x64_10_normal = []"
  "kneeded k_philox4x32_10_normal = []"
  by (simp_all add: k_philox2x64_10_normal_def k_philox4x64_10_normal_def k_philox4x32_10_normal_def)

lemma nth_get2: "xs ! i = (if even i then fst (get2 (i div 2 * 2) xs) else snd (get2 (i div 2 * 2) xs))"
  by (cases "even i") (auto simp: get2_def mult.commute elim!: evenE oddE)

text \<open>Elements of four-lane slices and of the \<open>u64\<close> view.\<close>

lemma nth_get4: "xs ! i = (case get4 (i div 4 * 4) xs of (a, b, c, d) \<Rightarrow> [a, b, c, d] ! (i mod 4))"
proof -
  have i: "i = i div 4 * 4 + i mod 4" by simp
  have "i mod 4 < 4" by simp
  then consider "i mod 4 = 0" | "i mod 4 = 1" | "i mod 4 = 2" | "i mod 4 = 3" by arith
  then show ?thesis
    by cases (subst (1) i; simp add: get4_def)+
qed

lemma length_u64_view: "length (u64_view ws) = length ws div 2"
  by (induction ws rule: u64_view.induct) simp_all

lemma nth_u64_view: "2 * i + 1 < length ws \<Longrightarrow> u64_view ws ! i = join32 (ws ! (2 * i + 1)) (ws ! (2 * i))"
proof (induction ws arbitrary: i rule: u64_view.induct)
  case (1 lo hi ws)
  then show ?case by (cases i) simp_all
qed simp_all

subsection \<open>Properties of the harness\<close>

text \<open>
  C28. The run at line 35 covers its buffers: on \<open>src\<close> and \<open>num\<close> of \<open>len = 2^17\<close>
  elements, \<open>Dim::D1(len/2)\<close> succeeds and writes every element of \<open>num\<close> (and of
  \<open>src\<close>) from the thread that owns it, so no stale value reaches the moments.
\<close>

theorem noise_run_covers:
  assumes "length src = random_len" "length num = random_len"
  shows "\<exists>src' num'. noise_run (src, num) = Some (src', num') \<and>
           (\<forall>i<random_len.
              src' ! i = (let t = philox2x64_10 (i div 2) (get2 (i div 2 * 2) src)
                          in if even i then fst t else snd t) \<and>
              num' ! i = (let t = philox2x64_10 (i div 2) (get2 (i div 2 * 2) src);
                              z = box_muller (to_unit (fst t)) (to_unit (snd t))
                          in if even i then fst z else snd z))"
proof -
  have n: "random_len div 2 * 2 = random_len" by (simp add: random_len_def)
  obtain src' num' where run: "noise_run (src, num) = Some (src', num')"
    and slices: "\<forall>x<random_len div 2. get2 (x * 2) src' = philox2x64_10 x (get2 (x * 2) src) \<and>
                   get2 (x * 2) num' = (let t = philox2x64_10 x (get2 (x * 2) src)
                                        in box_muller (to_unit (fst t)) (to_unit (snd t)))"
    using philox2x64_normal_launch [of "random_len div 2" src num] assms n
    unfolding noise_run_def by auto
  have "src' ! i = (let t = philox2x64_10 (i div 2) (get2 (i div 2 * 2) src) in if even i then fst t else snd t) \<and>
        num' ! i = (let t = philox2x64_10 (i div 2) (get2 (i div 2 * 2) src);
                        z = box_muller (to_unit (fst t)) (to_unit (snd t))
                    in if even i then fst z else snd z)" if "i < random_len" for i
  proof -
    have "i div 2 < random_len div 2" using that by (simp add: random_len_def)
    then have s1: "get2 (i div 2 * 2) src' = philox2x64_10 (i div 2) (get2 (i div 2 * 2) src)"
      and s2: "get2 (i div 2 * 2) num' = (let t = philox2x64_10 (i div 2) (get2 (i div 2 * 2) src)
                                          in box_muller (to_unit (fst t)) (to_unit (snd t)))"
      using slices by blast+
    have e1: "src' ! i = (if even i then fst (get2 (i div 2 * 2) src') else snd (get2 (i div 2 * 2) src'))"
      and e2: "num' ! i = (if even i then fst (get2 (i div 2 * 2) num') else snd (get2 (i div 2 * 2) num'))"
      by (rule nth_get2)+
    show ?thesis by (simp only: e1 e2 s1 s2 Let_def)
  qed
  then show ?thesis using run by blast
qed

text \<open>
  C31. Each timed block of random.rs (lines 33--39) computes the column means of the
  moment vectors of its \<open>n\<close> iterations: when every iteration yields a vector of
  \<open>nmom\<close> entries, the block fails exactly when one of the runs fails, and otherwise
  returns the final buffers and, for each moment \<open>i\<close>, the sum of the \<open>i\<close>-th entries
  over the runs, in the order of the runs, divided by \<open>n\<close>.
\<close>

theorem moments_block_mean:
  assumes "\<And>st st' d. it st = Some (st', d) \<Longrightarrow> length d = m"
  shows "moments_block it n m st =
           map_option (\<lambda>(st', ds). (st', map (column_mean ds n) [0..<m])) (iterate_runs it n st)"
  using moments_loop_runs [OF assms, where moms = "replicate m (Fin 0)" and k = n and st = st]
  by (cases "iterate_runs it n st") (auto simp: moments_block_def column_mean_def)

text \<open>
  C34. The setup of random.rs succeeds (lines 12--27): whatever the shared-function
  table, \<open>build()\<close> loads the three normal generators under the aliases \<open>noise\<close>,
  \<open>noise4\<close>, \<open>noise32\<close>, the buffers \<open>src\<close> (\<open>u64\<close>) and \<open>num\<close> (\<open>double\<close>)
  have \<open>len\<close> elements, and the three \<open>set_arg\<close> calls bind \<open>src\<close> and \<open>num\<close> to the
  arguments \<open>src\<close> and \<open>dst\<close> of each kernel, in order.
\<close>

theorem random_setup_binds:
  "\<exists>h. random_setup funcs time = Inr h \<and>
       hkernels h ''noise'' = Some k_philox2x64_10_normal \<and>
       hkernels h ''noise4'' = Some k_philox4x64_10_normal \<and>
       hkernels h ''noise32'' = Some k_philox4x32_10_normal \<and>
       hbuffers h ''src'' = Some (CU64, random_len) \<and> hbuffers h ''num'' = Some (CF64, random_len) \<and>
       hargs h ''noise'' = Some [''src'', ''num''] \<and>
       hargs h ''noise4'' = Some [''src'', ''num''] \<and>
       hargs h ''noise32'' = Some [''src'', ''num'']"
  by (simp add: random_setup_def build_def random_builder_def builder0_def add_buffer_def
                load_kernel_named_def load_algorithm_def random_lookups normal_kernels_shape
                compile_src_def set_arg_def)

text \<open>
  C35. The run at line 47 covers its buffers: \<open>Dim::D1(len/4)\<close> of
  \<open>philox4x64_10_normal\<close> on \<open>src\<close> and \<open>num\<close> of \<open>len\<close> elements succeeds, and
  element \<open>i\<close> of both is lane \<open>i mod 4\<close> of what thread \<open>i / 4\<close> computes from its
  four state words: the ten-round image, and its two Box--Muller pairs.
\<close>

theorem noise4_run_covers:
  assumes "length src = random_len" "length num = random_len"
  shows "\<exists>src' num'. noise4_run (src, num) = Some (src', num') \<and>
           (\<forall>i<random_len.
              src' ! i = (case philox4x64_10 (i div 4) (get4 (i div 4 * 4) src) of
                            (a, b, c, d) \<Rightarrow> [a, b, c, d] ! (i mod 4)) \<and>
              num' ! i = (case normal4 (philox4x64_10 (i div 4) (get4 (i div 4 * 4) src)) of
                            (a, b, c, d) \<Rightarrow> [a, b, c, d] ! (i mod 4)))"
proof -
  have n: "random_len div 4 * 4 = random_len" by (simp add: random_len_def)
  obtain src' num' where run: "noise4_run (src, num) = Some (src', num')"
    and slices: "\<forall>x<random_len div 4. get4 (x * 4) src' = philox4x64_10 x (get4 (x * 4) src) \<and>
                   get4 (x * 4) num' = normal4 (philox4x64_10 x (get4 (x * 4) src))"
    using philox4x64_normal_launch [of "random_len div 4" src num] assms n
    unfolding noise4_run_def by auto
  have "i div 4 < random_len div 4" if "i < random_len" for i
    using that by (simp add: random_len_def)
  then have "src' ! i = (case philox4x64_10 (i div 4) (get4 (i div 4 * 4) src) of
                          (a, b, c, d) \<Rightarrow> [a, b, c, d] ! (i mod 4)) \<and>
             num' ! i = (case normal4 (philox4x64_10 (i div 4) (get4 (i div 4 * 4) src)) of
                          (a, b, c, d) \<Rightarrow> [a, b, c, d] ! (i mod 4))" if "i < random_len" for i
    using slices that nth_get4 [of src' i] nth_get4 [of num' i] by simp
  then show ?thesis using run by blast
qed

text \<open>
  C36. The run at line 59 covers its buffers: \<open>Dim::D1(len/2)\<close> of
  \<open>philox4x32_10_normal\<close>, which sees the \<open>len\<close> words of \<open>src\<close> as \<open>2 len\<close>
  \<open>uint\<close> lanes, succeeds; word \<open>i\<close> of \<open>src\<close> afterwards holds two of the four lanes
  that thread \<open>i / 2\<close> computes (low lane first), and element \<open>i\<close> of \<open>num\<close> is one of
  the Box--Muller pair of that thread, so every element of both buffers is written.
\<close>

theorem noise32_run_covers:
  assumes "length src = random_len" "length num = random_len"
  shows "\<exists>src' num'. noise32_run (src, num) = Some (src', num') \<and>
           (\<forall>i<random_len.
              src' ! i = (case philox4x32_10 (i div 2) (get4 (i div 2 * 4) (u32_view src)) of
                            (a, b, c, d) \<Rightarrow> if even i then join32 b a else join32 d c) \<and>
              num' ! i = (let z = normal4x32 (philox4x32_10 (i div 2) (get4 (i div 2 * 4) (u32_view src)))
                          in if even i then fst z else snd z))"
proof -
  let ?n = "random_len div 2"
  have l32: "?n * 4 \<le> length (u32_view src)" "?n * 2 \<le> length num"
    using assms by (simp_all add: length_u32_view random_len_def)
  obtain s' num' where run: "dispatch_D1 philox4x32_normal_kernel ?n (u32_view src, num) = Some (s', num')"
    and len: "length s' = 2 * random_len"
    and slices: "\<forall>x<?n. get4 (x * 4) s' = philox4x32_10 x (get4 (x * 4) (u32_view src)) \<and>
                   get2 (x * 2) num' = normal4x32 (philox4x32_10 x (get4 (x * 4) (u32_view src)))"
    using philox4x32_normal_launch [OF l32] assms by (auto simp: length_u32_view)
  have "u64_view s' ! i = (case philox4x32_10 (i div 2) (get4 (i div 2 * 4) (u32_view src)) of
                            (a, b, c, d) \<Rightarrow> if even i then join32 b a else join32 d c) \<and>
        num' ! i = (let z = normal4x32 (philox4x32_10 (i div 2) (get4 (i div 2 * 4) (u32_view src)))
                    in if even i then fst z else snd z)" if i: "i < random_len" for i
  proof -
    have x: "i div 2 < ?n" using i by (simp add: random_len_def)
    have w: "u64_view s' ! i = join32 (s' ! (2 * i + 1)) (s' ! (2 * i))"
      using i len by (intro nth_u64_view) simp
    have g: "get4 (i div 2 * 4) s' = (s' ! (i div 2 * 4), s' ! (i div 2 * 4 + 1), s' ! (i div 2 * 4 + 2), s' ! (i div 2 * 4 + 3))"
      by (simp add: get4_def)
    have "u64_view s' ! i = (case get4 (i div 2 * 4) s' of
                                    (a, b, c, d) \<Rightarrow> if even i then join32 b a else join32 d c)"
    proof (cases "even i")
      case True
      then have e: "2 * i = i div 2 * 4" by (auto elim!: evenE)
      show ?thesis unfolding w e using True by (simp add: g)
    next
      case False
      then have e: "2 * i = i div 2 * 4 + 2" by (auto elim!: oddE)
      show ?thesis unfolding w e using False by (simp add: g numeral_3_eq_3)
    qed
    then have u: "u64_view s' ! i = (case philox4x32_10 (i div 2) (get4 (i div 2 * 4) (u32_view src)) of
                                       (a, b, c, d) \<Rightarrow> if even i then join32 b a else join32 d c)"
      using slices x by simp
    have s2: "get2 (i div 2 * 2) num' = normal4x32 (philox4x32_10 (i div 2) (get4 (i div 2 * 4) (u32_view src)))"
      using slices x by blast
    have n2: "num' ! i = (if even i then fst (get2 (i div 2 * 2) num') else snd (get2 (i div 2 * 2) num'))"
      by (rule nth_get2)
    show ?thesis by (rule conjI [OF u]) (simp only: n2 s2 Let_def)
  qed
  then show ?thesis using run by (simp add: noise32_run_def)
qed

theorem noise4_run_covers_witness:
  "length (replicate random_len (0 :: u64)) = random_len \<and> length (replicate random_len (Fin 0)) = random_len \<and>
   (\<exists>src' num'. noise4_run (replicate random_len 0, replicate random_len (Fin 0)) = Some (src', num') \<and>
      (\<forall>i<random_len.
         src' ! i = (case philox4x64_10 (i div 4) (get4 (i div 4 * 4) (replicate random_len 0)) of
                       (a, b, c, d) \<Rightarrow> [a, b, c, d] ! (i mod 4)) \<and>
         num' ! i = (case normal4 (philox4x64_10 (i div 4) (get4 (i div 4 * 4) (replicate random_len 0))) of
                       (a, b, c, d) \<Rightarrow> [a, b, c, d] ! (i mod 4))))"
proof -
  have h1: "length (replicate random_len (0 :: u64)) = random_len"
    and h2: "length (replicate random_len (Fin 0)) = random_len" by simp_all
  show ?thesis by (rule conjI [OF h1 conjI [OF h2 noise4_run_covers [OF h1 h2]]])
qed

theorem noise32_run_covers_witness:
  "length (replicate random_len (0 :: u64)) = random_len \<and> length (replicate random_len (Fin 0)) = random_len \<and>
   (\<exists>src' num'. noise32_run (replicate random_len 0, replicate random_len (Fin 0)) = Some (src', num') \<and>
      (\<forall>i<random_len.
         src' ! i = (case philox4x32_10 (i div 2) (get4 (i div 2 * 4) (u32_view (replicate random_len 0))) of
                       (a, b, c, d) \<Rightarrow> if even i then join32 b a else join32 d c) \<and>
         num' ! i = (let z = normal4x32 (philox4x32_10 (i div 2) (get4 (i div 2 * 4) (u32_view (replicate random_len 0))))
                     in if even i then fst z else snd z)))"
proof -
  have h1: "length (replicate random_len (0 :: u64)) = random_len"
    and h2: "length (replicate random_len (Fin 0)) = random_len" by simp_all
  show ?thesis by (rule conjI [OF h1 conjI [OF h2 noise32_run_covers [OF h1 h2]]])
qed

theorem noise_run_covers_witness:
  "length (replicate random_len (0 :: u64)) = random_len \<and> length (replicate random_len (Fin 0)) = random_len \<and>
   (\<exists>src' num'. noise_run (replicate random_len 0, replicate random_len (Fin 0)) = Some (src', num') \<and>
      (\<forall>i<random_len.
         src' ! i = (let t = philox2x64_10 (i div 2) (get2 (i div 2 * 2) (replicate random_len 0))
                     in if even i then fst t else snd t) \<and>
         num' ! i = (let t = philox2x64_10 (i div 2) (get2 (i div 2 * 2) (replicate random_len 0));
                         z = box_muller (to_unit (fst t)) (to_unit (snd t))
                     in if even i then fst z else snd z)))"
proof -
  have h1: "length (replicate random_len (0 :: u64)) = random_len"
    and h2: "length (replicate random_len (Fin 0)) = random_len" by simp_all
  show ?thesis by (rule conjI [OF h1 conjI [OF h2 noise_run_covers [OF h1 h2]]])
qed

theorem moments_block_mean_witness:
  "moments_block (\<lambda>k. Some (Suc k, [Fin (real k), Fin 1])) 2 2 0 =
     map_option (\<lambda>(st', ds). (st', map (column_mean ds 2) [0..<2]))
       (iterate_runs (\<lambda>k. Some (Suc k, [Fin (real k), Fin 1])) 2 0) \<and>
   moments_block (\<lambda>k. Some (Suc k, [Fin (real k), Fin 1])) 2 2 0 = Some (2, [Fin (1 / 2), Fin 1])"
proof -
  have h: "\<And>st st' d. (\<lambda>k :: nat. Some (Suc k, [Fin (real k), Fin 1])) st = Some (st', d) \<Longrightarrow> length d = 2"
    by auto
  note m = moments_block_mean [where it = "\<lambda>k :: nat. Some (Suc k, [Fin (real k), Fin 1])" and m = 2
                              and n = 2 and st = 0, OF h]
  have v: "map_option (\<lambda>(st', ds). (st', map (column_mean ds 2) [0..<2]))
       (iterate_runs (\<lambda>k. Some (Suc k, [Fin (real k), Fin 1])) 2 0) = Some (2, [Fin (1 / 2), Fin 1])"
    by (simp add: column_mean_def upt_rec numeral_2_eq_2)
  show ?thesis by (rule conjI [OF m trans [OF m v]])
qed

end
