(* ===== verification/Typing.thy ===== *)
theory Typing
  imports Elementwise Catalog
begin

text \<open>
  Type safety of the elementwise, complex-conversion and complex-arithmetic kernels against their
  descriptors. A buffer table (as the handler keeps it: element type and length of each
  buffer) types a store when every buffer it lists exists with that length and holds
  cells of that element type. A launch is well bound when the buffers bound to the
  descriptor's buffer arguments, in order, have the declared element types and at least
  as many elements as there are threads. The theorems show that a well-bound launch on a
  typed store does not fail (progress) and leaves the store typed (preservation): the
  element types declared in src/src/kernels.rs agree with what the bodies read and
  write.
\<close>

fun cell_type :: "cell \<Rightarrow> ConstructorTypes" where
  "cell_type (VF64 v) = CF64"
| "cell_type (VF64_2 a b) = CF64_2"

definition store_typed :: "(string \<rightharpoonup> ConstructorTypes \<times> nat) \<Rightarrow> store \<Rightarrow> bool" where
  "store_typed bufs s \<longleftrightarrow>
     (\<forall>b t l. bufs b = Some (t, l) \<longrightarrow> (\<exists>xs. s b = Some xs \<and> length xs = l \<and> (\<forall>c\<in>set xs. cell_type c = t)))"

definition buffer_types :: "Kernel \<Rightarrow> ConstructorTypes list" where
  "buffer_types k = concat (map (\<lambda>c. case c of KCBuffer n t \<Rightarrow> [t] | KCParam n t \<Rightarrow> []) (kargs k))"

definition bound_ok :: "(string \<rightharpoonup> ConstructorTypes \<times> nat) \<Rightarrow> string list \<Rightarrow> ConstructorTypes list \<Rightarrow> nat \<Rightarrow> bool" where
  "bound_ok bufs names ts n =
     list_all2 (\<lambda>b t. case bufs b of Some (t', l) \<Rightarrow> t' = t \<and> n \<le> l | None \<Rightarrow> False) names ts"

text \<open>
  The pointwise launches, one constructor per kernel, with the buffers bound to its
  buffer arguments and its scalar parameter; the thread body of each, its descriptor in
  the catalog, and the buffers in the order of the descriptor's buffer arguments.
\<close>

datatype elem_op =
    Plus string string string
  | Minus string string string
  | Times string string string
  | CPlus string f64 string
  | CMinus string f64 string
  | CTimes string f64 string
  | ComplexFromReal string string
  | ComplexFromImage string string
  | RealFromComplex string string
  | ImageFromComplex string string
  | KcSqrmod string string
  | KcMod string string
  | KcTimes string string string
  | KcTimesConj string string string

fun elem_thread :: "elem_op \<Rightarrow> nat \<Rightarrow> store \<Rightarrow> store option" where
  "elem_thread (Plus a b d) = plus_thread a b d"
| "elem_thread (Minus a b d) = minus_thread a b d"
| "elem_thread (Times a b d) = times_thread a b d"
| "elem_thread (CPlus a c d) = cplus_thread a c d"
| "elem_thread (CMinus a c d) = cminus_thread a c d"
| "elem_thread (CTimes a c d) = ctimes_thread a c d"
| "elem_thread (ComplexFromReal a d) = complex_from_real_thread a d"
| "elem_thread (ComplexFromImage a d) = complex_from_image_thread a d"
| "elem_thread (RealFromComplex a d) = real_from_complex_thread a d"
| "elem_thread (ImageFromComplex a d) = image_from_complex_thread a d"
| "elem_thread (KcSqrmod a d) = kc_sqrmod_thread a d"
| "elem_thread (KcMod a d) = kc_mod_thread a d"
| "elem_thread (KcTimes a b d) = kc_times_thread a b d"
| "elem_thread (KcTimesConj a b d) = kc_times_conj_thread a b d"

fun elem_kernel :: "elem_op \<Rightarrow> Kernel" where
  "elem_kernel (Plus a b d) = k_plus"
| "elem_kernel (Minus a b d) = k_minus"
| "elem_kernel (Times a b d) = k_times"
| "elem_kernel (CPlus a c d) = k_cplus"
| "elem_kernel (CMinus a c d) = k_cminus"
| "elem_kernel (CTimes a c d) = k_ctimes"
| "elem_kernel (ComplexFromReal a d) = k_complex_from_real"
| "elem_kernel (ComplexFromImage a d) = k_complex_from_image"
| "elem_kernel (RealFromComplex a d) = k_real_from_complex"
| "elem_kernel (ImageFromComplex a d) = k_image_from_complex"
| "elem_kernel (KcSqrmod a d) = k_kc_sqrmod"
| "elem_kernel (KcMod a d) = k_kc_mod"
| "elem_kernel (KcTimes a b d) = k_kc_times"
| "elem_kernel (KcTimesConj a b d) = k_kc_times_conj"

fun elem_buffers :: "elem_op \<Rightarrow> string list" where
  "elem_buffers (Plus a b d) = [a, b, d]"
| "elem_buffers (Minus a b d) = [a, b, d]"
| "elem_buffers (Times a b d) = [a, b, d]"
| "elem_buffers (CPlus a c d) = [a, d]"
| "elem_buffers (CMinus a c d) = [a, d]"
| "elem_buffers (CTimes a c d) = [a, d]"
| "elem_buffers (ComplexFromReal a d) = [a, d]"
| "elem_buffers (ComplexFromImage a d) = [a, d]"
| "elem_buffers (RealFromComplex a d) = [a, d]"
| "elem_buffers (ImageFromComplex a d) = [a, d]"
| "elem_buffers (KcSqrmod a d) = [a, d]"
| "elem_buffers (KcMod a d) = [a, d]"
| "elem_buffers (KcTimes a b d) = [a, b, d]"
| "elem_buffers (KcTimesConj a b d) = [a, b, d]"

section \<open>Lemmas\<close>

lemma cell_type_CF64 [simp]: "cell_type c = CF64 \<longleftrightarrow> (\<exists>v. c = VF64 v)"
  by (cases c) simp_all

lemma cell_type_CF64_2 [simp]: "cell_type c = CF64_2 \<longleftrightarrow> (\<exists>x y. c = VF64_2 x y)"
  by (cases c) simp_all

lemma typed_rd:
  assumes "store_typed bufs s" "bufs b = Some (t, l)" "i < l"
  obtains c where "rd s b i = Some c" "cell_type c = t"
  using assms by (fastforce simp: store_typed_def rd_def)

lemma pointwise_typed:
  assumes typed: "store_typed bufs s" and dst: "bufs d = Some (t, l)" "n \<le> l"
    and h: "\<And>i. i < n \<Longrightarrow> \<exists>c. h (\<lambda>m. rd s m i) = Some c \<and> cell_type c = t"
  shows "\<exists>s'. dispatch_D1 (pointwise h d) n s = Some s' \<and> store_typed bufs s'"
proof -
  obtain ds where ds: "s d = Some ds" "length ds = l" "\<forall>c\<in>set ds. cell_type c = t"
    using typed dst(1) by (fastforce simp: store_typed_def)
  define f where "f i = the (h (\<lambda>m. rd s m i))" for i
  have hf: "h (\<lambda>m. rd s m i) = Some (f i)" and tf: "cell_type (f i) = t" if "i < n" for i
    using h [OF that] by (auto simp: f_def)
  define D where "D = map (\<lambda>i. if i < n then f i else ds ! i) [0..<length ds]"
  have run: "dispatch_D1 (pointwise h d) n s = Some (s(d \<mapsto> D))"
    unfolding D_def using ds dst(2) hf by (intro pointwise_dispatch') simp_all
  have "\<forall>c\<in>set D. cell_type c = t"
    using ds tf by (auto simp: D_def)
  then have "store_typed bufs (s(d \<mapsto> D))"
    using typed dst ds by (auto simp: store_typed_def D_def)
  then show ?thesis using run by blast
qed

lemma bound_ok_simps:
  "bound_ok bufs [] [] n"
  "bound_ok bufs (b # bs) (t # ts) n \<longleftrightarrow> (\<exists>l. bufs b = Some (t, l) \<and> n \<le> l) \<and> bound_ok bufs bs ts n"
  by (auto simp: bound_ok_def split: option.splits)

lemmas elem_descriptors = k_plus_def k_minus_def k_times_def k_cplus_def k_cminus_def k_ctimes_def
  k_complex_from_real_def k_complex_from_image_def k_real_from_complex_def k_image_from_complex_def
  k_kc_sqrmod_def k_kc_mod_def k_kc_times_def k_kc_times_conj_def

lemma typed_rd_f64:
  "store_typed bufs s \<Longrightarrow> bufs b = Some (CF64, l) \<Longrightarrow> i < l \<Longrightarrow> \<exists>v. Option.bind (rd s b i) cell_f64 = Some v"
  by (erule typed_rd) auto

lemma typed_rd_f64_2:
  "store_typed bufs s \<Longrightarrow> bufs b = Some (CF64_2, l) \<Longrightarrow> i < l \<Longrightarrow> \<exists>z. Option.bind (rd s b i) cell_f64_2 = Some z"
  by (erule typed_rd) auto

text \<open>
  The four shapes of pointwise bodies: two double operands, one double, one
  \<open>double2\<close>, two \<open>double2\<close> operands.
\<close>

lemma pointwise_binary_typed:
  assumes typed: "store_typed bufs s"
    and a: "bufs a = Some (CF64, la)" "n \<le> la" and b: "bufs b = Some (CF64, lb)" "n \<le> lb"
    and d: "bufs d = Some (t, l)" "n \<le> l" and g: "\<And>u v. cell_type (g u v) = t"
  shows "\<exists>s'. dispatch_D1 (pointwise (\<lambda>r. do { u \<leftarrow> Option.bind (r a) cell_f64; v \<leftarrow> Option.bind (r b) cell_f64;
                                              Some (g u v) }) d) n s = Some s' \<and> store_typed bufs s'"
proof (rule pointwise_typed [OF typed d])
  fix i assume "i < n"
  then obtain u v where "Option.bind (rd s a i) cell_f64 = Some u" "Option.bind (rd s b i) cell_f64 = Some v"
    using typed_rd_f64 [OF typed a(1)] typed_rd_f64 [OF typed b(1)] a(2) b(2) by (meson less_le_trans)
  then show "\<exists>c. Option.bind (Option.bind (rd s a i) cell_f64)
                  (\<lambda>u. Option.bind (Option.bind (rd s b i) cell_f64) (\<lambda>v. Some (g u v))) = Some c \<and> cell_type c = t"
    using g by simp
qed

lemma pointwise_unary_typed:
  assumes typed: "store_typed bufs s"
    and a: "bufs a = Some (CF64, la)" "n \<le> la"
    and d: "bufs d = Some (t, l)" "n \<le> l" and g: "\<And>u. cell_type (g u) = t"
  shows "\<exists>s'. dispatch_D1 (pointwise (\<lambda>r. do { u \<leftarrow> Option.bind (r a) cell_f64; Some (g u) }) d) n s = Some s' \<and>
             store_typed bufs s'"
proof (rule pointwise_typed [OF typed d])
  fix i assume "i < n"
  then obtain u where "Option.bind (rd s a i) cell_f64 = Some u"
    using typed_rd_f64 [OF typed a(1)] a(2) by (meson less_le_trans)
  then show "\<exists>c. Option.bind (Option.bind (rd s a i) cell_f64) (\<lambda>u. Some (g u)) = Some c \<and> cell_type c = t"
    using g by simp
qed

lemma pointwise_complex_typed:
  assumes typed: "store_typed bufs s"
    and a: "bufs a = Some (CF64_2, la)" "n \<le> la"
    and d: "bufs d = Some (t, l)" "n \<le> l" and g: "\<And>z. cell_type (g z) = t"
  shows "\<exists>s'. dispatch_D1 (pointwise (\<lambda>r. do { z \<leftarrow> Option.bind (r a) cell_f64_2; Some (g z) }) d) n s = Some s' \<and>
             store_typed bufs s'"
proof (rule pointwise_typed [OF typed d])
  fix i assume "i < n"
  then obtain z where "Option.bind (rd s a i) cell_f64_2 = Some z"
    using typed_rd_f64_2 [OF typed a(1)] a(2) by (meson less_le_trans)
  then show "\<exists>c. Option.bind (Option.bind (rd s a i) cell_f64_2) (\<lambda>z. Some (g z)) = Some c \<and> cell_type c = t"
    using g by simp
qed

lemma pointwise_complex_binary_typed:
  assumes typed: "store_typed bufs s"
    and a: "bufs a = Some (CF64_2, la)" "n \<le> la" and b: "bufs b = Some (CF64_2, lb)" "n \<le> lb"
    and d: "bufs d = Some (t, l)" "n \<le> l" and g: "\<And>u v. cell_type (g u v) = t"
  shows "\<exists>s'. dispatch_D1 (pointwise (\<lambda>r. do { u \<leftarrow> Option.bind (r a) cell_f64_2; v \<leftarrow> Option.bind (r b) cell_f64_2;
                                              Some (g u v) }) d) n s = Some s' \<and> store_typed bufs s'"
proof (rule pointwise_typed [OF typed d])
  fix i assume "i < n"
  then obtain u v where "Option.bind (rd s a i) cell_f64_2 = Some u" "Option.bind (rd s b i) cell_f64_2 = Some v"
    using typed_rd_f64_2 [OF typed a(1)] typed_rd_f64_2 [OF typed b(1)] a(2) b(2) by (meson less_le_trans)
  then show "\<exists>c. Option.bind (Option.bind (rd s a i) cell_f64_2)
                  (\<lambda>u. Option.bind (Option.bind (rd s b i) cell_f64_2) (\<lambda>v. Some (g u v))) = Some c \<and> cell_type c = t"
    using g by simp
qed

lemma elem_sound:
  assumes typed: "store_typed bufs s"
    and ok: "bound_ok bufs (elem_buffers op) (buffer_types (elem_kernel op)) n"
  shows "\<exists>s'. dispatch_D1 (elem_thread op) n s = Some s' \<and> store_typed bufs s'"
proof (cases op)
  case (Plus a b d)
  with ok obtain la lb l where "bufs a = Some (CF64, la)" "n \<le> la" "bufs b = Some (CF64, lb)" "n \<le> lb"
    "bufs d = Some (CF64, l)" "n \<le> l"
    by (auto simp: bound_ok_simps buffer_types_def elem_descriptors)
  then show ?thesis unfolding Plus elem_thread.simps plus_thread_pointwise
    by (rule pointwise_binary_typed [OF typed]) simp
next
  case (Minus a b d)
  with ok obtain la lb l where "bufs a = Some (CF64, la)" "n \<le> la" "bufs b = Some (CF64, lb)" "n \<le> lb"
    "bufs d = Some (CF64, l)" "n \<le> l"
    by (auto simp: bound_ok_simps buffer_types_def elem_descriptors)
  then show ?thesis unfolding Minus elem_thread.simps minus_thread_pointwise
    by (rule pointwise_binary_typed [OF typed]) simp
next
  case (Times a b d)
  with ok obtain la lb l where "bufs a = Some (CF64, la)" "n \<le> la" "bufs b = Some (CF64, lb)" "n \<le> lb"
    "bufs d = Some (CF64, l)" "n \<le> l"
    by (auto simp: bound_ok_simps buffer_types_def elem_descriptors)
  then show ?thesis unfolding Times elem_thread.simps times_thread_pointwise
    by (rule pointwise_binary_typed [OF typed]) simp
next
  case (CPlus a c d)
  with ok obtain la l where "bufs a = Some (CF64, la)" "n \<le> la" "bufs d = Some (CF64, l)" "n \<le> l"
    by (auto simp: bound_ok_simps buffer_types_def elem_descriptors)
  then show ?thesis unfolding CPlus elem_thread.simps cplus_thread_pointwise
    by (rule pointwise_unary_typed [OF typed]) simp
next
  case (CMinus a c d)
  with ok obtain la l where "bufs a = Some (CF64, la)" "n \<le> la" "bufs d = Some (CF64, l)" "n \<le> l"
    by (auto simp: bound_ok_simps buffer_types_def elem_descriptors)
  then show ?thesis unfolding CMinus elem_thread.simps cminus_thread_pointwise
    by (rule pointwise_unary_typed [OF typed]) simp
next
  case (CTimes a c d)
  with ok obtain la l where "bufs a = Some (CF64, la)" "n \<le> la" "bufs d = Some (CF64, l)" "n \<le> l"
    by (auto simp: bound_ok_simps buffer_types_def elem_descriptors)
  then show ?thesis unfolding CTimes elem_thread.simps ctimes_thread_pointwise
    by (rule pointwise_unary_typed [OF typed]) simp
next
  case (ComplexFromReal a d)
  with ok obtain la l where "bufs a = Some (CF64, la)" "n \<le> la" "bufs d = Some (CF64_2, l)" "n \<le> l"
    by (auto simp: bound_ok_simps buffer_types_def elem_descriptors)
  then show ?thesis unfolding ComplexFromReal elem_thread.simps complex_from_real_thread_pointwise
    by (rule pointwise_unary_typed [OF typed]) simp
next
  case (ComplexFromImage a d)
  with ok obtain la l where "bufs a = Some (CF64, la)" "n \<le> la" "bufs d = Some (CF64_2, l)" "n \<le> l"
    by (auto simp: bound_ok_simps buffer_types_def elem_descriptors)
  then show ?thesis unfolding ComplexFromImage elem_thread.simps complex_from_image_thread_pointwise
    by (rule pointwise_unary_typed [OF typed]) simp
next
  case (RealFromComplex a d)
  with ok obtain la l where "bufs a = Some (CF64_2, la)" "n \<le> la" "bufs d = Some (CF64, l)" "n \<le> l"
    by (auto simp: bound_ok_simps buffer_types_def elem_descriptors)
  then show ?thesis unfolding RealFromComplex elem_thread.simps real_from_complex_thread_pointwise
    by (rule pointwise_complex_typed [OF typed]) simp
next
  case (ImageFromComplex a d)
  with ok obtain la l where "bufs a = Some (CF64_2, la)" "n \<le> la" "bufs d = Some (CF64, l)" "n \<le> l"
    by (auto simp: bound_ok_simps buffer_types_def elem_descriptors)
  then show ?thesis unfolding ImageFromComplex elem_thread.simps image_from_complex_thread_pointwise
    by (rule pointwise_complex_typed [OF typed]) simp
next
  case (KcSqrmod a d)
  with ok obtain la l where "bufs a = Some (CF64_2, la)" "n \<le> la" "bufs d = Some (CF64, l)" "n \<le> l"
    by (auto simp: bound_ok_simps buffer_types_def elem_descriptors)
  then show ?thesis unfolding KcSqrmod elem_thread.simps kc_sqrmod_thread_pointwise
    by (rule pointwise_complex_typed [OF typed]) simp
next
  case (KcMod a d)
  with ok obtain la l where "bufs a = Some (CF64_2, la)" "n \<le> la" "bufs d = Some (CF64, l)" "n \<le> l"
    by (auto simp: bound_ok_simps buffer_types_def elem_descriptors)
  then show ?thesis unfolding KcMod elem_thread.simps kc_mod_thread_pointwise
    by (rule pointwise_complex_typed [OF typed]) simp
next
  case (KcTimes a b d)
  with ok obtain la lb l where "bufs a = Some (CF64_2, la)" "n \<le> la" "bufs b = Some (CF64_2, lb)" "n \<le> lb"
    "bufs d = Some (CF64_2, l)" "n \<le> l"
    by (auto simp: bound_ok_simps buffer_types_def elem_descriptors)
  then show ?thesis unfolding KcTimes elem_thread.simps kc_times_thread_pointwise
    by (rule pointwise_complex_binary_typed [OF typed]) simp
next
  case (KcTimesConj a b d)
  with ok obtain la lb l where "bufs a = Some (CF64_2, la)" "n \<le> la" "bufs b = Some (CF64_2, lb)" "n \<le> lb"
    "bufs d = Some (CF64_2, l)" "n \<le> l"
    by (auto simp: bound_ok_simps buffer_types_def elem_descriptors)
  then show ?thesis unfolding KcTimesConj elem_thread.simps kc_times_conj_thread_pointwise
    by (rule pointwise_complex_binary_typed [OF typed]) simp
qed

subsection \<open>Properties of the typing\<close>

text \<open>
  C29. Preservation: a launch of an elementwise, complex-conversion or complex-arithmetic
  (\<open>kc_sqrmod\<close>, \<open>kc_mod\<close>, \<open>kc_times\<close>, \<open>kc_times_conj\<close>) kernel whose
  buffers are bound with the element types its descriptor declares, on a store typed by
  the buffer table, leaves the store typed: every buffer keeps its length and its cells
  keep the declared element type.
\<close>

theorem elementwise_preservation:
  assumes "store_typed bufs s" "bound_ok bufs (elem_buffers op) (buffer_types (elem_kernel op)) n"
    and "dispatch_D1 (elem_thread op) n s = Some s'"
  shows "store_typed bufs s'"
  using elem_sound [OF assms(1,2)] assms(3) by auto

text \<open>
  C30. Progress: such a launch over \<open>n\<close> threads, with every bound buffer at least
  \<open>n\<close> elements long, never fails: no thread reads or writes outside a buffer or reads
  a cell of the wrong element type.
\<close>

theorem elementwise_progress:
  assumes "store_typed bufs s" "bound_ok bufs (elem_buffers op) (buffer_types (elem_kernel op)) n"
  shows "\<exists>s'. dispatch_D1 (elem_thread op) n s = Some s'"
  using elem_sound [OF assms] by blast

lemma witness_store_typed: "store_typed [''a'' \<mapsto> (CF64, 1), ''b'' \<mapsto> (CF64, 1), ''d'' \<mapsto> (CF64, 1)] [''a'' \<mapsto> [VF64 (Fin 1)], ''b'' \<mapsto> [VF64 (Fin 2)], ''d'' \<mapsto> [VF64 (Fin 0)]]"
  by (auto simp: store_typed_def split: if_splits)

lemma witness_bound_ok: "bound_ok [''a'' \<mapsto> (CF64, 1), ''b'' \<mapsto> (CF64, 1), ''d'' \<mapsto> (CF64, 1)] (elem_buffers (Plus ''a'' ''b'' ''d'')) (buffer_types (elem_kernel (Plus ''a'' ''b'' ''d''))) 1"
  by (simp add: bound_ok_simps buffer_types_def k_plus_def)

theorem elementwise_preservation_witness:
  "store_typed [''a'' \<mapsto> (CF64, 1), ''b'' \<mapsto> (CF64, 1), ''d'' \<mapsto> (CF64, 1)] [''a'' \<mapsto> [VF64 (Fin 1)], ''b'' \<mapsto> [VF64 (Fin 2)], ''d'' \<mapsto> [VF64 (Fin 0)]] \<and>
   bound_ok [''a'' \<mapsto> (CF64, 1), ''b'' \<mapsto> (CF64, 1), ''d'' \<mapsto> (CF64, 1)] (elem_buffers (Plus ''a'' ''b'' ''d'')) (buffer_types (elem_kernel (Plus ''a'' ''b'' ''d''))) 1 \<and>
   dispatch_D1 (elem_thread (Plus ''a'' ''b'' ''d'')) 1 [''a'' \<mapsto> [VF64 (Fin 1)], ''b'' \<mapsto> [VF64 (Fin 2)], ''d'' \<mapsto> [VF64 (Fin 0)]] = Some [''a'' \<mapsto> [VF64 (Fin 1)], ''b'' \<mapsto> [VF64 (Fin 2)], ''d'' \<mapsto> [VF64 (Fin 3)]] \<and>
   store_typed [''a'' \<mapsto> (CF64, 1), ''b'' \<mapsto> (CF64, 1), ''d'' \<mapsto> (CF64, 1)] [''a'' \<mapsto> [VF64 (Fin 1)], ''b'' \<mapsto> [VF64 (Fin 2)], ''d'' \<mapsto> [VF64 (Fin 3)]]"
proof -
  have h3: "dispatch_D1 (elem_thread (Plus ''a'' ''b'' ''d'')) 1 [''a'' \<mapsto> [VF64 (Fin 1)], ''b'' \<mapsto> [VF64 (Fin 2)], ''d'' \<mapsto> [VF64 (Fin 0)]] = Some [''a'' \<mapsto> [VF64 (Fin 1)], ''b'' \<mapsto> [VF64 (Fin 2)], ''d'' \<mapsto> [VF64 (Fin 3)]]"
    by (simp add: dispatch_D1_def plus_thread_def rd_f64_def rd_def wr_def fun_upd_twist)
  show ?thesis
    by (intro conjI witness_store_typed witness_bound_ok h3
          elementwise_preservation [OF witness_store_typed witness_bound_ok h3])
qed

theorem elementwise_progress_witness:
  "store_typed [''a'' \<mapsto> (CF64, 1), ''b'' \<mapsto> (CF64, 1), ''d'' \<mapsto> (CF64, 1)] [''a'' \<mapsto> [VF64 (Fin 1)], ''b'' \<mapsto> [VF64 (Fin 2)], ''d'' \<mapsto> [VF64 (Fin 0)]] \<and>
   bound_ok [''a'' \<mapsto> (CF64, 1), ''b'' \<mapsto> (CF64, 1), ''d'' \<mapsto> (CF64, 1)] (elem_buffers (Plus ''a'' ''b'' ''d'')) (buffer_types (elem_kernel (Plus ''a'' ''b'' ''d''))) 1 \<and>
   (\<exists>s'. dispatch_D1 (elem_thread (Plus ''a'' ''b'' ''d'')) 1 [''a'' \<mapsto> [VF64 (Fin 1)], ''b'' \<mapsto> [VF64 (Fin 2)], ''d'' \<mapsto> [VF64 (Fin 0)]] = Some s')"
  by (intro conjI witness_store_typed witness_bound_ok elementwise_progress [OF witness_store_typed witness_bound_ok])

end
