(* ===== verification/Spec2Isabelle.thy ===== *)
theory Spec2Isabelle
  imports Harness Typing Counters
begin

text \<open>
  \<^bold>\<open>A verification library for gpgpu-rs's kernel catalog and its Philox generators.\<close>

  \<^bold>\<open>The program.\<close> src/src/kernels.rs builds, once, a map \<open>kernels()\<close> from kernel
  names to descriptors \<open>Kernel {name, args, src, needed}\<close>: the OpenCL body of a
  kernel, its ordered arguments (buffers and scalar parameters with element types) and
  the shared device functions it needs. An external handler (not in the sources) looks a
  kernel up by name, prepends the needed functions, compiles the body and runs it over a
  range of thread indices \<open>x\<close>. Nine of the thirty kernels are counter-based random
  generators: the macro \<open>random!\<close> holds three Philox round cores (2x64, 4x64, 4x32)
  and glues a raw, a unit-interval or a normal (Box--Muller) suffix after each.
  src/examples/random.rs runs the three normal generators and accumulates moments.
  \<open>SKernel\<close> is the owned mirror of \<open>Kernel\<close>, the form that is serialized.

  \<^bold>\<open>The theories.\<close>
  \<^item> \<open>Prelude\<close>: machine words (\<open>u32\<close>, \<open>u64\<close>), OpenCL's \<open>mul_hi\<close>, two- and
    four-lane slices of buffers, a substring test, the shared lemmas and the
    collections \<open>philox_eval\<close> and \<open>catalog_defs\<close>.
  \<^item> \<open>Philox\<close>: the three round cores of \<open>random!\<close> (lines 34--90) as the device runs
    them. Each is modelled twice: as a round on a tuple of lanes (\<open>philox2x64_round\<close>,
    the generic \<open>philox4_round\<close> at both widths) iterated ten times with the key bumped
    after each round (\<open>philox2x64_10\<close>, \<open>philox4x64_10\<close>, \<open>philox4x32_10\<close>), and as
    the code's statements on the buffer in their order (\<open>philox2x64_body\<close>,
    \<open>philox4_body\<close>, the loops, the per-thread kernels). The state is the buffer
    \<open>src\<close> (a list of words); thread \<open>x\<close> owns \<open>src[x*l .. x*l+l-1]\<close>; an access
    outside the buffer, undefined in OpenCL, is \<open>None\<close>.
  \<^item> \<open>Transforms\<close>: the suffixes (unit interval, reconstruction of a 64-bit word from
    two 32-bit lanes, Box--Muller) as the loops over \<open>dst\<close> that the code runs, and
    the six kernels that combine a core with a suffix. Doubles are modelled by
    \<open>f64 = Fin real | NonFinite\<close>: the unit transform is exact in double precision;
    \<open>log\<close>, \<open>sqrt\<close>, \<open>cos\<close>, \<open>sin\<close> are the real functions (their rounding is not
    modelled), and \<open>log(0) = -inf\<close> makes the Box--Muller outputs non-finite.
  \<^item> \<open>Descriptors\<close>: \<open>Kernel\<close>, \<open>SKernel\<close> and \<open>From<&Kernel>\<close> (lines 7--32); the
    argument, element-type and dependency types of \<open>crate::descriptors\<close> and
    \<open>crate::functions\<close> (not among the sources, modelled from the specification).
  \<^item> \<open>Dispatch\<close>: the handler's \<open>run(name, Dim::D1(n))\<close> (outside the sources,
    modelled from the specification) as \<open>launch\<close>, a run of the thread bodies in the
    order of a schedule, and \<open>dispatch_D1\<close>, the launch over \<open>0 .. n-1\<close>. A schedule
    stands for the order the device picks; bodies of different threads that touch
    disjoint data commute, so every interleaving of their statements is one of these
    schedules.
  \<^item> \<open>Elementwise\<close>: the device semantics of \<open>plus\<close>, \<open>minus\<close>, \<open>times\<close>,
    \<open>cplus\<close>, \<open>cminus\<close>, \<open>ctimes\<close> (lines 178--219), \<open>move\<close>, \<open>smove\<close>,
    \<open>dmove\<close>, \<open>rdmove\<close> (lines 226--249) and the complex conversions (lines
    250--272), one thread body each (\<open>plus_thread\<close> .. \<open>image_from_complex_thread\<close>),
    on a store of named buffers of \<open>double\<close>/\<open>double2\<close> cells, so that one buffer may
    be bound to two arguments; \<open>grid3\<close> and \<open>dispatch_D3\<close> for the three-dimensional
    launches of the slice copies; and \<open>kc_sqrmod\<close>, \<open>kc_mod\<close>, \<open>kc_times\<close>,
    \<open>kc_times_conj\<close> (lines 273--298) with their shared functions \<open>c_sqrmod\<close>,
    \<open>c_mod\<close>, \<open>c_times\<close>, \<open>c_times_conj\<close>, which live in \<open>crate::functions\<close>
    (not in the sources) and are modelled from the specification's description
    (squared modulus, modulus, product, product by the conjugate of the second operand).
  \<^item> \<open>Counters\<close>: the \<open>uint\<close> counters of the suffix loops,
    \<open>for(uint i = 0; i < l; i += step)\<close>, as 32-bit words that wrap (\<open>uint_for\<close>, a
    \<open>partial_function\<close> in the option monad, \<open>None\<close> when the loop does not end);
    \<open>suffix_run\<close> runs a loop body over the counter values \<open>uint_for\<close> produces, and
    \<open>unit64_step\<close>, \<open>normal64_step\<close>, \<open>unit4x32_step\<close>, \<open>normal4x32_step\<close>
    are the bodies of the four suffix loops (lines 105, 113--116, 158, 167--170).
  \<^item> \<open>Harness\<close>: the handler's builder, \<open>build()\<close> with the resolution of the
    \<open>needed\<close> functions against a shared-function table, and the argument binder
    (\<open>set_arg\<close>, which checks the count, the kind and the name of each argument and
    that the buffer exists, not its element type), modelled from the specification with
    its error kinds; and
    src/examples/random.rs: the builder chain and bindings of \<open>main\<close>
    (\<open>random_builder\<close>, \<open>random_setup\<close>, lines 9--27) and the runs of \<open>noise\<close>,
    \<open>noise4\<close> and \<open>noise32\<close> (\<open>noise_run\<close>, \<open>noise4_run\<close>, \<open>noise32_run\<close>, lines
    35, 47 and 59) on the bound buffers; \<open>noise32\<close> sees the \<open>U64\<close> buffer as twice as
    many \<open>uint\<close> lanes, low half first (\<open>u32_view\<close>, inverse \<open>u64_view\<close>); the
    three timed blocks (lines 31--65) as \<open>moments_block\<close>: the reset of \<open>moms\<close>, the
    loop \<open>moments_loop\<close> whose iteration \<open>moments_iter\<close> runs a noise kernel and the
    algorithm \<open>moments\<close> (a parameter: \<open>gpgpu::algorithms\<close> is not in the sources),
    the accumulation of line 37 (\<open>accumulate\<close>, \<open>None\<close> where \<open>moms[i]\<close> would
    panic) and the division of line 39 (\<open>f64_div\<close>); \<open>random_moments\<close> runs the three
    blocks on the same buffers and \<open>random_main\<close> is all of \<open>main\<close>, with its errors
    as \<open>main_error\<close> values.
  \<^item> \<open>Typing\<close>: the binder's contract as a typing of the store (IMP's \<open>Types\<close>
    style): a buffer table gives each name an element type and a length
    (\<open>store_typed\<close>), \<open>bound_ok\<close> checks that the buffers bound to a descriptor's
    buffer arguments have the declared types and at least \<open>n\<close> elements, and
    \<open>elem_op\<close> names the fourteen elementwise, complex-conversion and
    complex-arithmetic launches with their
    thread bodies (\<open>elem_thread\<close>) and descriptors (\<open>elem_kernel\<close>).
  \<^item> \<open>Catalog\<close>: the thirty descriptors of \<open>kernels()\<close> (lines 92--305), one
    definition each with the body text exactly as in the source, the list, and the
    \<open>collect()\<close> into the map as a fold of map updates (\<open>catalog_of\<close>); executable
    checks of the bodies against the declared arguments and dependencies, on whole
    identifier tokens (\<open>token_occurs\<close>: \<open>c\<close> does not occur in \<open>src\<close>).

  \<^bold>\<open>What is proved.\<close>
  \<^item> Generators (C1--C7): the code's Philox-2x64-10 reproduces the published
    known-answer vector; each of the three ten-round functions is a bijection of its
    counter space (an explicit inverse); the buffer code of each kernel computes the lane
    function on the thread's slice and nothing else; the key schedule in closed form;
    and the 4x32 variant is not the published Philox-4x32-10 (its rounds take \<open>hi1\<close>
    from \<open>M\<close> where the published round takes the second multiplier).
  \<^item> Transforms (C8--C12): the unit transform lies in \<open>[0, 1)\<close> and maps 0 to 0; the
    32-bit pair reconstruction keeps both lanes; Box--Muller is finite with squared
    radius \<open>-2 ln u1\<close> for \<open>u1 \<in> (0, 1]\<close>; the 4x32 unit kernel writes exactly
    \<open>l/2\<close> doubles per thread; and \<open>u1 = 0\<close> is reachable, so the normal kernels can
    write non-finite values, against the specification's claim that it is excluded.
  \<^item> Catalog (C13--C16): names unique and complete, lookup sound and complete,
    dependency closure (each body calls a shared function exactly when it declares it),
    and every declared argument used as a whole identifier token of the body.
  \<^item> Descriptors (C17): the conversion to the owned mirror is injective.
  \<^item> Dispatch (C18--C19): the launches of the three normal generators give the same
    buffers for every order of their threads, and a launch of \<open>philox2x64_10_normal\<close>
    over \<open>n\<close> threads computes, slice by slice, the ten-round image and its
    Box--Muller pair, leaving the rest of the buffers alone.
  \<^item> Elementwise (C20--C27, C32): \<open>plus\<close> over \<open>n\<close> threads computes \<open>a[i] + b[i]\<close> from
    the values before the launch even when \<open>dst\<close> aliases an input; the pointwise
    kernels are order independent under any aliasing; a launch longer than a buffer is
    an error; \<open>complex_from_real\<close> then \<open>real_from_complex\<close> is the identity; the
    slice copies between two buffers are order independent when their destination index
    maps are injective on the grid (always for \<open>move\<close>, under extent conditions for
    the others); and two races the code allows, for every grid and store where they
    can occur: \<open>smove\<close> on a grid wider than \<open>size.x\<close> with at least two rows (C26),
    and \<open>move\<close> with one buffer as source and destination and an offset inside the
    first row (C27): two orders of the same threads end in different buffers. C32:
    \<open>kc_times_conj(a, a)\<close> followed by \<open>real_from_complex\<close> writes what
    \<open>kc_sqrmod(a)\<close> writes, under any aliasing.
  \<^item> Harness (C28, C31, C34--C36): the setup of random.rs succeeds and binds
    \<open>src\<close> and \<open>num\<close> to each generator; each of the three runs \<open>noise\<close>,
    \<open>noise4\<close>, \<open>noise32\<close> (lines 35, 47, 59) succeeds with the code's thread counts and
    writes every element of \<open>num\<close> and \<open>src\<close> from the thread that owns it; and each
    timed block refines its abstract specification: it returns, moment by moment, the
    sum over the runs in run order divided by \<open>n\<close>, and fails exactly when a run fails
    (\<open>iterate_runs\<close>, \<open>column_mean\<close>).
  \<^item> Typing (C29--C30): preservation (a well-bound launch keeps every buffer's length
    and element type) and progress (it never fails) for the fourteen elementwise,
    complex-conversion and complex-arithmetic kernels.
  \<^item> Counters (C33): each of the six suffix loops of the code, run with its
    \<open>uint\<close> counter and its constants (\<open>l = 2\<close> or \<open>4\<close>, \<open>l2 = l/2\<close>,
    \<open>step = 1\<close> or \<open>2\<close>), terminates and writes what the loop over natural indices
    of \<open>Transforms\<close> writes.

  \<^bold>\<open>Bounds and evaluation.\<close> The loop count 10 is the code's; concrete runs unfold it
  into \<open>Suc\<close> steps (\<open>count_to_Suc\<close>) and evaluate the rounds by \<open>simp\<close>. No fuel is
  needed: every loop of the kernels is bounded, modelled by structural recursion or by
  \<open>function\<close> with a measure (\<open>l - i\<close> for the \<open>i += 2\<close> loops). The
  \<open>for _ in 0..n\<close> loop of random.rs is primitive recursion on \<open>n\<close>; its result is
  stated for every \<open>n\<close>, the code's \<open>n = 2^11\<close> included. The suffix loops are
  indexed by naturals; C33 shows that this is faithful to their \<open>uint\<close> counters
  (\<open>uint_for\<close> returns whenever \<open>l + step \<le> 2^32\<close>, which all six loops meet).
  The thread index \<open>x\<close> that \<open>philox4x32_key\<close> splits (\<open>uint key[2] = {x>>32,x}\<close>)
  is taken as a 64-bit word: its declaration belongs to the handler's compiler, outside
  the sources, and \<open>x>>32\<close> is only meaningful for a 64-bit index (\<open>get_global_id(0)\<close>
  is a \<open>size_t\<close>, 64-bit on a 64-bit device); \<open>key[0]\<close> is its high half and
  \<open>key[1]\<close> its low half.

  \<^bold>\<open>Not modelled.\<close> The handler's buffer allocation, compilation and argument
  binding are outside the sources (its dispatch, build and binder are modelled from the
  specification). The serialization of \<open>SKernel\<close> is derived by serde and is not in
  the sources; its wire format is not modelled. The specification says the binder
  checks each argument's kind and type; random.rs binds a \<open>U64\<close> buffer to a
  \<open>uint\<close> argument and is a working program, so the model of the binder checks the
  kind, the name and the existence of the buffer only.
  \<open>divides\<close>, \<open>cdivides\<close> and \<open>kc_divides\<close> are descriptors only: IEEE division
  of a finite value by an infinity gives 0 and by a NaN gives NaN, which the two-valued
  double model (\<open>Fin\<close> or \<open>NonFinite\<close>) cannot tell apart, and a finer double
  model would change every theory that reads doubles. The shared functions of the
  \<open>kc_*\<close> kernels are modelled from the specification's words, not from their code,
  which is not in the sources. Index
  arithmetic of the slice copies is on naturals (buffers below \<open>2^32\<close> elements, no
  wrap). In random.rs, the algorithm \<open>moments\<close> and \<open>moments_to_cumulants\<close> belong
  to \<open>gpgpu::algorithms\<close>, outside the sources (the first is a parameter of the model);
  timing and printing are I/O.
  Rounding of floating-point arithmetic and of the transcendental functions is not
  modelled.

  \<^bold>\<open>Further work.\<close> The results of the slice copies (not only their order
  independence) and their typing.
\<close>

end
